theory Spec2Isabelle
  imports Main "HOL-Library.AList"
begin

section \<open>JavaScript values\<close>

text \<open>
  The service of \<^verbatim>\<open>src/screens/HomeScreen.tsx\<close> (class \<^verbatim>\<open>SharePointService\<close>) works on
  values of type \<^verbatim>\<open>any\<close> that come out of \<^verbatim>\<open>response.json()\<close>. They are modelled by the
  datatype \<open>json\<close>. An object is an association list in the enumeration order of its own
  keys; a missing property reads as \<open>JUndefined\<close>.

  Scope of the model: a number is a mathematical integer, which stands for the double of
  the same value. The model is exact for the safe integers, those of magnitude at most
  \<open>max_safe_integer\<close>, where every integer is a double, \<^verbatim>\<open>parseInt\<close> is exact and
  \<^verbatim>\<open>String(n)\<close> is the decimal notation. Doubles with a fractional part and infinities are
  not represented, and beyond the safe range the code rounds and prints doubles, which the
  functions below do not follow: a statement that depends on the digits of an identifier
  assumes that it is a safe integer. \<open>NaN\<close> is the \<open>None\<close> of an \<open>int option\<close>. A string is
  a list of 8-bit characters, read as the UTF-16 code units below 256.
\<close>

datatype json =
    JUndefined
  | JNull
  | JBool bool
  | JNum int
  | JStr string
  | JArr "json list"
  | JObj "(string \<times> json) list"

type_synonym obj = "(string \<times> json) list"

text \<open>Truthiness, as tested by \<^verbatim>\<open>if (x)\<close>, \<^verbatim>\<open>!x\<close>, \<^verbatim>\<open>x && y\<close> and \<^verbatim>\<open>x || y\<close>.\<close>

fun truthy :: "json \<Rightarrow> bool" where
  "truthy JUndefined = False"
| "truthy JNull = False"
| "truthy (JBool b) = b"
| "truthy (JNum n) = (n \<noteq> 0)"
| "truthy (JStr s) = (s \<noteq> [])"
| "truthy (JArr xs) = True"
| "truthy (JObj kvs) = True"

text \<open>\<^verbatim>\<open>a || b\<close>\<close>

definition js_or :: "json \<Rightarrow> json \<Rightarrow> json" where
  "js_or a b = (if truthy a then a else b)"

text \<open>\<^verbatim>\<open>typeof x === 'object'\<close> (true of \<^verbatim>\<open>null\<close> and of arrays as well).\<close>

fun is_object :: "json \<Rightarrow> bool" where
  "is_object JNull = True"
| "is_object (JArr xs) = True"
| "is_object (JObj kvs) = True"
| "is_object v = False"

text \<open>\<^verbatim>\<open>x != null\<close>: neither \<^verbatim>\<open>null\<close> nor \<^verbatim>\<open>undefined\<close>.\<close>

fun not_nullish :: "json \<Rightarrow> bool" where
  "not_nullish JUndefined = False"
| "not_nullish JNull = False"
| "not_nullish v = True"

text \<open>Reading a property of an object that is known to exist.\<close>

definition field :: "obj \<Rightarrow> string \<Rightarrow> json" where
  "field kvs k = (case map_of kvs k of Some v \<Rightarrow> v | None \<Rightarrow> JUndefined)"

text \<open>
  \<^verbatim>\<open>x.k\<close> for a value that is neither \<^verbatim>\<open>null\<close> nor \<^verbatim>\<open>undefined\<close>. None of the property
  names the service reads is an own property of a string, a number, a boolean or an array.
\<close>

fun prop_of :: "json \<Rightarrow> string \<Rightarrow> json" where
  "prop_of (JObj kvs) k = field kvs k"
| "prop_of v k = JUndefined"

text \<open>
  Thrown values. \<open>Error m\<close> is \<^verbatim>\<open>new Error(m)\<close>, also when a library throws it. The
  message of the redirect mismatch error holds line breaks and arrow characters outside
  the 8-bit range, so that error keeps its three parameters (the redirect URI, the error
  message and the error description) instead of the text.
\<close>

datatype error =
    Error string
  | RedirectUriMismatch string string string
  | TypeError
  | SyntaxError
  | NetworkRequestFailed

text \<open>\<^verbatim>\<open>x.k\<close> for any value: reading a property of \<^verbatim>\<open>null\<close> or \<^verbatim>\<open>undefined\<close> throws.\<close>

fun get :: "json \<Rightarrow> string \<Rightarrow> error + json" where
  "get JUndefined k = Inl TypeError"
| "get JNull k = Inl TypeError"
| "get v k = Inr (prop_of v k)"

text \<open>\<^verbatim>\<open>x?.k\<close>\<close>

fun opt_chain :: "json \<Rightarrow> string \<Rightarrow> json" where
  "opt_chain JUndefined k = JUndefined"
| "opt_chain JNull k = JUndefined"
| "opt_chain v k = prop_of v k"


section \<open>Strings\<close>

definition digits :: string where
  "digits = ''0123456789''"

definition is_digit :: "char \<Rightarrow> bool" where
  "is_digit c = (c \<in> set digits)"

definition is_alpha :: "char \<Rightarrow> bool" where
  "is_alpha c = (c \<in> set ''ABCDEFGHIJKLMNOPQRSTUVWXYZabcdefghijklmnopqrstuvwxyz'')"

definition is_hex :: "char \<Rightarrow> bool" where
  "is_hex c = (c \<in> set ''0123456789abcdefABCDEF'')"

text \<open>
  The class \<^verbatim>\<open>\s\<close> and the characters \<^verbatim>\<open>trim()\<close> and \<^verbatim>\<open>parseInt\<close> skip, below 256:
  tab, line feed, vertical tab, form feed, carriage return, space, no-break space.
\<close>

definition is_space :: "char \<Rightarrow> bool" where
  "is_space c = (c \<in> set [CHR 0x09, CHR 0x0A, CHR 0x0B, CHR 0x0C, CHR 0x0D, CHR 0x20, CHR 0xA0])"

definition trim :: "string \<Rightarrow> string" where
  "trim s = rev (dropWhile is_space (rev (dropWhile is_space s)))"

text \<open>\<^verbatim>\<open>s.startsWith(p)\<close>\<close>

fun startsWith :: "string \<Rightarrow> string \<Rightarrow> bool" where
  "startsWith s [] = True"
| "startsWith [] (p # ps) = False"
| "startsWith (c # cs) (p # ps) = (c = p \<and> startsWith cs ps)"

text \<open>\<^verbatim>\<open>s.includes(p)\<close>\<close>

fun str_includes :: "string \<Rightarrow> string \<Rightarrow> bool" where
  "str_includes [] p = (p = [])"
| "str_includes (c # cs) p = (startsWith (c # cs) p \<or> str_includes cs p)"

text \<open>\<^verbatim>\<open>s.replace(p, r)\<close> with a string pattern: the first occurrence only.\<close>

fun replace :: "string \<Rightarrow> string \<Rightarrow> string \<Rightarrow> string" where
  "replace [] p r = (if p = [] then r else [])"
| "replace (c # cs) p r =
     (if startsWith (c # cs) p then r @ drop (length p) (c # cs) else c # replace cs p r)"

text \<open>\<^verbatim>\<open>s.split(sep)\<close> for a separator of one character.\<close>

fun split :: "string \<Rightarrow> char \<Rightarrow> string list" where
  "split [] sep = [[]]"
| "split (c # cs) sep =
     (if c = sep then [] # split cs sep
      else (case split cs sep of p # ps \<Rightarrow> (c # p) # ps | [] \<Rightarrow> [[c]]))"

text \<open>\<^verbatim>\<open>xs.join(sep)\<close> on strings.\<close>

fun join :: "string list \<Rightarrow> string \<Rightarrow> string" where
  "join [] sep = []"
| "join [x] sep = x"
| "join (x # y # ys) sep = x @ sep @ join (y # ys) sep"

text \<open>\<^verbatim>\<open>s.toLowerCase()\<close>: the letters A-Z and the capital letters of Latin-1.\<close>

definition lower_char :: "char \<Rightarrow> char" where
  "lower_char c =
     (let n = (of_char c :: nat)
      in if (65 \<le> n \<and> n \<le> 90) \<or> (192 \<le> n \<and> n \<le> 222 \<and> n \<noteq> 215) then char_of (n + 32) else c)"

definition toLowerCase :: "string \<Rightarrow> string" where
  "toLowerCase s = map lower_char s"

text \<open>Decimal notation of a number, as \<^verbatim>\<open>String(n)\<close> and a template literal print it.\<close>

function show_nat :: "nat \<Rightarrow> string" where
  "show_nat n = (if n < 10 then [digits ! n] else show_nat (n div 10) @ [digits ! (n mod 10)])"
  by pat_completeness auto
termination
  by (relation "measure id") auto

function show_digits :: "int \<Rightarrow> string" where
  "show_digits n =
     (if n < 10 then [digits ! nat n] else show_digits (n div 10) @ [digits ! nat (n mod 10)])"
  by pat_completeness auto
termination
  by (relation "measure nat") auto

definition show_int :: "int \<Rightarrow> string" where
  "show_int i = (if i < 0 then CHR ''-'' # show_digits (- i) else show_digits i)"

text \<open>
  \<^verbatim>\<open>String(x)\<close> and \<^verbatim>\<open>`${x}`\<close>. An array prints its elements separated by commas, with
  \<^verbatim>\<open>null\<close> and \<^verbatim>\<open>undefined\<close> elements empty.
\<close>

fun js_string :: "json \<Rightarrow> string" where
  "js_string JUndefined = ''undefined''"
| "js_string JNull = ''null''"
| "js_string (JBool b) = (if b then ''true'' else ''false'')"
| "js_string (JNum n) = show_int n"
| "js_string (JStr s) = s"
| "js_string (JArr xs) =
     join (map (\<lambda>x. if not_nullish x then js_string x else []) xs) '',''"
| "js_string (JObj kvs) = ''[object Object]''"

text \<open>
  The own enumerable properties of a value, in order, as \<^verbatim>\<open>Object.entries(x)\<close> and the
  spread \<^verbatim>\<open>{...x}\<close> see them: those of an object in the order of its association list,
  the keys of an array and of a string are the indices.
\<close>

fun entries :: "json \<Rightarrow> (string \<times> json) list" where
  "entries (JObj kvs) = kvs"
| "entries (JArr xs) = zip (map show_nat [0..<length xs]) xs"
| "entries (JStr x) = zip (map show_nat [0..<length x]) (map (\<lambda>c. JStr [c]) x)"
| "entries v = []"

text \<open>
  \<^verbatim>\<open>parseInt(s, 10)\<close>: leading white space is skipped, then an optional sign and the longest
  run of digits are read; \<open>None\<close> is \<^verbatim>\<open>NaN\<close>.
\<close>

definition digit_val :: "char \<Rightarrow> int" where
  "digit_val c = (of_char c :: int) - 48"

definition digits_value :: "string \<Rightarrow> int" where
  "digits_value ds = foldl (\<lambda>acc c. 10 * acc + digit_val c) 0 ds"

definition read_digits :: "string \<Rightarrow> int option" where
  "read_digits s =
     (let ds = takeWhile is_digit s
      in if ds = [] then None else Some (digits_value ds))"

definition parseInt :: "string \<Rightarrow> int option" where
  "parseInt s =
     (case dropWhile is_space s of
        [] \<Rightarrow> None
      | c # cs \<Rightarrow>
          if c = CHR ''-'' then map_option (\<lambda>n. - n) (read_digits cs)
          else if c = CHR ''+'' then read_digits cs
          else read_digits (c # cs))"

definition max_safe_integer :: int where
  "max_safe_integer = 9007199254740991"

text \<open>Every number in the value is a safe integer, so that \<^verbatim>\<open>String(x)\<close> is exact.\<close>

fun safe_integers :: "json \<Rightarrow> bool" where
  "safe_integers (JNum n) = (\<bar>n\<bar> \<le> max_safe_integer)"
| "safe_integers (JArr xs) = list_all safe_integers xs"
| "safe_integers v = True"

text \<open>What \<^verbatim>\<open>parseInt(s, 10)\<close> reads from the string, if anything, is a safe integer.\<close>

definition safe_parse :: "string \<Rightarrow> bool" where
  "safe_parse s = (case parseInt s of None \<Rightarrow> True | Some m \<Rightarrow> \<bar>m\<bar> \<le> max_safe_integer)"

text \<open>
  The order of the keys of an object: the array indices (the canonical decimal notations
  of the numbers up to \<open>2\<^sup>3\<^sup>2 - 2\<close>) come first, in ascending order, then the other keys in
  the order they were added.
\<close>

definition is_array_index :: "string \<Rightarrow> bool" where
  "is_array_index k =
     (case k of
        [] \<Rightarrow> False
      | c # cs \<Rightarrow> list_all is_digit k \<and> (cs = [] \<or> c \<noteq> CHR ''0'') \<and> digits_value k \<le> 4294967294)"

fun insert_index :: "string \<Rightarrow> json \<Rightarrow> obj \<Rightarrow> obj" where
  "insert_index k v [] = [(k, v)]"
| "insert_index k v ((k', v') # rest) =
     (if is_array_index k' \<and> digits_value k' < digits_value k
      then (k', v') # insert_index k v rest
      else (k, v) # (k', v') # rest)"

text \<open>
  \<^verbatim>\<open>obj[k] = v\<close>: an existing key keeps its place; a new key that is an array index goes to
  its place among the indices, any other new key goes last.
\<close>

definition set_field :: "obj \<Rightarrow> string \<Rightarrow> json \<Rightarrow> obj" where
  "set_field kvs k v =
     (if is_array_index k \<and> map_of kvs k = None then insert_index k v kvs
      else AList.update k v kvs)"

text \<open>
  \<^verbatim>\<open>x > 0\<close> for a string: the string is converted to a number as \<^verbatim>\<open>Number(x)\<close> does.
  White space around the literal is dropped. A literal is a binary, octal or hexadecimal
  integer without sign, or a decimal literal with an optional sign, fraction and
  exponent, or \<^verbatim>\<open>Infinity\<close>. A value that rounds to zero (at most \<open>2\<^sup>-\<^sup>1\<^sup>0\<^sup>7\<^sup>5\<close>) is not
  greater than zero.
\<close>

definition radix_positive :: "string \<Rightarrow> string \<Rightarrow> bool" where
  "radix_positive allowed body =
     (body \<noteq> [] \<and> list_all (\<lambda>c. c \<in> set allowed) body \<and> list_ex (\<lambda>c. c \<noteq> CHR ''0'') body)"

definition signed_digits :: "string \<Rightarrow> int option" where
  "signed_digits s =
     (case s of
        [] \<Rightarrow> None
      | c # cs \<Rightarrow>
          if c = CHR ''-'' then
            (if cs \<noteq> [] \<and> list_all is_digit cs then Some (- digits_value cs) else None)
          else if c = CHR ''+'' then
            (if cs \<noteq> [] \<and> list_all is_digit cs then Some (digits_value cs) else None)
          else if list_all is_digit (c # cs) then Some (digits_value (c # cs)) else None)"

definition exponent_part :: "string \<Rightarrow> int option" where
  "exponent_part r =
     (case r of
        [] \<Rightarrow> Some 0
      | c # cs \<Rightarrow> if c = CHR ''e'' \<or> c = CHR ''E'' then signed_digits cs else None)"

definition decimal_positive :: "string \<Rightarrow> bool" where
  "decimal_positive u =
     (if u = ''Infinity'' then True
      else
        (let ip = takeWhile is_digit u;
             r1 = dropWhile is_digit u;
             fp = (case r1 of [] \<Rightarrow> [] | c # cs \<Rightarrow> if c = CHR ''.'' then takeWhile is_digit cs else []);
             r2 = (case r1 of [] \<Rightarrow> [] | c # cs \<Rightarrow> if c = CHR ''.'' then dropWhile is_digit cs else r1)
         in if ip = [] \<and> fp = [] then False
            else
              (case exponent_part r2 of
                 None \<Rightarrow> False
               | Some ex \<Rightarrow>
                   (let m = digits_value (ip @ fp);
                        scale = ex - int (length fp)
                    in 0 < m \<and> (0 \<le> scale \<or> 10 ^ nat (- scale) < m * 2 ^ 1075)))))"

definition string_positive :: "string \<Rightarrow> bool" where
  "string_positive s =
     (let t = trim s
      in if startsWith t ''0x'' \<or> startsWith t ''0X''
         then radix_positive ''0123456789abcdefABCDEF'' (drop 2 t)
         else if startsWith t ''0o'' \<or> startsWith t ''0O'' then radix_positive ''01234567'' (drop 2 t)
         else if startsWith t ''0b'' \<or> startsWith t ''0B'' then radix_positive ''01'' (drop 2 t)
         else
           (case t of
              [] \<Rightarrow> False
            | c # cs \<Rightarrow>
                if c = CHR ''-'' then False
                else if c = CHR ''+'' then decimal_positive cs
                else decimal_positive t))"

text \<open>\<^verbatim>\<open>x > 0\<close> for any value: an array is converted through its string.\<close>

fun js_positive :: "json \<Rightarrow> bool" where
  "js_positive (JBool b) = b"
| "js_positive (JNum n) = (0 < n)"
| "js_positive (JStr x) = string_positive x"
| "js_positive (JArr xs) = string_positive (js_string (JArr xs))"
| "js_positive v = False"

section \<open>Patterns\<close>

fun starts_digit :: "string \<Rightarrow> bool" where
  "starts_digit [] = False"
| "starts_digit (c # cs) = is_digit c"

text \<open>\<^verbatim>\<open>/^HPH\s?\d+/\<close>\<close>

definition matches_HPH :: "string \<Rightarrow> bool" where
  "matches_HPH s =
     (startsWith s ''HPH'' \<and>
      (case drop 3 s of
         [] \<Rightarrow> False
       | c # cs \<Rightarrow> is_digit c \<or> (is_space c \<and> starts_digit cs)))"

text \<open>\<^verbatim>\<open>/^\d+$/\<close>\<close>

definition matches_number :: "string \<Rightarrow> bool" where
  "matches_number s = (s \<noteq> [] \<and> list_all is_digit s)"

text \<open>\<^verbatim>\<open>/^\d{4}-\d{2}-\d{2}/\<close>\<close>

definition matches_date :: "string \<Rightarrow> bool" where
  "matches_date s =
     (10 \<le> length s \<and> list_all is_digit (take 4 s) \<and> s ! 4 = CHR ''-'' \<and>
      list_all is_digit (take 2 (drop 5 s)) \<and> s ! 7 = CHR ''-'' \<and>
      list_all is_digit (take 2 (drop 8 s)))"

text \<open>\<^verbatim>\<open>/^[A-Za-z\s]+$/\<close>\<close>

definition matches_letters :: "string \<Rightarrow> bool" where
  "matches_letters s = (s \<noteq> [] \<and> list_all (\<lambda>c. is_alpha c \<or> is_space c) s)"

text \<open>\<^verbatim>\<open>/^[A-Za-z\s.]+$/\<close>\<close>

definition matches_letters_dots :: "string \<Rightarrow> bool" where
  "matches_letters_dots s =
     (s \<noteq> [] \<and> list_all (\<lambda>c. is_alpha c \<or> is_space c \<or> c = CHR ''.'') s)"

text \<open>\<^verbatim>\<open>/^[0-9a-f]{8}-[0-9a-f]{4}-[0-9a-f]{4}-[0-9a-f]{4}-[0-9a-f]{12}$/i\<close>\<close>

definition isGuidFormat :: "string \<Rightarrow> bool" where
  "isGuidFormat s =
     (length s = 36 \<and>
      list_all is_hex (take 8 s) \<and> s ! 8 = CHR ''-'' \<and>
      list_all is_hex (take 4 (drop 9 s)) \<and> s ! 13 = CHR ''-'' \<and>
      list_all is_hex (take 4 (drop 14 s)) \<and> s ! 18 = CHR ''-'' \<and>
      list_all is_hex (take 4 (drop 19 s)) \<and> s ! 23 = CHR ''-'' \<and>
      list_all is_hex (drop 24 s))"

section \<open>The service and its environment\<close>

text \<open>
  A request as \<^verbatim>\<open>makeGraphRequest\<close> hands it to \<^verbatim>\<open>fetch\<close>: the URL, the method of the
  options (\<open>None\<close> when the options have none, which \<^verbatim>\<open>fetch\<close> sends as a GET), the
  \<^verbatim>\<open>Authorization\<close> header and the body. The body is the value the caller passed to
  \<^verbatim>\<open>JSON.stringify\<close>. The headers \<^verbatim>\<open>Accept\<close> and \<^verbatim>\<open>Content-Type\<close> are the same constants
  in every request and are left out; no caller passes headers of its own.
\<close>

datatype http_method = POST | PATCH | DELETE

record request_init =
  init_method :: "http_method option"
  init_body :: "json option"

record request =
  req_url :: string
  req_method :: "http_method option"
  req_authorization :: string
  req_body :: "json option"

text \<open>
  What \<^verbatim>\<open>fetch\<close> gives back: the promise rejects; a response that is not \<^verbatim>\<open>ok\<close>, with its
  status and text; an \<^verbatim>\<open>ok\<close> response whose \<^verbatim>\<open>json()\<close> parses; one whose \<^verbatim>\<open>json()\<close> throws.
\<close>

datatype response =
    NoResponse
  | HttpFailure nat string
  | HttpSuccess json
  | HttpGarbage

text \<open>The authorization request, the endpoints and the token exchange of \<^verbatim>\<open>expo-auth-session\<close>.\<close>

record auth_request =
  ar_clientId :: string
  ar_scopes :: "string list"
  ar_redirectUri :: string
  ar_usePKCE :: bool

record discovery =
  authorizationEndpoint :: string
  tokenEndpoint :: string

record token_exchange =
  te_clientId :: string
  te_redirectUri :: string
  te_code :: json
  te_code_verifier :: "json option"

record auth_error =
  ae_message :: string
  ae_code :: string
  ae_description :: "string option"

datatype prompt_result =
    PromptSuccess json
  | PromptError "auth_error option"
  | PromptCancel
  | PromptOther string

text \<open>
  Everything the service does to the outside world is an event of the trace: a request
  sent with \<^verbatim>\<open>fetch\<close>, the interactive prompt, the token exchange.
\<close>

datatype event =
    Fetch request
  | Prompt auth_request discovery
  | Exchange token_exchange discovery

text \<open>
  The environment is what the class does not define: the remote side, which answers a
  request knowing the events before it, and the platform and library functions.
  \<open>parseURL\<close> is \<^verbatim>\<open>new URL(s)\<close>, giving \<^verbatim>\<open>hostname\<close> and \<^verbatim>\<open>pathname\<close>, or \<open>None\<close> when it
  throws. \<open>makeRedirectUri\<close> takes the scheme and path options, when given. \<open>codeVerifier\<close>
  is \<^verbatim>\<open>request.codeVerifier || request._codeVerifier || request.code_verifier\<close>.
  \<open>exchangeCodeAsync\<close> gives \<^verbatim>\<open>tokenResult.accessToken\<close>.
\<close>

record env =
  fetch :: "event list \<Rightarrow> request \<Rightarrow> response"
  parseURL :: "string \<Rightarrow> (string \<times> string) option"
  encodeURIComponent :: "string \<Rightarrow> string"
  makeRedirectUri :: "(string \<times> string) option \<Rightarrow> string"
  promptAsync :: "event list \<Rightarrow> auth_request \<Rightarrow> discovery \<Rightarrow> error + prompt_result"
  codeVerifier :: "auth_request \<Rightarrow> json"
  exchangeCodeAsync :: "event list \<Rightarrow> token_exchange \<Rightarrow> discovery \<Rightarrow> error + string"

text \<open>The fields of \<^verbatim>\<open>SharePointService\<close>, and the trace of events so far.\<close>

record service =
  siteUrl :: string
  clientId :: string
  tenantId :: string
  accessToken :: "string option"
  sharePointRoot :: string
  siteId :: "string option"
  listIdCache :: "string \<rightharpoonup> json"
  trace :: "event list"

definition setAccessToken :: "string \<Rightarrow> service \<Rightarrow> service" where
  "setAccessToken token s = s\<lparr>accessToken := Some token\<rparr>"

definition getAccessToken :: "service \<Rightarrow> string option" where
  "getAccessToken s = accessToken s"

text \<open>The request \<^verbatim>\<open>makeGraphRequest\<close> builds for an endpoint, with the bearer token.\<close>

definition graph_request :: "string \<Rightarrow> string \<Rightarrow> request_init \<Rightarrow> request" where
  "graph_request token endpoint options =
     \<lparr>req_url = ''https://graph.microsoft.com/v1.0/'' @ endpoint,
      req_method = init_method options,
      req_authorization = ''Bearer '' @ token,
      req_body = init_body options\<rparr>"

text \<open>\<^verbatim>\<open>makeGraphRequest(endpoint, options)\<close>\<close>

definition makeGraphRequest ::
  "env \<Rightarrow> string \<Rightarrow> request_init \<Rightarrow> service \<Rightarrow> (error + json) \<times> service" where
  "makeGraphRequest e endpoint options s =
     (case accessToken s of
        None \<Rightarrow> (Inl (Error ''Not authenticated. Call authenticate() first.''), s)
      | Some token \<Rightarrow>
          if token = [] then (Inl (Error ''Not authenticated. Call authenticate() first.''), s)
          else
            let req = graph_request token endpoint options;
                s' = s\<lparr>trace := trace s @ [Fetch req]\<rparr>
            in (case fetch e (trace s) req of
                  NoResponse \<Rightarrow> (Inl NetworkRequestFailed, s')
                | HttpFailure status errorText \<Rightarrow>
                    (Inl (Error (''Microsoft Graph API error: '' @ show_nat status @ '' - '' @ errorText)), s')
                | HttpSuccess v \<Rightarrow> (Inr v, s')
                | HttpGarbage \<Rightarrow> (Inl SyntaxError, s')))"

definition no_options :: request_init where
  "no_options = \<lparr>init_method = None, init_body = None\<rparr>"

text \<open>\<^verbatim>\<open>getSiteId()\<close>\<close>

definition getSiteId :: "env \<Rightarrow> service \<Rightarrow> (error + string) \<times> service" where
  "getSiteId e s =
     (if siteId s \<noteq> None \<and> siteId s \<noteq> Some [] then (Inr (the (siteId s)), s)
      else
        (case parseURL e (siteUrl s) of
           None \<Rightarrow> (Inl TypeError, s)
         | Some (hostname, pathname) \<Rightarrow>
             let pathParts = filter (\<lambda>p. p \<noteq> []) (split pathname CHR ''/'');
                 sitePath = (if 0 < length pathParts then hostname @ '':/'' @ join pathParts ''/''
                             else hostname);
                 encodedSitePath = encodeURIComponent e sitePath
             in (case makeGraphRequest e (''sites/'' @ encodedSitePath) no_options s of
                   (Inl err, s1) \<Rightarrow> (Inl err, s1)
                 | (Inr data, s1) \<Rightarrow>
                     (case get data ''id'' of
                        Inl err \<Rightarrow> (Inl err, s1)
                      | Inr i \<Rightarrow>
                          if \<not> truthy i then (Inl (Error ''Site ID not found in response''), s1)
                          else (Inr (js_string i), s1\<lparr>siteId := Some (js_string i)\<rparr>)))))"

text \<open>
  \<^verbatim>\<open>v?.toLowerCase() === listName.toLowerCase()\<close>: calling \<^verbatim>\<open>toLowerCase\<close> on a value that
  is not a string, \<^verbatim>\<open>null\<close> or \<^verbatim>\<open>undefined\<close> throws.
\<close>

fun lower_equals :: "json \<Rightarrow> string \<Rightarrow> error + bool" where
  "lower_equals JUndefined listName = Inr False"
| "lower_equals JNull listName = Inr False"
| "lower_equals (JStr x) listName = Inr (toLowerCase x = toLowerCase listName)"
| "lower_equals v listName = Inl TypeError"

text \<open>The \<^verbatim>\<open>lists.find(...)\<close> of \<^verbatim>\<open>getListId\<close>; \<open>JUndefined\<close> when no list matches.\<close>

fun find_list :: "json list \<Rightarrow> string \<Rightarrow> error + json" where
  "find_list [] listName = Inr JUndefined"
| "find_list (l # ls) listName =
     (case get l ''displayName'' of
        Inl err \<Rightarrow> Inl err
      | Inr d \<Rightarrow>
          (case lower_equals d listName of
             Inl err \<Rightarrow> Inl err
           | Inr True \<Rightarrow> Inr l
           | Inr False \<Rightarrow>
               (case lower_equals (prop_of l ''name'') listName of
                  Inl err \<Rightarrow> Inl err
                | Inr True \<Rightarrow> Inr l
                | Inr False \<Rightarrow> find_list ls listName)))"

text \<open>\<^verbatim>\<open>xs.join(sep)\<close> on values.\<close>

definition join_values :: "json list \<Rightarrow> string \<Rightarrow> string" where
  "join_values xs sep = join (map (\<lambda>x. if not_nullish x then js_string x else []) xs) sep"

definition list_not_found :: "string \<Rightarrow> json list \<Rightarrow> error" where
  "list_not_found listName available =
     (let availableLists =
            join_values (map (\<lambda>l. js_or (prop_of l ''displayName'') (prop_of l ''name'')) available) '', ''
      in Error (''List '' @ [CHR 0x22] @ listName @ [CHR 0x22] @ '' not found.'' @ [CHR 0x0A] @
                ''Available lists: '' @ (if availableLists \<noteq> [] then availableLists else ''none'')))"

text \<open>\<^verbatim>\<open>getListId(listName)\<close>\<close>

definition getListId :: "env \<Rightarrow> string \<Rightarrow> service \<Rightarrow> (error + json) \<times> service" where
  "getListId e listName s =
     (case listIdCache s listName of
        Some i \<Rightarrow> (Inr i, s)
      | None \<Rightarrow>
          (case getSiteId e s of
             (Inl err, s1) \<Rightarrow> (Inl err, s1)
           | (Inr sid, s1) \<Rightarrow>
               (case makeGraphRequest e (''sites/'' @ sid @ ''/lists'') no_options s1 of
                  (Inl err, s2) \<Rightarrow> (Inl err, s2)
                | (Inr listsData, s2) \<Rightarrow>
                    (case get listsData ''value'' of
                       Inl err \<Rightarrow> (Inl err, s2)
                     | Inr v \<Rightarrow>
                         (case js_or v (JArr []) of
                            JArr available \<Rightarrow>
                              (case find_list available listName of
                                 Inl err \<Rightarrow> (Inl err, s2)
                               | Inr l \<Rightarrow>
                                   if \<not> truthy l then (Inl (list_not_found listName available), s2)
                                   else (Inr (prop_of l ''id''),
                                         s2\<lparr>listIdCache := (listIdCache s2)(listName \<mapsto> prop_of l ''id'')\<rparr>))
                          | _ \<Rightarrow> (Inl TypeError, s2))))))"

text \<open>\<^verbatim>\<open>getLists()\<close>\<close>

definition getLists :: "env \<Rightarrow> service \<Rightarrow> (error + json) \<times> service" where
  "getLists e s =
     (case getSiteId e s of
        (Inl err, s1) \<Rightarrow> (Inl err, s1)
      | (Inr sid, s1) \<Rightarrow>
          (case makeGraphRequest e (''sites/'' @ sid @ ''/lists'') no_options s1 of
             (Inl err, s2) \<Rightarrow> (Inl err, s2)
           | (Inr response, s2) \<Rightarrow>
               (case get response ''value'' of
                  Inl err \<Rightarrow> (Inl err, s2)
                | Inr v \<Rightarrow> (Inr (js_or v (JArr [])), s2))))"

text \<open>\<^verbatim>\<open>getList(listName)\<close>\<close>

definition getList :: "env \<Rightarrow> string \<Rightarrow> service \<Rightarrow> (error + json) \<times> service" where
  "getList e listName s =
     (case getListId e listName s of
        (Inl err, s1) \<Rightarrow> (Inl err, s1)
      | (Inr listId, s1) \<Rightarrow>
          (case getSiteId e s1 of
             (Inl err, s2) \<Rightarrow> (Inl err, s2)
           | (Inr sid, s2) \<Rightarrow>
               makeGraphRequest e (''sites/'' @ sid @ ''/lists/'' @ js_string listId) no_options s2))"

section \<open>Authentication\<close>

text \<open>\<^verbatim>\<open>defaultUri.match(/^(exp:\/\/[^\/]+)/)\<close>: the first group, when the pattern matches.\<close>

definition match_exp_base :: "string \<Rightarrow> string option" where
  "match_exp_base u =
     (if startsWith u ''exp://'' \<and> takeWhile (\<lambda>c. c \<noteq> CHR ''/'') (drop 6 u) \<noteq> []
      then Some (''exp://'' @ takeWhile (\<lambda>c. c \<noteq> CHR ''/'') (drop 6 u))
      else None)"

text \<open>The redirect URI that \<^verbatim>\<open>authenticate\<close> computes before it builds the request.\<close>

definition redirect_uri :: "env \<Rightarrow> string" where
  "redirect_uri e =
     (let redirectUri = makeRedirectUri e (Some (''employee-assets'', ''auth''))
      in if startsWith redirectUri ''exp://'' then
           (let defaultUri = makeRedirectUri e None
            in if str_includes defaultUri ''://'' then
                 (case match_exp_base defaultUri of
                    Some m \<Rightarrow> m @ ''/''
                  | None \<Rightarrow> defaultUri)
               else defaultUri)
         else redirectUri)"

text \<open>\<^verbatim>\<open>s.split(sep)[0]\<close>: the part before the first occurrence of the separator.\<close>

fun before_first :: "string \<Rightarrow> string \<Rightarrow> string" where
  "before_first [] sep = []"
| "before_first (c # cs) sep = (if startsWith (c # cs) sep then [] else c # before_first cs sep)"

definition scopes :: "string list" where
  "scopes = [''https://graph.microsoft.com/Sites.ReadWrite.All'',
             ''https://graph.microsoft.com/User.Read'']"

text \<open>
  The \<^verbatim>\<open>catch\<close> block of \<^verbatim>\<open>authenticate\<close>: an error with a message is thrown again, one
  with an empty message is wrapped.
\<close>

fun rethrow :: "error \<Rightarrow> error" where
  "rethrow (Error m) = (if m \<noteq> [] then Error m else Error ''Authentication failed: Error'')"
| "rethrow err = err"

text \<open>The branch \<^verbatim>\<open>result.type === 'error'\<close>.\<close>

definition prompt_error :: "string \<Rightarrow> auth_error option \<Rightarrow> error" where
  "prompt_error redirectUri err =
     (let errorMessage =
            (case err of
               None \<Rightarrow> ''Unknown error''
             | Some a \<Rightarrow> if ae_message a \<noteq> [] then ae_message a
                         else if ae_code a \<noteq> [] then ae_code a else ''Unknown error'');
          errorDescription =
            (case err of
               None \<Rightarrow> []
             | Some a \<Rightarrow> (case ae_description a of None \<Rightarrow> [] | Some d \<Rightarrow> d))
      in if str_includes errorMessage ''redirect_uri'' \<or> str_includes errorDescription ''redirect_uri'' \<or>
            str_includes errorMessage ''redirect'' \<or> str_includes errorDescription ''redirect''
         then RedirectUriMismatch redirectUri errorMessage errorDescription
         else Error (''Authentication error: '' @ errorMessage @
                     (if errorDescription \<noteq> [] then '' - '' @ errorDescription else [])))"

text \<open>The body of the \<^verbatim>\<open>try\<close> block of \<^verbatim>\<open>authenticate()\<close>.\<close>

definition authenticate_body :: "env \<Rightarrow> service \<Rightarrow> (error + string) \<times> service" where
  "authenticate_body e s =
     (if clientId s = [] \<or> clientId s = ''YOUR_CLIENT_ID_HERE'' then
        (Inl (Error ''Client ID not configured. Please update config/sharepointConfig.ts with your Azure AD Client ID.''), s)
      else if tenantId s = [] \<or> tenantId s = ''YOUR_TENANT_ID_HERE'' then
        (Inl (Error ''Tenant ID not configured. Please update config/sharepointConfig.ts with your Azure AD Tenant ID.''), s)
      else
        let redirectUri = redirect_uri e;
            s1 = s\<lparr>sharePointRoot := before_first (siteUrl s) ''/sites/''\<rparr>;
            disc = \<lparr>authorizationEndpoint =
                      ''https://login.microsoftonline.com/'' @ tenantId s @ ''/oauth2/v2.0/authorize'',
                    tokenEndpoint =
                      ''https://login.microsoftonline.com/'' @ tenantId s @ ''/oauth2/v2.0/token''\<rparr>;
            request = \<lparr>ar_clientId = clientId s, ar_scopes = scopes,
                       ar_redirectUri = redirectUri, ar_usePKCE = True\<rparr>;
            s2 = s1\<lparr>trace := trace s1 @ [Prompt request disc]\<rparr>
        in (case promptAsync e (trace s1) request disc of
              Inl err \<Rightarrow> (Inl err, s2)
            | Inr (PromptSuccess code) \<Rightarrow>
                if \<not> truthy code then (Inl (Error ''Authorization code not received''), s2)
                else
                  let verifier = codeVerifier e request;
                      tokenExchangeConfig =
                        \<lparr>te_clientId = clientId s, te_redirectUri = redirectUri, te_code = code,
                         te_code_verifier = (if truthy verifier then Some verifier else None)\<rparr>;
                      s3 = s2\<lparr>trace := trace s2 @ [Exchange tokenExchangeConfig disc]\<rparr>
                  in (case exchangeCodeAsync e (trace s2) tokenExchangeConfig disc of
                        Inl err \<Rightarrow> (Inl err, s3)
                      | Inr token \<Rightarrow>
                          if token = [] then
                            (Inl (Error ''Access token not received from token exchange''), s3)
                          else
                            (Inr token,
                             s3\<lparr>accessToken := Some token, siteId := None, listIdCache := Map.empty\<rparr>))
            | Inr (PromptError err) \<Rightarrow> (Inl (prompt_error redirectUri err), s2)
            | Inr PromptCancel \<Rightarrow> (Inl (Error ''Authentication cancelled by user''), s2)
            | Inr (PromptOther t) \<Rightarrow> (Inl (Error (''Authentication failed: '' @ t)), s2)))"

text \<open>\<^verbatim>\<open>authenticate()\<close>\<close>

definition authenticate :: "env \<Rightarrow> service \<Rightarrow> (error + string) \<times> service" where
  "authenticate e s =
     (case authenticate_body e s of
        (Inl err, s') \<Rightarrow> (Inl (rethrow err), s')
      | (Inr token, s') \<Rightarrow> (Inr token, s'))"

section \<open>Mutations\<close>

text \<open>\<^verbatim>\<open>insertRecord(listName, fields)\<close>\<close>

definition insertRecord :: "env \<Rightarrow> string \<Rightarrow> obj \<Rightarrow> service \<Rightarrow> (error + json) \<times> service" where
  "insertRecord e listName flds s =
     (case getListId e listName s of
        (Inl err, s1) \<Rightarrow> (Inl err, s1)
      | (Inr listId, s1) \<Rightarrow>
          (case getSiteId e s1 of
             (Inl err, s2) \<Rightarrow> (Inl err, s2)
           | (Inr sid, s2) \<Rightarrow>
               (let itemData = JObj [(''fields'', JObj flds)]
                in case makeGraphRequest e (''sites/'' @ sid @ ''/lists/'' @ js_string listId @ ''/items'')
                          \<lparr>init_method = Some POST, init_body = Some itemData\<rparr> s2 of
                     (Inl err, s3) \<Rightarrow> (Inl err, s3)
                   | (Inr response, s3) \<Rightarrow>
                       (case get response ''fields'' of
                          Inl err \<Rightarrow> (Inl err, s3)
                        | Inr f \<Rightarrow>
                            (Inr (JObj [(''d'', JObj (set_field (entries response) ''fields''
                                                        (js_or f (JObj []))))]), s3)))))"

text \<open>\<^verbatim>\<open>updateRecord(listName, itemId, fields)\<close>\<close>

definition updateRecord ::
  "env \<Rightarrow> string \<Rightarrow> json \<Rightarrow> obj \<Rightarrow> service \<Rightarrow> (error + json) \<times> service" where
  "updateRecord e listName itemId flds s =
     (case getListId e listName s of
        (Inl err, s1) \<Rightarrow> (Inl err, s1)
      | (Inr listId, s1) \<Rightarrow>
          (case getSiteId e s1 of
             (Inl err, s2) \<Rightarrow> (Inl err, s2)
           | (Inr sid, s2) \<Rightarrow>
               makeGraphRequest e
                 (''sites/'' @ sid @ ''/lists/'' @ js_string listId @ ''/items/'' @ js_string itemId @ ''/fields'')
                 \<lparr>init_method = Some PATCH, init_body = Some (JObj flds)\<rparr> s2))"

text \<open>\<^verbatim>\<open>deleteRecord(listName, itemId)\<close>\<close>

definition deleteRecord :: "env \<Rightarrow> string \<Rightarrow> json \<Rightarrow> service \<Rightarrow> (error + unit) \<times> service" where
  "deleteRecord e listName itemId s =
     (case getListId e listName s of
        (Inl err, s1) \<Rightarrow> (Inl err, s1)
      | (Inr listId, s1) \<Rightarrow>
          (case getSiteId e s1 of
             (Inl err, s2) \<Rightarrow> (Inl err, s2)
           | (Inr sid, s2) \<Rightarrow>
               (case makeGraphRequest e
                       (''sites/'' @ sid @ ''/lists/'' @ js_string listId @ ''/items/'' @ js_string itemId)
                       \<lparr>init_method = Some DELETE, init_body = None\<rparr> s2 of
                  (Inl err, s3) \<Rightarrow> (Inl err, s3)
                | (Inr response, s3) \<Rightarrow> (Inr (), s3))))"

section \<open>Name extraction\<close>

text \<open>Running a callback over an array; the first error thrown ends the run.\<close>

fun traverse :: "('a \<Rightarrow> error + 'b) \<Rightarrow> 'a list \<Rightarrow> error + 'b list" where
  "traverse f [] = Inr []"
| "traverse f (x # xs) =
     (case f x of
        Inl err \<Rightarrow> Inl err
      | Inr y \<Rightarrow> (case traverse f xs of Inl err \<Rightarrow> Inl err | Inr ys \<Rightarrow> Inr (y # ys)))"

definition skipValues :: "string list" where
  "skipValues = [''Assigned'', ''Available'', ''Item'', ''ContentType'', ''Edit'', ''Attachments'']"

definition skipFieldNames :: "string list" where
  "skipFieldNames = [''cardstatus'', ''contenttype'', ''accesscardno'', ''assets'', ''empid'',
                     ''employeeid'', ''lookupid'', ''id'', ''odata'', ''author'', ''editor'']"

text \<open>The last test of the loop of \<^verbatim>\<open>extractEmployeeName\<close>: the value looks like a name.\<close>

definition looks_like_name :: "string \<Rightarrow> bool" where
  "looks_like_name v =
     ((matches_letters v \<and> 5 < length v) \<or>
      (str_includes v '' '' \<and> 8 < length v \<and> matches_letters_dots v))"

text \<open>
  The loop \<^verbatim>\<open>for (const [fieldName, fieldValue] of Object.entries(fields))\<close> of
  \<^verbatim>\<open>extractEmployeeName\<close>, with the value of \<^verbatim>\<open>empIdValue\<close>; \<open>JNull\<close> when it finds
  nothing.
\<close>

fun search_name :: "json \<Rightarrow> (string \<times> json) list \<Rightarrow> json" where
  "search_name empIdValue [] = JNull"
| "search_name empIdValue ((fieldName, fieldValue) # rest) =
     (case fieldValue of
        JStr v \<Rightarrow>
          (let fieldNameLower = toLowerCase fieldName
           in if trim v = [] then search_name empIdValue rest
              else if matches_HPH v \<or> JStr v = empIdValue then search_name empIdValue rest
              else if str_includes fieldNameLower ''empid'' \<or> str_includes fieldNameLower ''emp_id''
                then search_name empIdValue rest
              else if v \<in> set skipValues then search_name empIdValue rest
              else if list_ex (\<lambda>skip. str_includes fieldNameLower skip) skipFieldNames
                then search_name empIdValue rest
              else if matches_number v \<or> length v < 3 then search_name empIdValue rest
              else if matches_date v then search_name empIdValue rest
              else if looks_like_name v then JStr v
              else search_name empIdValue rest)
      | _ \<Rightarrow> search_name empIdValue rest)"

text \<open>\<^verbatim>\<open>extractEmployeeName(employeeItem)\<close>; \<open>JNull\<close> is the \<^verbatim>\<open>null\<close> it returns.\<close>

definition extractEmployeeName :: "json \<Rightarrow> error + json" where
  "extractEmployeeName employeeItem =
     (case get employeeItem ''fields'' of
        Inl err \<Rightarrow> Inl err
      | Inr f \<Rightarrow>
          (let flds = js_or f (JObj []);
               empIdValue = js_or (js_or (js_or (prop_of flds ''EmpID'') (prop_of flds ''EmpId''))
                                         (prop_of flds ''EmpID0'')) (prop_of flds ''field_1'');
               title = prop_of flds ''Title'';
               titleValue = js_string title;
               emp = prop_of flds ''Employee''
           in if truthy title \<and> \<not> matches_HPH titleValue \<and> JStr titleValue \<noteq> empIdValue \<and>
                 titleValue \<notin> set skipValues \<and> 0 < length (trim titleValue)
              then Inr (JStr titleValue)
              else if truthy emp \<and> is_object emp \<and> truthy (prop_of emp ''displayName'')
              then Inr (prop_of emp ''displayName'')
              else if truthy emp \<and>
                      (case emp of JStr x \<Rightarrow> \<not> matches_HPH x \<and> emp \<noteq> empIdValue | _ \<Rightarrow> False)
              then Inr emp
              else Inr (search_name empIdValue (entries flds))))"

section \<open>Employee references of access cards\<close>

text \<open>
  The callback of the branch for an already expanded \<^verbatim>\<open>Employee\<close> field. Calling \<^verbatim>\<open>match\<close> on
  a name that is not a string throws.
\<close>

definition expandEmployee :: "obj \<Rightarrow> error + obj" where
  "expandEmployee record =
     (let emp = field record ''Employee''
      in if truthy emp \<and> is_object emp then
           (let employeeName = js_or (js_or (js_or (prop_of emp ''displayName'') (prop_of emp ''LookupValue''))
                                            (prop_of emp ''Title'')) (prop_of emp ''email'')
            in if truthy employeeName then
                 (case employeeName of
                    JStr name \<Rightarrow>
                      if \<not> matches_HPH name
                      then Inr (set_field (set_field record ''Employee'' employeeName)
                                  ''EmployeeName'' employeeName)
                      else Inr record
                  | _ \<Rightarrow> Inl TypeError)
               else Inr record)
         else Inr record)"

text \<open>
  \<^verbatim>\<open>typeof v === 'string' ? parseInt(v, 10) : v\<close>, when the result is a number.
\<close>

definition lookup_number :: "json \<Rightarrow> int option" where
  "lookup_number v = (case v of JStr x \<Rightarrow> parseInt x | JNum n \<Rightarrow> Some n | _ \<Rightarrow> None)"

text \<open>
  The identifiers of employees. They are declared numbers (\<^verbatim>\<open>Set<number>\<close>,
  \<^verbatim>\<open>Map<number, string>\<close>), and the code takes every value that passes the test
  \<^verbatim>\<open>!isNaN(empId) && empId > 0\<close>: a number, \<^verbatim>\<open>true\<close>, or an array that converts to a
  number greater than zero. A set and a map tell an array from every other object by
  its identity; the records are the objects \<^verbatim>\<open>getRecords\<close> has just built from the
  response, which share nothing, so an array is identified by the position of the
  record that holds it.
\<close>

datatype lookup_key = NumberKey int | TrueKey | ArrayKey nat "json list"

text \<open>\<^verbatim>\<open>String(empId)\<close>, as the template literals print an identifier.\<close>

fun key_string :: "lookup_key \<Rightarrow> string" where
  "key_string (NumberKey n) = show_int n"
| "key_string TrueKey = ''true''"
| "key_string (ArrayKey k xs) = js_string (JArr xs)"

text \<open>
  \<^verbatim>\<open>cachedId === empId\<close> for the \<^verbatim>\<open>Id\<close> of a cached employee, where \<^verbatim>\<open>cachedId\<close> is
  \<^verbatim>\<open>typeof emp.Id === 'string' ? parseInt(emp.Id, 10) : emp.Id\<close>. The cached employees
  share no array with the records.
\<close>

fun same_key :: "json \<Rightarrow> lookup_key \<Rightarrow> bool" where
  "same_key v (NumberKey n) = (lookup_number v = Some n)"
| "same_key v TrueKey = (v = JBool True)"
| "same_key v (ArrayKey k xs) = False"

text \<open>The numbers in the identifier are safe integers, so that it is printed exactly.\<close>

fun safe_key :: "lookup_key \<Rightarrow> bool" where
  "safe_key (NumberKey n) = (\<bar>n\<bar> \<le> max_safe_integer)"
| "safe_key TrueKey = True"
| "safe_key (ArrayKey k xs) = safe_integers (JArr xs)"

text \<open>
  The identifier the record at position \<open>k\<close> refers to, when
  \<^verbatim>\<open>record.EmployeeLookupId != null\<close> and \<^verbatim>\<open>!isNaN(empId) && empId > 0\<close>.
\<close>

definition employeeId :: "nat \<Rightarrow> obj \<Rightarrow> lookup_key option" where
  "employeeId k record =
     (let v = field record ''EmployeeLookupId''
      in if not_nullish v then
           (case v of
              JStr x \<Rightarrow>
                (case parseInt x of
                   Some n \<Rightarrow> if 0 < n then Some (NumberKey n) else None
                 | None \<Rightarrow> None)
            | JNum n \<Rightarrow> if 0 < n then Some (NumberKey n) else None
            | JBool b \<Rightarrow> if b then Some TrueKey else None
            | JArr xs \<Rightarrow> if js_positive (JArr xs) then Some (ArrayKey k xs) else None
            | _ \<Rightarrow> None)
         else None)"

text \<open>The records with their positions.\<close>

definition indexed :: "'a list \<Rightarrow> (nat \<times> 'a) list" where
  "indexed xs = zip [0..<length xs] xs"

text \<open>\<^verbatim>\<open>employeeIdsToFetch\<close>: a set keeps its elements in the order they were added.\<close>

definition collectEmployeeIds :: "obj list \<Rightarrow> lookup_key list" where
  "collectEmployeeIds records =
     foldl (\<lambda>ids (k, record).
              (case employeeId k record of
                 Some empId \<Rightarrow> if empId \<in> set ids then ids else ids @ [empId]
               | None \<Rightarrow> ids)) [] (indexed records)"

text \<open>\<^verbatim>\<open>cachedEmployees.find(...)\<close> by identifier; \<open>JUndefined\<close> when none matches.\<close>

fun findCachedEmployee :: "json list \<Rightarrow> lookup_key \<Rightarrow> error + json" where
  "findCachedEmployee [] empId = Inr JUndefined"
| "findCachedEmployee (emp # emps) empId =
     (case get emp ''Id'' of
        Inl err \<Rightarrow> Inl err
      | Inr v \<Rightarrow> if same_key v empId then Inr emp else findCachedEmployee emps empId)"

text \<open>
  The loop over the cached employees: the identifiers to go through, the name cache and
  the identifiers still to fetch.
\<close>

fun useCachedEmployees ::
  "json list \<Rightarrow> lookup_key list \<Rightarrow> (lookup_key \<rightharpoonup> json) \<Rightarrow> lookup_key list \<Rightarrow>
     error + (lookup_key \<rightharpoonup> json) \<times> lookup_key list" where
  "useCachedEmployees cached [] cache remaining = Inr (cache, remaining)"
| "useCachedEmployees cached (empId # ids) cache remaining =
     (case findCachedEmployee cached empId of
        Inl err \<Rightarrow> Inl err
      | Inr cachedEmployee \<Rightarrow>
          if truthy cachedEmployee then
            (case extractEmployeeName (JObj [(''fields'', cachedEmployee)]) of
               Inl err \<Rightarrow> Inl err
             | Inr employeeName \<Rightarrow>
                 if truthy employeeName
                 then useCachedEmployees cached ids (cache(empId \<mapsto> employeeName))
                        (removeAll empId remaining)
                 else useCachedEmployees cached ids cache remaining)
          else useCachedEmployees cached ids cache remaining)"

text \<open>The callback that fills the record at position \<open>k\<close> from the name cache.\<close>

definition populateEmployee :: "(lookup_key \<rightharpoonup> json) \<Rightarrow> nat \<Rightarrow> obj \<Rightarrow> obj" where
  "populateEmployee cache k record =
     (case employeeId k record of
        None \<Rightarrow> record
      | Some empId \<Rightarrow>
          (let employeeName = (case cache empId of Some v \<Rightarrow> v | None \<Rightarrow> JUndefined)
           in if truthy employeeName
              then set_field (set_field record ''Employee'' employeeName) ''EmployeeName'' employeeName
              else set_field record ''Employee'' (JStr (''[ID: '' @ key_string empId @ '']''))))"

definition populateEmployees :: "(lookup_key \<rightharpoonup> json) \<Rightarrow> obj list \<Rightarrow> obj list" where
  "populateEmployees cache records = map (\<lambda>(k, record). populateEmployee cache k record) (indexed records)"

definition item_endpoint :: "string \<Rightarrow> json \<Rightarrow> lookup_key \<Rightarrow> string" where
  "item_endpoint sid listId empId =
     ''sites/'' @ sid @ ''/lists/'' @ js_string listId @ ''/items/'' @ key_string empId @ ''?$expand=fields''"

text \<open>
  The test on an item of the access cards list: the name its \<^verbatim>\<open>Employee\<close> field gives, if
  it has an \<^verbatim>\<open>AccessCardNo\<close> and gives one.
\<close>

definition accessCardEmployee :: "json \<Rightarrow> error + json option" where
  "accessCardEmployee employeeItem =
     (case get employeeItem ''fields'' of
        Inl err \<Rightarrow> Inl err
      | Inr f \<Rightarrow>
          if truthy (opt_chain f ''AccessCardNo'') \<and> truthy (opt_chain f ''Employee'') then
            (let empField = prop_of f ''Employee''
             in if is_object empField \<and> truthy (prop_of empField ''displayName'')
                then Inr (Some (prop_of empField ''displayName''))
                else (case empField of
                        JStr x \<Rightarrow> if \<not> matches_HPH x then Inr (Some empField) else Inr None
                      | _ \<Rightarrow> Inr None))
          else Inr None)"

text \<open>The end of the loop body: the name extracted from the item goes into the cache.\<close>

definition cacheExtracted ::
  "json \<Rightarrow> lookup_key \<Rightarrow> (lookup_key \<rightharpoonup> json) \<Rightarrow> (lookup_key \<rightharpoonup> json)" where
  "cacheExtracted employeeItem empId cache =
     (case extractEmployeeName employeeItem of
        Inl err \<Rightarrow> cache
      | Inr employeeName \<Rightarrow> if truthy employeeName then cache(empId \<mapsto> employeeName) else cache)"

text \<open>
  One round of the loop that fetches the remaining names: the employees list first, when
  it was found, then the access cards list. Every error is caught inside the round.
\<close>

definition fetchEmployeeName ::
  "env \<Rightarrow> string \<Rightarrow> json \<Rightarrow> lookup_key \<Rightarrow> (lookup_key \<rightharpoonup> json) \<Rightarrow> service \<Rightarrow>
     (lookup_key \<rightharpoonup> json) \<times> service" where
  "fetchEmployeeName e sid employeesListId empId cache s =
     (case (if truthy employeesListId then
              (case makeGraphRequest e (item_endpoint sid employeesListId empId) no_options s of
                 (Inl err, s') \<Rightarrow> (JNull, s')
               | (Inr item, s') \<Rightarrow> (item, s'))
            else (JNull, s)) of
        (employeeItem, s1) \<Rightarrow>
          if \<not> truthy employeeItem then
            (case getListId e ''Access Cards'' s1 of
               (Inl err, s2) \<Rightarrow> (cache, s2)
             | (Inr accessCardsListId, s2) \<Rightarrow>
                 (case makeGraphRequest e (item_endpoint sid accessCardsListId empId) no_options s2 of
                    (Inl err, s3) \<Rightarrow> (cache, s3)
                  | (Inr item, s3) \<Rightarrow>
                      (case accessCardEmployee item of
                         Inl err \<Rightarrow> (cache, s3)
                       | Inr (Some name) \<Rightarrow> (cache(empId \<mapsto> name), s3)
                       | Inr None \<Rightarrow> (cacheExtracted item empId cache, s3))))
          else (cacheExtracted employeeItem empId cache, s1))"

fun fetchEmployeeNames ::
  "env \<Rightarrow> string \<Rightarrow> json \<Rightarrow> lookup_key list \<Rightarrow> (lookup_key \<rightharpoonup> json) \<Rightarrow> service \<Rightarrow>
     (lookup_key \<rightharpoonup> json) \<times> service" where
  "fetchEmployeeNames e sid employeesListId [] cache s = (cache, s)"
| "fetchEmployeeNames e sid employeesListId (empId # ids) cache s =
     (case fetchEmployeeName e sid employeesListId empId cache s of
        (cache', s') \<Rightarrow> fetchEmployeeNames e sid employeesListId ids cache' s')"

text \<open>
  \<^verbatim>\<open>resolveEmployeeNames(records, siteId, cachedEmployees)\<close>. The records are the objects
  \<^verbatim>\<open>getRecords\<close> has just built; the method changes them in place, the model returns
  them. Reading \<^verbatim>\<open>records[0].Employee\<close> of an empty array throws.
\<close>

definition resolveEmployeeNames ::
  "env \<Rightarrow> obj list \<Rightarrow> string \<Rightarrow> json list option \<Rightarrow> service \<Rightarrow> (error + obj list) \<times> service" where
  "resolveEmployeeNames e records sid cachedEmployees s =
     (case records of
        [] \<Rightarrow> (Inl TypeError, s)
      | firstRecord # others \<Rightarrow>
          if truthy (field firstRecord ''Employee'') \<and> is_object (field firstRecord ''Employee'')
          then (traverse expandEmployee records, s)
          else
            (let employeeIdsToFetch = collectEmployeeIds records
             in if length employeeIdsToFetch = 0 then (Inr records, s)
                else
                  (case (case cachedEmployees of
                           Some cached \<Rightarrow>
                             if 0 < length cached
                             then useCachedEmployees cached employeeIdsToFetch Map.empty employeeIdsToFetch
                             else Inr (Map.empty, employeeIdsToFetch)
                         | None \<Rightarrow> Inr (Map.empty, employeeIdsToFetch)) of
                     Inl err \<Rightarrow> (Inl err, s)
                   | Inr (cache, remaining) \<Rightarrow>
                       if length remaining = 0 then (Inr (populateEmployees cache records), s)
                       else
                         (case (case getListId e ''Employees'' s of
                                  (Inl err, s') \<Rightarrow> (JNull, s')
                                | (Inr i, s') \<Rightarrow> (i, s')) of
                            (employeesListId, s1) \<Rightarrow>
                              (case fetchEmployeeNames e sid employeesListId remaining cache s1 of
                                 (cache', s2) \<Rightarrow> (Inr (populateEmployees cache' records), s2))))))"

section \<open>Assignee references of assets\<close>

text \<open>\<^verbatim>\<open>userIdsToFetch\<close>: the identifiers as strings, in the order they were added.\<close>

definition collectUserIds :: "obj list \<Rightarrow> string list" where
  "collectUserIds records =
     foldl (\<lambda>ids record.
              (let v = field record ''field_2LookupId''
               in if not_nullish v
                  then (if js_string v \<in> set ids then ids else ids @ [js_string v])
                  else ids)) [] records"

text \<open>
  The first step of a round: the record found by \<^verbatim>\<open>r.field_2LookupId === userId\<close> (a strict
  comparison with the string) and the name its expanded \<^verbatim>\<open>field_2\<close> gives, if any.
\<close>

definition inlineUserName :: "obj list \<Rightarrow> string \<Rightarrow> json" where
  "inlineUserName records userId =
     (let f2 = (case find (\<lambda>r. field r ''field_2LookupId'' = JStr userId) records of
                  Some recordWithField2 \<Rightarrow> field recordWithField2 ''field_2''
                | None \<Rightarrow> JUndefined)
      in if truthy f2 \<and> is_object f2
         then js_or (js_or (prop_of f2 ''displayName'') (prop_of f2 ''Title''))
                (prop_of f2 ''userPrincipalName'')
         else JUndefined)"

text \<open>The second step: the cached employee with this identifier and the name it gives.\<close>

definition cachedUserName :: "json list option \<Rightarrow> string \<Rightarrow> error + json" where
  "cachedUserName cachedEmployees userId =
     (case cachedEmployees of
        None \<Rightarrow> Inr JUndefined
      | Some cached \<Rightarrow>
          if 0 < length cached then
            (case parseInt userId of
               None \<Rightarrow> Inr JUndefined
             | Some n \<Rightarrow>
                 if 0 < n then
                   (case findCachedEmployee cached (NumberKey n) of
                      Inl err \<Rightarrow> Inl err
                    | Inr cachedEmployee \<Rightarrow>
                        if truthy cachedEmployee
                        then Inr (js_or (js_or (js_or (prop_of cachedEmployee ''Employee'')
                                                      (prop_of cachedEmployee ''EmployeeName''))
                                               (prop_of cachedEmployee ''Title''))
                                        (prop_of cachedEmployee ''displayName''))
                        else Inr JUndefined)
                 else Inr JUndefined)
          else Inr JUndefined)"

text \<open>The third step: the user of the directory, asked for only with a GUID.\<close>

definition fetchUserName ::
  "env \<Rightarrow> string \<Rightarrow> (string \<rightharpoonup> json) \<Rightarrow> service \<Rightarrow> (string \<rightharpoonup> json) \<times> service" where
  "fetchUserName e userId cache s =
     (if isGuidFormat userId then
        (case makeGraphRequest e (''users/'' @ userId) no_options s of
           (Inl err, s1) \<Rightarrow> (cache, s1)
         | (Inr userInfo, s1) \<Rightarrow>
             (case get userInfo ''displayName'' of
                Inl err \<Rightarrow> (cache, s1)
              | Inr d \<Rightarrow>
                  (let userName = js_or (js_or d (prop_of userInfo ''userPrincipalName''))
                                        (prop_of userInfo ''mail'')
                   in if truthy userName then (cache(userId \<mapsto> userName), s1) else (cache, s1))))
      else (cache, s))"

text \<open>One round of the loop over the identifiers. Every error is caught inside the round.\<close>

definition resolveUserName ::
  "env \<Rightarrow> obj list \<Rightarrow> json list option \<Rightarrow> string \<Rightarrow> (string \<rightharpoonup> json) \<Rightarrow> service \<Rightarrow>
     (string \<rightharpoonup> json) \<times> service" where
  "resolveUserName e records cachedEmployees userId cache s =
     (if truthy (inlineUserName records userId)
      then (cache(userId \<mapsto> inlineUserName records userId), s)
      else
        (case cachedUserName cachedEmployees userId of
           Inl err \<Rightarrow> (cache, s)
         | Inr employeeName \<Rightarrow>
             if truthy employeeName then (cache(userId \<mapsto> employeeName), s)
             else fetchUserName e userId cache s))"

fun resolveUserNames ::
  "env \<Rightarrow> obj list \<Rightarrow> json list option \<Rightarrow> string list \<Rightarrow> (string \<rightharpoonup> json) \<Rightarrow> service \<Rightarrow>
     (string \<rightharpoonup> json) \<times> service" where
  "resolveUserNames e records cachedEmployees [] cache s = (cache, s)"
| "resolveUserNames e records cachedEmployees (userId # ids) cache s =
     (case resolveUserName e records cachedEmployees userId cache s of
        (cache', s') \<Rightarrow> resolveUserNames e records cachedEmployees ids cache' s')"

text \<open>The callback that fills a record from its own expanded field or from the name cache.\<close>

definition populateAssignee :: "(string \<rightharpoonup> json) \<Rightarrow> obj \<Rightarrow> obj" where
  "populateAssignee cache record =
     (let v = field record ''field_2LookupId''
      in if not_nullish v then
           (let userId = js_string v;
                f2 = field record ''field_2'';
                inlineName =
                  (if truthy f2 \<and> is_object f2
                   then js_or (js_or (js_or (prop_of f2 ''displayName'') (prop_of f2 ''Title''))
                                     (prop_of f2 ''userPrincipalName'')) (prop_of f2 ''email'')
                   else JUndefined);
                userName = (case cache userId of Some n \<Rightarrow> n | None \<Rightarrow> JUndefined)
            in if truthy inlineName
               then set_field (set_field record ''Assignee'' inlineName) ''AssigneeName'' inlineName
               else if truthy userName
               then set_field (set_field record ''Assignee'' userName) ''AssigneeName'' userName
               else set_field record ''Assignee'' (JStr (''[ID: '' @ userId @ '']'')))
         else record)"

text \<open>\<^verbatim>\<open>resolveAssigneeNames(records, cachedEmployees)\<close>\<close>

definition resolveAssigneeNames ::
  "env \<Rightarrow> obj list \<Rightarrow> json list option \<Rightarrow> service \<Rightarrow> obj list \<times> service" where
  "resolveAssigneeNames e records cachedEmployees s =
     (let userIdsToFetch = collectUserIds records
      in if length userIdsToFetch = 0 then (records, s)
         else
           (case resolveUserNames e records cachedEmployees userIdsToFetch Map.empty s of
              (cache, s') \<Rightarrow> (map (populateAssignee cache) records, s')))"

section \<open>Fetching records\<close>

text \<open>
  The callback of \<^verbatim>\<open>items.map\<close>: \<^verbatim>\<open>{ Id: item.id, ...fields }\<close>. The properties of the
  fields are added one by one after \<^verbatim>\<open>Id\<close>, so a key that is an array index ends up before
  \<^verbatim>\<open>Id\<close> and a field named \<^verbatim>\<open>Id\<close> replaces its value.
\<close>

definition item_record :: "json \<Rightarrow> error + obj" where
  "item_record item =
     (case get item ''fields'' of
        Inl err \<Rightarrow> Inl err
      | Inr f \<Rightarrow>
          Inr (foldl (\<lambda>record (k, v). set_field record k v) [(''Id'', prop_of item ''id'')]
                 (entries (js_or f (JObj [])))))"

text \<open>\<^verbatim>\<open>getRecords(listName, cachedEmployees)\<close>\<close>

definition getRecords ::
  "env \<Rightarrow> string \<Rightarrow> json list option \<Rightarrow> service \<Rightarrow> (error + obj list) \<times> service" where
  "getRecords e listName cachedEmployees s =
     (case getListId e listName s of
        (Inl err, s1) \<Rightarrow> (Inl err, s1)
      | (Inr listId, s1) \<Rightarrow>
          (case getSiteId e s1 of
             (Inl err, s2) \<Rightarrow> (Inl err, s2)
           | (Inr sid, s2) \<Rightarrow>
               (case makeGraphRequest e
                       (''sites/'' @ sid @ ''/lists/'' @ js_string listId @ ''/items?$expand=fields'')
                       no_options s2 of
                  (Inl err, s3) \<Rightarrow> (Inl err, s3)
                | (Inr response, s3) \<Rightarrow>
                    (case get response ''value'' of
                       Inl err \<Rightarrow> (Inl err, s3)
                     | Inr v \<Rightarrow>
                         (case js_or v (JArr []) of
                            JArr items \<Rightarrow>
                              (case traverse item_record items of
                                 Inl err \<Rightarrow> (Inl err, s3)
                               | Inr records \<Rightarrow>
                                   (case (if listName = ''Access Cards'' \<and> 0 < length records
                                          then resolveEmployeeNames e records sid cachedEmployees s3
                                          else (Inr records, s3)) of
                                      (Inl err, s4) \<Rightarrow> (Inl err, s4)
                                    | (Inr records', s4) \<Rightarrow>
                                        if listName = ''Assets'' \<and> 0 < length records'
                                        then (case resolveAssigneeNames e records' cachedEmployees s4 of
                                                (records'', s5) \<Rightarrow> (Inr records'', s5))
                                        else (Inr records', s4)))
                          | _ \<Rightarrow> (Inl TypeError, s3))))))"

section \<open>The users of the organization\<close>

text \<open>The callback of \<^verbatim>\<open>response.value.map\<close> in \<^verbatim>\<open>getAllUsers\<close>.\<close>

definition user_view :: "json \<Rightarrow> error + json" where
  "user_view user =
     (case get user ''id'' of
        Inl err \<Rightarrow> Inl err
      | Inr i \<Rightarrow>
          Inr (JObj [(''id'', i),
                     (''displayName'', js_or (prop_of user ''displayName'') (JStr [])),
                     (''userPrincipalName'', js_or (prop_of user ''userPrincipalName'') (JStr [])),
                     (''mail'', js_or (js_or (prop_of user ''mail'') (prop_of user ''userPrincipalName''))
                                  (JStr [])),
                     (''jobTitle'', prop_of user ''jobTitle''),
                     (''officeLocation'', prop_of user ''officeLocation''),
                     (''department'', prop_of user ''department'')]))"

text \<open>
  The users a page adds: \<^verbatim>\<open>response.value && response.value.length > 0\<close>, then \<^verbatim>\<open>map\<close>. A
  non-empty string has a length and no \<^verbatim>\<open>map\<close>, which throws, and so does an object whose
  \<^verbatim>\<open>length\<close> property compares greater than zero. Numbers and booleans have no length.
\<close>

definition page_users :: "json \<Rightarrow> error + json list" where
  "page_users response =
     (case get response ''value'' of
        Inl err \<Rightarrow> Inl err
      | Inr v \<Rightarrow>
          (case v of
             JArr us \<Rightarrow> if 0 < length us then traverse user_view us else Inr []
           | JStr x \<Rightarrow> if 0 < length x then Inl TypeError else Inr []
           | JObj kvs \<Rightarrow> if js_positive (field kvs ''length'') then Inl TypeError else Inr []
           | _ \<Rightarrow> Inr []))"

definition maxPages :: nat where
  "maxPages = 50"

definition users_endpoint :: string where
  "users_endpoint =
     ''users?$select=id,displayName,userPrincipalName,mail,jobTitle,officeLocation,department&$top=999''"

text \<open>
  The \<^verbatim>\<open>do ... while (nextLink)\<close> loop of \<^verbatim>\<open>getAllUsers\<close>, entered with the current
  \<^verbatim>\<open>nextLink\<close>, \<^verbatim>\<open>pageCount\<close> and \<^verbatim>\<open>allUsers\<close>. Calling \<^verbatim>\<open>replace\<close> on a link that is not a
  string throws.
\<close>

function users_loop ::
  "env \<Rightarrow> json \<Rightarrow> nat \<Rightarrow> json list \<Rightarrow> service \<Rightarrow> (error + json list) \<times> service" where
  "users_loop e nextLink pageCount allUsers s =
     (case (if truthy nextLink
            then (case nextLink of
                    JStr l \<Rightarrow> Inr (replace l ''https://graph.microsoft.com/v1.0/'' [])
                  | _ \<Rightarrow> Inl TypeError)
            else Inr users_endpoint) of
        Inl err \<Rightarrow> (Inl err, s)
      | Inr endpoint \<Rightarrow>
          (case makeGraphRequest e endpoint no_options s of
             (Inl err, s1) \<Rightarrow> (Inl err, s1)
           | (Inr response, s1) \<Rightarrow>
               (case page_users response of
                  Inl err \<Rightarrow> (Inl err, s1)
                | Inr users \<Rightarrow>
                    (let nextLink' = js_or (prop_of response ''@odata.nextLink'') JNull
                     in if maxPages \<le> pageCount + 1 then (Inr (allUsers @ users), s1)
                        else if truthy nextLink'
                        then users_loop e nextLink' (pageCount + 1) (allUsers @ users) s1
                        else (Inr (allUsers @ users), s1)))))"
  by pat_completeness auto
termination
  by (relation "measure (\<lambda>(e, nextLink, pageCount, allUsers, s). maxPages - pageCount)") auto

declare users_loop.simps [simp del]

text \<open>\<^verbatim>\<open>getAllUsers()\<close>: whatever is thrown, the \<^verbatim>\<open>catch\<close> block returns the empty array.\<close>

definition getAllUsers :: "env \<Rightarrow> service \<Rightarrow> json list \<times> service" where
  "getAllUsers e s =
     (case users_loop e JNull 0 [] s of
        (Inl err, s') \<Rightarrow> ([], s')
      | (Inr allUsers, s') \<Rightarrow> (allUsers, s'))"

section \<open>The current user and the administrators\<close>

text \<open>\<^verbatim>\<open>getCurrentUser()\<close>\<close>

definition getCurrentUser :: "env \<Rightarrow> service \<Rightarrow> (error + json) \<times> service" where
  "getCurrentUser e s =
     (case makeGraphRequest e ''me'' no_options s of
        (Inl err, s1) \<Rightarrow> (Inl err, s1)
      | (Inr response, s1) \<Rightarrow>
          (case get response ''id'' of
             Inl err \<Rightarrow> (Inl err, s1)
           | Inr i \<Rightarrow>
               (Inr (JObj [(''id'', i),
                           (''displayName'', prop_of response ''displayName''),
                           (''userPrincipalName'', prop_of response ''userPrincipalName''),
                           (''mail'', js_or (prop_of response ''mail'') (prop_of response ''userPrincipalName'')),
                           (''jobTitle'', prop_of response ''jobTitle''),
                           (''officeLocation'', prop_of response ''officeLocation'')]), s1)))"

text \<open>
  The values \<^verbatim>\<open>for (const x of v)\<close> runs over: the elements of an array, the characters of
  a string; any other value is not iterable, which throws.
\<close>

fun iterate :: "json \<Rightarrow> error + json list" where
  "iterate (JArr xs) = Inr xs"
| "iterate (JStr x) = Inr (map (\<lambda>c. JStr [c]) x)"
| "iterate v = Inl TypeError"

definition adminRoleTemplateIds :: "string list" where
  "adminRoleTemplateIds =
     [''62e90394-69f5-4237-9190-012177145e10'',
      ''f28a1f50-f6e7-4571-818b-6a12f2af6b6c'',
      ''b0f54661-2d74-4c50-afa3-1ec803f12efe'',
      ''29232cdf-9323-42fd-ade2-1d097af3e4de'']"

text \<open>The body of the loop over the groups: the name of the role it pushes, if any.\<close>

definition admin_role :: "json \<Rightarrow> error + json option" where
  "admin_role grp =
     (case get grp ''@odata.type'' of
        Inl err \<Rightarrow> Inl err
      | Inr t \<Rightarrow>
          if t = JStr ''#microsoft.graph.directoryRole'' \<and>
             prop_of grp ''roleTemplateId'' \<in> set (map JStr adminRoleTemplateIds)
          then Inr (Some (js_or (prop_of grp ''displayName'') (JStr ''Unknown Role'')))
          else Inr None)"

definition pushed :: "'a option list \<Rightarrow> 'a list" where
  "pushed found = concat (map (\<lambda>x. case x of None \<Rightarrow> [] | Some y \<Rightarrow> [y]) found)"

text \<open>
  \<^verbatim>\<open>isCurrentUserAdmin()\<close>, with the result \<^verbatim>\<open>{isAdmin, roles}\<close> as a pair: whatever is
  thrown, the \<^verbatim>\<open>catch\<close> block returns \<^verbatim>\<open>{isAdmin: false, roles: []}\<close>.
\<close>

definition isCurrentUserAdmin :: "env \<Rightarrow> service \<Rightarrow> (bool \<times> json list) \<times> service" where
  "isCurrentUserAdmin e s =
     (case makeGraphRequest e ''me/memberOf'' no_options s of
        (Inl err, s1) \<Rightarrow> ((False, []), s1)
      | (Inr response, s1) \<Rightarrow>
          (case get response ''value'' of
             Inl err \<Rightarrow> ((False, []), s1)
           | Inr v \<Rightarrow>
               (case iterate (js_or v (JArr [])) of
                  Inl err \<Rightarrow> ((False, []), s1)
                | Inr groups \<Rightarrow>
                    (case traverse admin_role groups of
                       Inl err \<Rightarrow> ((False, []), s1)
                     | Inr found \<Rightarrow> ((pushed found \<noteq> [], pushed found), s1)))))"

text \<open>The \<^verbatim>\<open>find\<close> of \<^verbatim>\<open>getAdminUsers\<close>; \<open>JUndefined\<close> when no role matches.\<close>

fun find_role :: "json list \<Rightarrow> error + json" where
  "find_role [] = Inr JUndefined"
| "find_role (role # roles) =
     (case get role ''roleTemplateId'' of
        Inl err \<Rightarrow> Inl err
      | Inr t \<Rightarrow> if t = JStr ''62e90394-69f5-4237-9190-012177145e10'' then Inr role else find_role roles)"

text \<open>The body of the loop over the members: the administrator it pushes, if any.\<close>

definition admin_view :: "json \<Rightarrow> error + json option" where
  "admin_view member =
     (case get member ''@odata.type'' of
        Inl err \<Rightarrow> Inl err
      | Inr t \<Rightarrow>
          if t = JStr ''#microsoft.graph.user''
          then Inr (Some (JObj [(''id'', prop_of member ''id''),
                                (''displayName'', prop_of member ''displayName''),
                                (''userPrincipalName'', prop_of member ''userPrincipalName''),
                                (''mail'', js_or (prop_of member ''mail'') (prop_of member ''userPrincipalName'')),
                                (''roles'', JArr [JStr ''Global Administrator''])]))
          else Inr None)"

text \<open>
  \<^verbatim>\<open>getAdminUsers()\<close>: \<^verbatim>\<open>rolesResponse.value?.find\<close> throws on a value without \<^verbatim>\<open>find\<close>;
  whatever is thrown, both branches of the \<^verbatim>\<open>catch\<close> block return the empty array.
\<close>

definition getAdminUsers :: "env \<Rightarrow> service \<Rightarrow> json list \<times> service" where
  "getAdminUsers e s =
     (case makeGraphRequest e ''directoryRoles'' no_options s of
        (Inl err, s1) \<Rightarrow> ([], s1)
      | (Inr rolesResponse, s1) \<Rightarrow>
          (case get rolesResponse ''value'' of
             Inl err \<Rightarrow> ([], s1)
           | Inr v \<Rightarrow>
               (case (if not_nullish v
                      then (case v of JArr roles \<Rightarrow> find_role roles | _ \<Rightarrow> Inl TypeError)
                      else Inr JUndefined) of
                  Inl err \<Rightarrow> ([], s1)
                | Inr globalAdminRole \<Rightarrow>
                    if \<not> truthy globalAdminRole then ([], s1)
                    else
                      (case makeGraphRequest e
                              (''directoryRoles/'' @ js_string (prop_of globalAdminRole ''id'') @ ''/members'')
                              no_options s1 of
                         (Inl err, s2) \<Rightarrow> ([], s2)
                       | (Inr membersResponse, s2) \<Rightarrow>
                           (case get membersResponse ''value'' of
                              Inl err \<Rightarrow> ([], s2)
                            | Inr mv \<Rightarrow>
                                (case iterate (js_or mv (JArr [])) of
                                   Inl err \<Rightarrow> ([], s2)
                                 | Inr members \<Rightarrow>
                                     (case traverse admin_view members of
                                        Inl err \<Rightarrow> ([], s2)
                                      | Inr found \<Rightarrow> (pushed found, s2))))))))"

text \<open>
  \<^verbatim>\<open>getCurrentUserWithAdminStatus()\<close>: \<^verbatim>\<open>Promise.all\<close> over the two calls, which are
  started in this order, each sending its request before any answer arrives. The second
  call never throws, so the result fails exactly when \<^verbatim>\<open>getCurrentUser\<close> does.
\<close>

definition getCurrentUserWithAdminStatus :: "env \<Rightarrow> service \<Rightarrow> (error + json) \<times> service" where
  "getCurrentUserWithAdminStatus e s =
     (case getCurrentUser e s of
        (user, s1) \<Rightarrow>
          (case isCurrentUserAdmin e s1 of
             ((isAdmin, roles), s2) \<Rightarrow>
               (case user of
                  Inl err \<Rightarrow> (Inl err, s2)
                | Inr u \<Rightarrow>
                    (Inr (JObj [(''user'', u), (''isAdmin'', JBool isAdmin), (''roles'', JArr roles)]), s2))))"

section \<open>A sample site\<close>

definition sample_listing :: json where
  "sample_listing =
     JObj [(''value'', JArr
       [JObj [(''id'', JStr ''list-emp''), (''name'', JStr ''Employees''), (''displayName'', JStr ''Employees'')],
        JObj [(''id'', JStr ''list-assets''), (''name'', JStr ''field_assets''), (''displayName'', JStr ''Assets'')],
        JObj [(''id'', JStr ''list-cards''), (''name'', JStr ''Access Cards''), (''displayName'', JStr ''Cards'')]])]"

definition sample_remote :: "request \<Rightarrow> response" where
  "sample_remote r =
     (if req_url r = ''https://graph.microsoft.com/v1.0/sites/contoso.sharepoint.com:/sites/assets''
      then HttpSuccess (JObj [(''id'', JStr ''site-1'')])
      else if req_url r = ''https://graph.microsoft.com/v1.0/sites/site-1/lists''
      then HttpSuccess sample_listing
      else HttpFailure 404 ''Not Found'')"

text \<open>The same site, which also accepts the update of one item of the list of assets.\<close>

definition sample_remote_update :: "request \<Rightarrow> response" where
  "sample_remote_update r =
     (if req_url r = ''https://graph.microsoft.com/v1.0/sites/site-1/lists/list-assets/items/7/fields''
      then HttpSuccess (JObj [(''Status'', JStr ''Active'')])
      else sample_remote r)"

definition sample_env :: "(event list \<Rightarrow> request \<Rightarrow> response) \<Rightarrow> env" where
  "sample_env remote =
     \<lparr>fetch = remote,
      parseURL = (\<lambda>u. if u = ''https://contoso.sharepoint.com/sites/assets''
                       then Some (''contoso.sharepoint.com'', ''/sites/assets'') else None),
      encodeURIComponent = (\<lambda>x. x),
      makeRedirectUri = (\<lambda>opts. ''exp://192.168.9.142:8081/--/auth''),
      promptAsync = (\<lambda>h r d. Inr PromptCancel),
      codeVerifier = (\<lambda>r. JUndefined),
      exchangeCodeAsync = (\<lambda>h c d. Inl (Error ''invalid_grant''))\<rparr>"

definition sample_service :: service where
  "sample_service =
     \<lparr>siteUrl = ''https://contoso.sharepoint.com/sites/assets'',
      clientId = ''6ef7838b-3f91-427b-ae49-d17213d254fd'',
      tenantId = ''ca45db7d-14c1-4213-a3b0-ef6c5d1ac0bc'',
      accessToken = Some ''token'',
      sharePointRoot = ''https://contoso.sharepoint.com'',
      siteId = None,
      listIdCache = Map.empty,
      trace = []\<rparr>"

text \<open>
  A simulated listing of the users of the organization: the first request gets the first
  page; a page that is not the last one carries a continuation link, and the link of
  page \<open>i\<close> is answered with page \<open>i\<close>.
\<close>

definition page_endpoint :: "nat \<Rightarrow> string" where
  "page_endpoint i = (if i = 0 then users_endpoint else ''users?$skiptoken='' @ replicate i CHR ''p'')"

definition page_index :: "string \<Rightarrow> nat option" where
  "page_index u =
     (if u = ''https://graph.microsoft.com/v1.0/'' @ users_endpoint then Some 0
      else if startsWith u ''https://graph.microsoft.com/v1.0/users?$skiptoken=''
      then Some (length u - length ''https://graph.microsoft.com/v1.0/users?$skiptoken='')
      else None)"

definition paged_remote :: "json list list \<Rightarrow> request \<Rightarrow> response" where
  "paged_remote pages r =
     (case page_index (req_url r) of
        None \<Rightarrow> HttpFailure 404 ''Not Found''
      | Some i \<Rightarrow>
          if i < length pages then
            HttpSuccess (JObj ((''value'', JArr (pages ! i)) #
                               (if Suc i < length pages
                                then [(''@odata.nextLink'',
                                       JStr (''https://graph.microsoft.com/v1.0/'' @ page_endpoint (Suc i)))]
                                else [])))
          else HttpFailure 404 ''Not Found'')"

definition sample_user :: json where
  "sample_user = JObj [(''id'', JStr ''u-1''), (''displayName'', JStr ''Jane Doe''),
                       (''userPrincipalName'', JStr ''jane@contoso.com'')]"

section \<open>Auxiliary notions\<close>

text \<open>What a cache miss of \<^verbatim>\<open>getListId\<close> does after the site is resolved.\<close>

definition listing_step :: "env \<Rightarrow> string \<Rightarrow> string \<Rightarrow> service \<Rightarrow> json \<Rightarrow> service \<Rightarrow> bool" where
  "listing_step e n sid s0 i s1 \<longleftrightarrow>
     (\<exists>listsData v available l.
        makeGraphRequest e (''sites/'' @ sid @ ''/lists'') no_options s0 =
          (Inr listsData, s0\<lparr>trace := trace s0 @ [Fetch (graph_request (the (accessToken s0)) (''sites/'' @ sid @ ''/lists'') no_options)]\<rparr>) \<and>
        get listsData ''value'' = Inr v \<and> js_or v (JArr []) = JArr available \<and>
        find_list available n = Inr l \<and> truthy l \<and> i = prop_of l ''id'' \<and>
        s1 = s0\<lparr>trace := trace s0 @ [Fetch (graph_request (the (accessToken s0)) (''sites/'' @ sid @ ''/lists'') no_options)],
                 listIdCache := (listIdCache s0)(n \<mapsto> i)\<rparr>)"


text \<open>An event that is a request without method and body, as the lookups send.\<close>

definition plain_get :: "event \<Rightarrow> bool" where
  "plain_get ev = (case ev of Fetch r \<Rightarrow> req_method r = None \<and> req_body r = None | _ \<Rightarrow> False)"

text \<open>The value of \<^verbatim>\<open>nextLink\<close> when the loop asks for page \<open>i\<close> of the simulated listing.\<close>

definition link_of :: "nat \<Rightarrow> json" where
  "link_of i = (if i = 0 then JNull else JStr (''https://graph.microsoft.com/v1.0/'' @ page_endpoint i))"

text \<open>The name the expanded \<^verbatim>\<open>field_2\<close> of a record gives when the records are filled.\<close>

definition inlineAssignee :: "obj \<Rightarrow> json" where
  "inlineAssignee r =
     (let f2 = field r ''field_2''
      in if truthy f2 \<and> is_object f2
         then js_or (js_or (js_or (prop_of f2 ''displayName'') (prop_of f2 ''Title''))
                           (prop_of f2 ''userPrincipalName'')) (prop_of f2 ''email'')
         else JUndefined)"

text \<open>The error of a request made without a token.\<close>

definition not_authenticated :: error where
  "not_authenticated = Error ''Not authenticated. Call authenticate() first.''"

section \<open>Properties of the requests and of list resolution\<close>

lemma makeGraphRequest_cases:
  "makeGraphRequest e ep opts s = (r, s') \<Longrightarrow>
     (s' = s \<and> r = Inl (Error ''Not authenticated. Call authenticate() first.'') \<and>
        (accessToken s = None \<or> accessToken s = Some [])) \<or>
     (\<exists>token. accessToken s = Some token \<and> token \<noteq> [] \<and>
        s' = s\<lparr>trace := trace s @ [Fetch (graph_request token ep opts)]\<rparr>)"
  by (auto simp: makeGraphRequest_def Let_def split: option.splits if_splits response.splits)

lemma makeGraphRequest_ok:
  "makeGraphRequest e ep opts s = (Inr v, s') \<Longrightarrow>
     s' = s\<lparr>trace := trace s @ [Fetch (graph_request (the (accessToken s)) ep opts)]\<rparr>"
  by (auto dest!: makeGraphRequest_cases)

lemma makeGraphRequest_frame:
  "makeGraphRequest e ep opts s = (r, s') \<Longrightarrow>
     listIdCache s' = listIdCache s \<and> siteId s' = siteId s \<and> accessToken s' = accessToken s"
  by (auto dest!: makeGraphRequest_cases)

lemma getSiteId_frame:
  "getSiteId e s = (r, s') \<Longrightarrow> listIdCache s' = listIdCache s \<and> accessToken s' = accessToken s"
  by (auto simp: getSiteId_def Let_def split: option.splits if_splits prod.splits sum.splits
           dest!: makeGraphRequest_frame)

lemma getSiteId_ok:
  "getSiteId e s = (Inr sid, s') \<Longrightarrow> siteId s' = Some sid"
  by (auto simp: getSiteId_def Let_def split: option.splits if_splits prod.splits sum.splits
           dest!: makeGraphRequest_frame)

lemma getListId_hit: "listIdCache s n = Some i \<Longrightarrow> getListId e n s = (Inr i, s)"
  by (simp add: getListId_def)

lemma getListId_ok_cached:
  "getListId e n s = (Inr i, s1) \<Longrightarrow> listIdCache s1 n = Some i"
  by (auto simp: getListId_def Let_def split: option.splits if_splits prod.splits sum.splits json.splits)

lemma getListId_miss_ok:
  assumes miss: "listIdCache s n = None" and ok: "getListId e n s = (Inr i, s1)"
  shows "\<exists>sid s0. getSiteId e s = (Inr sid, s0) \<and> listing_step e n sid s0 i s1"
proof -
  obtain r0 s0 where g: "getSiteId e s = (r0, s0)" by (cases "getSiteId e s")
  with miss ok obtain sid where r0: "r0 = Inr sid"
    by (cases r0) (auto simp: getListId_def)
  obtain r1 s2 where m: "makeGraphRequest e (''sites/'' @ sid @ ''/lists'') no_options s0 = (r1, s2)"
    by (cases "makeGraphRequest e (''sites/'' @ sid @ ''/lists'') no_options s0")
  with miss ok g r0 obtain listsData where r1: "r1 = Inr listsData"
    by (cases r1) (auto simp: getListId_def)
  from m r1 have s2: "s2 = s0\<lparr>trace := trace s0 @ [Fetch (graph_request (the (accessToken s0)) (''sites/'' @ sid @ ''/lists'') no_options)]\<rparr>"
    using makeGraphRequest_ok by blast
  from miss ok g r0 m r1 obtain v where v: "get listsData ''value'' = Inr v"
    by (cases "get listsData ''value''") (auto simp: getListId_def)
  from miss ok g r0 m r1 v obtain available where av: "js_or v (JArr []) = JArr available"
    by (cases "js_or v (JArr [])") (auto simp: getListId_def)
  from miss ok g r0 m r1 v av obtain l where l: "find_list available n = Inr l"
    by (cases "find_list available n") (auto simp: getListId_def)
  from miss ok g r0 m r1 v av l have "truthy l \<and> i = prop_of l ''id'' \<and> s1 = s2\<lparr>listIdCache := (listIdCache s2)(n \<mapsto> i)\<rparr>"
    by (auto simp: getListId_def split: if_splits)
  with g r0 m r1 s2 v av l show ?thesis
    unfolding listing_step_def by auto
qed

lemma lower_equals_cong:
  "toLowerCase a = toLowerCase b \<Longrightarrow> lower_equals v a = lower_equals v b"
  by (cases v) auto

lemma find_list_cong:
  "toLowerCase a = toLowerCase b \<Longrightarrow> find_list ls a = find_list ls b"
  by (induction ls) (auto simp: lower_equals_cong[of a b] split: sum.splits bool.splits)


lemma find_list_found:
  "find_list ls n = Inr l \<Longrightarrow> truthy l \<Longrightarrow>
     l \<in> set ls \<and> (lower_equals (prop_of l ''displayName'') n = Inr True \<or>
                    lower_equals (prop_of l ''name'') n = Inr True)"
proof (induction ls)
  case Nil
  then show ?case by simp
next
  case (Cons a ls)
  then show ?case
    by (cases a) (auto split: sum.splits bool.splits)
qed

text \<open>
  C6. A call of \<^verbatim>\<open>getListId\<close> that succeeds leaves the identifier in the cache under
  the name, so a second call with the same name returns it without any event: the state,
  and with it the trace, stays as it is. When the name was not cached before the first
  call, that call issues what \<^verbatim>\<open>getSiteId\<close> issues (nothing when the site is known) and
  then exactly one listing request for the lists of the site.
\<close>

theorem getListId_second_call_cached:
  assumes "getListId e listName s = (Inr i, s1)"
  shows "getListId e listName s1 = (Inr i, s1) \<and>
         (listIdCache s listName = None \<longrightarrow>
            trace s1 = trace (snd (getSiteId e s)) @
              [Fetch (graph_request (the (accessToken s)) (''sites/'' @ the (siteId s1) @ ''/lists'') no_options)])"
proof (intro conjI impI)
  show "getListId e listName s1 = (Inr i, s1)"
    using assms by (intro getListId_hit getListId_ok_cached)
next
  assume miss: "listIdCache s listName = None"
  from getListId_miss_ok[OF miss assms] obtain sid s0 where
    g: "getSiteId e s = (Inr sid, s0)" and st: "listing_step e listName sid s0 i s1" by blast
  from g have "siteId s0 = Some sid" "accessToken s0 = accessToken s"
    using getSiteId_ok getSiteId_frame by blast+
  with g st show "trace s1 = trace (snd (getSiteId e s)) @
              [Fetch (graph_request (the (accessToken s)) (''sites/'' @ the (siteId s1) @ ''/lists'') no_options)]"
    unfolding listing_step_def by auto
qed

lemma makeGraphRequest_stable:
  assumes "\<forall>h h' r. fetch e h r = fetch e h' r" "accessToken s' = accessToken s"
  shows "fst (makeGraphRequest e ep opts s') = fst (makeGraphRequest e ep opts s)"
proof -
  from assms(1) have "fetch e (trace s') = fetch e (trace s)" by blast
  with assms(2) show ?thesis
    by (auto simp: makeGraphRequest_def Let_def split: option.splits response.splits)
qed

lemma getSiteId_cached: "siteId s = Some sid \<Longrightarrow> sid \<noteq> [] \<Longrightarrow> getSiteId e s = (Inr sid, s)"
  by (simp add: getSiteId_def)

lemma getSiteId_uncached:
  assumes "siteId s = None \<or> siteId s = Some []"
  shows "fst (getSiteId e s) =
     (case parseURL e (siteUrl s) of
        None \<Rightarrow> Inl TypeError
      | Some (hostname, pathname) \<Rightarrow>
          (case fst (makeGraphRequest e (''sites/'' @ encodeURIComponent e
                  (if 0 < length (filter (\<lambda>p. p \<noteq> []) (split pathname CHR ''/''))
                   then hostname @ '':/'' @ join (filter (\<lambda>p. p \<noteq> []) (split pathname CHR ''/'')) ''/''
                   else hostname)) no_options s) of
             Inl err \<Rightarrow> Inl err
           | Inr data \<Rightarrow>
               (case get data ''id'' of
                  Inl err \<Rightarrow> Inl err
                | Inr i \<Rightarrow> if \<not> truthy i then Inl (Error ''Site ID not found in response'')
                           else Inr (js_string i))))"
  using assms
  by (auto simp: getSiteId_def Let_def split: option.splits prod.splits sum.splits)

lemma getSiteId_stable:
  assumes st: "\<forall>h h' r. fetch e h r = fetch e h' r"
    and tok: "accessToken s' = accessToken s" and url: "siteUrl s' = siteUrl s"
    and a: "siteId s = None \<or> siteId s = Some []" and b: "siteId s' = None \<or> siteId s' = Some []"
  shows "fst (getSiteId e s') = fst (getSiteId e s)"
  unfolding getSiteId_uncached[OF a] getSiteId_uncached[OF b] url
  by (simp add: makeGraphRequest_stable[OF st tok] split: option.splits prod.splits)

lemma getSiteId_frame2:
  "getSiteId e s = (r, s') \<Longrightarrow> siteUrl s' = siteUrl s"
  by (auto simp: getSiteId_def Let_def split: option.splits if_splits prod.splits sum.splits
           dest!: makeGraphRequest_cases)

lemma getSiteId_ok_cases:
  "getSiteId e s = (Inr sid, s0) \<Longrightarrow>
     (siteId s = Some sid \<and> sid \<noteq> [] \<and> s0 = s) \<or> ((siteId s = None \<or> siteId s = Some []))"
  by (auto simp: getSiteId_def split: if_splits)

text \<open>After a successful call, resolving the site again gives the same identifier.\<close>

lemma getSiteId_again:
  assumes st: "\<forall>h h' r. fetch e h r = fetch e h' r"
    and g: "getSiteId e s = (Inr sid, s0)"
    and s1: "siteId s1 = siteId s0" "accessToken s1 = accessToken s0" "siteUrl s1 = siteUrl s0"
  shows "fst (getSiteId e s1) = Inr sid"
proof (cases "sid = []")
  case False
  from g have "siteId s0 = Some sid" by (rule getSiteId_ok)
  with False s1 show ?thesis by (simp add: getSiteId_cached)
next
  case True
  from g have sid0: "siteId s0 = Some sid" by (rule getSiteId_ok)
  from g True have a: "siteId s = None \<or> siteId s = Some []"
    using getSiteId_ok_cases by fastforce
  from sid0 True s1 have b: "siteId s1 = None \<or> siteId s1 = Some []" by simp
  from g have "accessToken s0 = accessToken s" "siteUrl s0 = siteUrl s"
    using getSiteId_frame getSiteId_frame2 by blast+
  with s1 have "fst (getSiteId e s1) = fst (getSiteId e s)"
    by (intro getSiteId_stable[OF st _ _ a b]) simp_all
  with g show ?thesis by simp
qed

lemma getListId_via_listing:
  assumes miss: "listIdCache s n = None"
    and g: "getSiteId e s = (Inr sid, s0)"
    and m: "fst (makeGraphRequest e (''sites/'' @ sid @ ''/lists'') no_options s0) = Inr listsData"
    and v: "get listsData ''value'' = Inr v" and av: "js_or v (JArr []) = JArr available"
    and l: "find_list available n = Inr l" and t: "truthy l"
  shows "getListId e n s =
           (Inr (prop_of l ''id''),
            s0\<lparr>trace := trace s0 @ [Fetch (graph_request (the (accessToken s0)) (''sites/'' @ sid @ ''/lists'') no_options)],
               listIdCache := (listIdCache s0)(n \<mapsto> prop_of l ''id'')\<rparr>)"
proof -
  obtain s2 where m2: "makeGraphRequest e (''sites/'' @ sid @ ''/lists'') no_options s0 = (Inr listsData, s2)"
    using m by (cases "makeGraphRequest e (''sites/'' @ sid @ ''/lists'') no_options s0") auto
  from makeGraphRequest_ok[OF m2] m2 miss g v av l t show ?thesis
    by (simp add: getListId_def)
qed

lemma get_Inr: "get x k = Inr v \<Longrightarrow> v = prop_of x k"
  by (cases x) auto

lemma makeGraphRequest_answer:
  "makeGraphRequest e ep opts s = (Inr v, s') \<Longrightarrow>
     fetch e (trace s) (graph_request (the (accessToken s)) ep opts) = HttpSuccess v"
  by (auto simp: makeGraphRequest_def Let_def split: option.splits if_splits response.splits)

lemma find_list_first:
  "find_list ls n = Inr l \<Longrightarrow> truthy l \<Longrightarrow>
     \<exists>before after. ls = before @ l # after \<and>
       (lower_equals (prop_of l ''displayName'') n = Inr True \<or>
        lower_equals (prop_of l ''name'') n = Inr True) \<and>
       (\<forall>x\<in>set before. lower_equals (prop_of x ''displayName'') n = Inr False \<and>
                        lower_equals (prop_of x ''name'') n = Inr False)"
proof (induction ls)
  case Nil
  then show ?case by simp
next
  case (Cons x ls)
  show ?case
  proof (cases "find_list ls n = Inr l \<and> lower_equals (prop_of x ''displayName'') n = Inr False \<and>
                        lower_equals (prop_of x ''name'') n = Inr False")
    case True
    with Cons.IH Cons.prems(2) obtain before after where
      b: "ls = before @ l # after"
        "lower_equals (prop_of l ''displayName'') n = Inr True \<or>
         lower_equals (prop_of l ''name'') n = Inr True"
        "\<forall>x\<in>set before. lower_equals (prop_of x ''displayName'') n = Inr False \<and>
                        lower_equals (prop_of x ''name'') n = Inr False"
      by blast
    with True show ?thesis
      by (intro exI[of _ "x # before"] exI[of _ after]) simp
  next
    case False
    with Cons.prems have "x = l \<and> (lower_equals (prop_of l ''displayName'') n = Inr True \<or>
        lower_equals (prop_of l ''name'') n = Inr True)"
      by (cases x) (auto split: sum.splits bool.splits)
    then show ?thesis
      by (intro exI[of _ "[]"] exI[of _ ls]) simp
  qed
qed

text \<open>
  C7. The requested name is compared in lower case with the display name and with the
  machine name of the lists of the container. When a name that is not cached resolves,
  the remote side has answered the listing request for the site with a listing, and the
  identifier returned is that of the first list of that listing whose display name or
  machine name equals the requested name up to case: the lists before it have a display
  name and a machine name that both differ. A second name that is equal to the first up
  to case, resolved from the same state, gives the same identifier.
\<close>

theorem getListId_case_insensitive:
  assumes low: "toLowerCase a = toLowerCase b"
    and miss: "listIdCache s a = None" "listIdCache s b = None"
    and ok: "getListId e a s = (Inr i, s1)"
  shows "fst (getListId e b s) = Inr i \<and>
         (\<exists>listsData before l after.
            fetch e (trace (snd (getSiteId e s)))
              \<lparr>req_url = ''https://graph.microsoft.com/v1.0/sites/'' @ the (siteId s1) @ ''/lists'',
               req_method = None,
               req_authorization = ''Bearer '' @ the (accessToken s),
               req_body = None\<rparr> = HttpSuccess listsData \<and>
            js_or (prop_of listsData ''value'') (JArr []) = JArr (before @ l # after) \<and>
            (\<forall>x\<in>set before. lower_equals (prop_of x ''displayName'') a = Inr False \<and>
                             lower_equals (prop_of x ''name'') a = Inr False) \<and>
            (lower_equals (prop_of l ''displayName'') a = Inr True \<or>
             lower_equals (prop_of l ''name'') a = Inr True) \<and>
            i = prop_of l ''id'')"
proof -
  from getListId_miss_ok[OF miss(1) ok] obtain sid s0 where
    g: "getSiteId e s = (Inr sid, s0)" and st: "listing_step e a sid s0 i s1" by blast
  from st obtain listsData v available l s2 where
    m2: "makeGraphRequest e (''sites/'' @ sid @ ''/lists'') no_options s0 = (Inr listsData, s2)"
    and v: "get listsData ''value'' = Inr v" and av: "js_or v (JArr []) = JArr available"
    and l: "find_list available a = Inr l" and t: "truthy l" and i: "i = prop_of l ''id''"
    and s1: "siteId s1 = siteId s0"
    unfolding listing_step_def by force
  from m2 have m: "fst (makeGraphRequest e (''sites/'' @ sid @ ''/lists'') no_options s0) = Inr listsData"
    by simp
  from l have lb: "find_list available b = Inr l" by (simp add: find_list_cong[OF low])
  from getListId_via_listing[OF miss(2) g m v av lb t] i
  have one: "fst (getListId e b s) = Inr i" by simp
  from g have fr: "siteId s0 = Some sid" "accessToken s0 = accessToken s"
    using getSiteId_ok getSiteId_frame by blast+
  from makeGraphRequest_answer[OF m2] fr s1 g
  have ans: "fetch e (trace (snd (getSiteId e s)))
              \<lparr>req_url = ''https://graph.microsoft.com/v1.0/sites/'' @ the (siteId s1) @ ''/lists'',
               req_method = None,
               req_authorization = ''Bearer '' @ the (accessToken s),
               req_body = None\<rparr> = HttpSuccess listsData"
    by (simp add: graph_request_def no_options_def)
  from find_list_first[OF l t] obtain before after where
    sp: "available = before @ l # after"
      "lower_equals (prop_of l ''displayName'') a = Inr True \<or>
       lower_equals (prop_of l ''name'') a = Inr True"
      "\<forall>x\<in>set before. lower_equals (prop_of x ''displayName'') a = Inr False \<and>
                        lower_equals (prop_of x ''name'') a = Inr False"
    by blast
  from get_Inr[OF v] av sp(1)
  have lst: "js_or (prop_of listsData ''value'') (JArr []) = JArr (before @ l # after)" by simp
  from ans lst sp(2,3) i
  have two: "\<exists>listsData before l after.
            fetch e (trace (snd (getSiteId e s)))
              \<lparr>req_url = ''https://graph.microsoft.com/v1.0/sites/'' @ the (siteId s1) @ ''/lists'',
               req_method = None,
               req_authorization = ''Bearer '' @ the (accessToken s),
               req_body = None\<rparr> = HttpSuccess listsData \<and>
            js_or (prop_of listsData ''value'') (JArr []) = JArr (before @ l # after) \<and>
            (\<forall>x\<in>set before. lower_equals (prop_of x ''displayName'') a = Inr False \<and>
                             lower_equals (prop_of x ''name'') a = Inr False) \<and>
            (lower_equals (prop_of l ''displayName'') a = Inr True \<or>
             lower_equals (prop_of l ''name'') a = Inr True) \<and>
            i = prop_of l ''id''"
    by blast
  from one two show ?thesis by blast
qed

text \<open>
  Witness for C7 on the sample site: \<open>ASSETS\<close> and \<open>assets\<close> both resolve to the list
  whose display name is \<open>Assets\<close>, and \<open>ACCESS CARDS\<close> and \<open>access cards\<close> both resolve
  to the list whose machine name is \<open>Access Cards\<close> and whose display name is \<open>Cards\<close>.
\<close>

theorem getListId_case_insensitive_witness:
  "toLowerCase ''ASSETS'' = toLowerCase ''assets'' \<and>
   fst (getListId (sample_env (\<lambda>h. sample_remote)) ''ASSETS'' sample_service) = Inr (JStr ''list-assets'') \<and>
   fst (getListId (sample_env (\<lambda>h. sample_remote)) ''assets'' sample_service) = Inr (JStr ''list-assets'') \<and>
   toLowerCase ''ACCESS CARDS'' = toLowerCase ''access cards'' \<and>
   fst (getListId (sample_env (\<lambda>h. sample_remote)) ''ACCESS CARDS'' sample_service) = Inr (JStr ''list-cards'') \<and>
   fst (getListId (sample_env (\<lambda>h. sample_remote)) ''access cards'' sample_service) = Inr (JStr ''list-cards'') \<and>
   lower_equals (JStr ''Cards'') ''ACCESS CARDS'' = Inr False \<and>
   lower_equals (JStr ''Access Cards'') ''ACCESS CARDS'' = Inr True"
proof -
  let ?e = "sample_env (\<lambda>h. sample_remote)"
  let ?s1 = "snd (getListId ?e ''ASSETS'' sample_service)"
  let ?s2 = "snd (getListId ?e ''ACCESS CARDS'' sample_service)"
  have low: "toLowerCase ''ASSETS'' = toLowerCase ''assets''" by code_simp
  have low2: "toLowerCase ''ACCESS CARDS'' = toLowerCase ''access cards''" by code_simp
  have f: "fst (getListId ?e ''ASSETS'' sample_service) = Inr (JStr ''list-assets'')"
    by code_simp
  then have h: "getListId ?e ''ASSETS'' sample_service = (Inr (JStr ''list-assets''), ?s1)"
    by (simp add: prod_eq_iff)
  have f2: "fst (getListId ?e ''ACCESS CARDS'' sample_service) = Inr (JStr ''list-cards'')"
    by code_simp
  then have h2: "getListId ?e ''ACCESS CARDS'' sample_service = (Inr (JStr ''list-cards''), ?s2)"
    by (simp add: prod_eq_iff)
  have m: "listIdCache sample_service ''ASSETS'' = None" "listIdCache sample_service ''assets'' = None"
    "listIdCache sample_service ''ACCESS CARDS'' = None" "listIdCache sample_service ''access cards'' = None"
    by (simp_all add: sample_service_def)
  have c: "lower_equals (JStr ''Cards'') ''ACCESS CARDS'' = Inr False"
    "lower_equals (JStr ''Access Cards'') ''ACCESS CARDS'' = Inr True"
    by code_simp+
  from getListId_case_insensitive[OF low m(1,2) h] getListId_case_insensitive[OF low2 m(3,4) h2]
    low low2 f f2 c show ?thesis
    by blast
qed

text \<open>
  C10. The cache is keyed by the name as it is spelled. After a call for one spelling has
  succeeded from a state where neither spelling was cached, the other spelling is still
  missing from the cache; the call for it lists the container again (one more listing
  request after what \<^verbatim>\<open>getSiteId\<close> issues) and, on a remote side whose answers do not
  depend on the earlier requests, returns the same identifier; afterwards both spellings
  are cached.
\<close>

theorem getListId_cache_keyed_by_spelling:
  assumes neq: "a \<noteq> b" and low: "toLowerCase a = toLowerCase b"
    and miss: "listIdCache s a = None" "listIdCache s b = None"
    and stable: "\<forall>h h' r. fetch e h r = fetch e h' r"
    and ok: "getListId e a s = (Inr i, s1)"
  shows "listIdCache s1 b = None \<and>
         (\<exists>s2. getListId e b s1 = (Inr i, s2) \<and>
            trace s2 = trace (snd (getSiteId e s1)) @
              [Fetch (graph_request (the (accessToken s1)) (''sites/'' @ the (siteId s1) @ ''/lists'') no_options)] \<and>
            listIdCache s2 a = Some i \<and> listIdCache s2 b = Some i)"
proof -
  from getListId_miss_ok[OF miss(1) ok] obtain sid s0 where
    g: "getSiteId e s = (Inr sid, s0)" and st: "listing_step e a sid s0 i s1" by blast
  from st obtain listsData v available l where
    m: "fst (makeGraphRequest e (''sites/'' @ sid @ ''/lists'') no_options s0) = Inr listsData"
    and v: "get listsData ''value'' = Inr v" and av: "js_or v (JArr []) = JArr available"
    and l: "find_list available a = Inr l" and t: "truthy l" and i: "i = prop_of l ''id''"
    and s1: "s1 = s0\<lparr>trace := trace s0 @ [Fetch (graph_request (the (accessToken s0)) (''sites/'' @ sid @ ''/lists'') no_options)],
                     listIdCache := (listIdCache s0)(a \<mapsto> i)\<rparr>"
    unfolding listing_step_def by force
  from g have c0: "listIdCache s0 = listIdCache s" and sid0: "siteId s0 = Some sid"
    using getSiteId_frame getSiteId_ok by blast+
  from s1 c0 miss(2) neq have missb: "listIdCache s1 b = None" by simp
  from s1 have eqs: "siteId s1 = siteId s0" "accessToken s1 = accessToken s0" "siteUrl s1 = siteUrl s0"
    by simp_all
  obtain r s1' where g1: "getSiteId e s1 = (r, s1')" by (cases "getSiteId e s1")
  with getSiteId_again[OF stable g eqs] have g1: "getSiteId e s1 = (Inr sid, s1')" by simp
  from g1 have fr: "listIdCache s1' = listIdCache s1" "accessToken s1' = accessToken s1"
    using getSiteId_frame by blast+
  with eqs have tok: "accessToken s1' = accessToken s0" by simp
  from makeGraphRequest_stable[OF stable tok] m
  have m1: "fst (makeGraphRequest e (''sites/'' @ sid @ ''/lists'') no_options s1') = Inr listsData"
    by simp
  from l have lb: "find_list available b = Inr l" by (simp add: find_list_cong[OF low])
  note step = getListId_via_listing[OF missb g1 m1 v av lb t]
  let ?s2 = "s1'\<lparr>trace := trace s1' @ [Fetch (graph_request (the (accessToken s1')) (''sites/'' @ sid @ ''/lists'') no_options)],
               listIdCache := (listIdCache s1')(b \<mapsto> prop_of l ''id'')\<rparr>"
  have "getListId e b s1 = (Inr i, ?s2)" using step i by simp
  moreover have "trace ?s2 = trace (snd (getSiteId e s1)) @
              [Fetch (graph_request (the (accessToken s1)) (''sites/'' @ the (siteId s1) @ ''/lists'') no_options)]"
    using g1 fr eqs sid0 by simp
  moreover have "listIdCache ?s2 a = Some i \<and> listIdCache ?s2 b = Some i"
    using fr s1 i neq by simp
  ultimately show ?thesis using missb by blast
qed

text \<open>
  Witness for C6 on the sample site: the first call for \<open>Assets\<close> resolves the site and
  lists the container once, the second call returns the same identifier in the same state.
\<close>

theorem getListId_second_call_cached_witness:
  "listIdCache sample_service ''Assets'' = None \<and>
   fst (getListId (sample_env (\<lambda>h. sample_remote)) ''Assets'' sample_service) = Inr (JStr ''list-assets'') \<and>
   getListId (sample_env (\<lambda>h. sample_remote)) ''Assets''
       (snd (getListId (sample_env (\<lambda>h. sample_remote)) ''Assets'' sample_service)) =
     (Inr (JStr ''list-assets''), snd (getListId (sample_env (\<lambda>h. sample_remote)) ''Assets'' sample_service)) \<and>
   trace (snd (getListId (sample_env (\<lambda>h. sample_remote)) ''Assets'' sample_service)) =
     [Fetch (graph_request ''token'' ''sites/contoso.sharepoint.com:/sites/assets'' no_options),
      Fetch (graph_request ''token'' ''sites/site-1/lists'' no_options)]"
proof -
  let ?e = "sample_env (\<lambda>h. sample_remote)"
  let ?s1 = "snd (getListId ?e ''Assets'' sample_service)"
  have f: "fst (getListId ?e ''Assets'' sample_service) = Inr (JStr ''list-assets'')"
    by code_simp
  then have h: "getListId ?e ''Assets'' sample_service = (Inr (JStr ''list-assets''), ?s1)"
    by (simp add: prod_eq_iff)
  have m: "listIdCache sample_service ''Assets'' = None"
    by (simp add: sample_service_def)
  have t: "trace (snd (getSiteId ?e sample_service)) =
             [Fetch (graph_request ''token'' ''sites/contoso.sharepoint.com:/sites/assets'' no_options)]"
    by code_simp
  have sid: "the (siteId ?s1) = ''site-1''"
    by code_simp
  have tok: "the (accessToken sample_service) = ''token''"
    by (simp add: sample_service_def)
  from getListId_second_call_cached[OF h] m t sid tok f show ?thesis
    by simp
qed

text \<open>
  Witness for C10 on the sample site: after \<open>Assets\<close>, the call for \<open>assets\<close> sends a
  second listing request and both spellings end up in the cache.
\<close>

theorem getListId_cache_keyed_by_spelling_witness:
  "''Assets'' \<noteq> ''assets'' \<and> toLowerCase ''Assets'' = toLowerCase ''assets'' \<and>
   fst (getListId (sample_env (\<lambda>h. sample_remote)) ''Assets'' sample_service) = Inr (JStr ''list-assets'') \<and>
   listIdCache (snd (getListId (sample_env (\<lambda>h. sample_remote)) ''Assets'' sample_service)) ''assets'' = None \<and>
   (\<exists>s2. getListId (sample_env (\<lambda>h. sample_remote)) ''assets''
            (snd (getListId (sample_env (\<lambda>h. sample_remote)) ''Assets'' sample_service)) = (Inr (JStr ''list-assets''), s2) \<and>
         trace s2 =
           [Fetch (graph_request ''token'' ''sites/contoso.sharepoint.com:/sites/assets'' no_options),
            Fetch (graph_request ''token'' ''sites/site-1/lists'' no_options),
            Fetch (graph_request ''token'' ''sites/site-1/lists'' no_options)] \<and>
         listIdCache s2 ''Assets'' = Some (JStr ''list-assets'') \<and>
         listIdCache s2 ''assets'' = Some (JStr ''list-assets''))"
proof -
  let ?e = "sample_env (\<lambda>h. sample_remote)"
  let ?s1 = "snd (getListId ?e ''Assets'' sample_service)"
  have neq: "''Assets'' \<noteq> ''assets''" by simp
  have low: "toLowerCase ''Assets'' = toLowerCase ''assets''" by code_simp
  have f: "fst (getListId ?e ''Assets'' sample_service) = Inr (JStr ''list-assets'')"
    by code_simp
  then have h: "getListId ?e ''Assets'' sample_service = (Inr (JStr ''list-assets''), ?s1)"
    by (simp add: prod_eq_iff)
  have m: "listIdCache sample_service ''Assets'' = None" "listIdCache sample_service ''assets'' = None"
    by (simp_all add: sample_service_def)
  have stable: "\<forall>h h' r. fetch ?e h r = fetch ?e h' r"
    by (simp add: sample_env_def)
  have t: "trace (snd (getSiteId ?e ?s1)) =
             [Fetch (graph_request ''token'' ''sites/contoso.sharepoint.com:/sites/assets'' no_options),
              Fetch (graph_request ''token'' ''sites/site-1/lists'' no_options)]"
    by code_simp
  have sid: "the (siteId ?s1) = ''site-1''"
    by code_simp
  have tok: "the (accessToken ?s1) = ''token''"
    by code_simp
  from getListId_cache_keyed_by_spelling[OF neq low m stable h] neq low f t sid tok show ?thesis
    by simp
qed

section \<open>Authentication and logout\<close>

text \<open>
  C5. With a client identifier or a tenant identifier that is empty or still the
  placeholder, \<^verbatim>\<open>authenticate\<close> fails with the configuration error (for the client
  identifier first) and returns the service unchanged: no prompt, no token exchange and no
  request has been added to the trace.
\<close>

theorem authenticate_unconfigured:
  assumes "clientId s = [] \<or> clientId s = ''YOUR_CLIENT_ID_HERE'' \<or>
           tenantId s = [] \<or> tenantId s = ''YOUR_TENANT_ID_HERE''"
  shows "authenticate e s =
           (Inl (Error (if clientId s = [] \<or> clientId s = ''YOUR_CLIENT_ID_HERE''
                        then ''Client ID not configured. Please update config/sharepointConfig.ts with your Azure AD Client ID.''
                        else ''Tenant ID not configured. Please update config/sharepointConfig.ts with your Azure AD Tenant ID.'')),
            s)"
  using assms by (auto simp: authenticate_def authenticate_body_def)

text \<open>
  Witness for C5: the placeholder client identifier and the empty tenant identifier on the
  sample service.
\<close>

theorem authenticate_unconfigured_witness:
  "clientId (sample_service\<lparr>clientId := ''YOUR_CLIENT_ID_HERE''\<rparr>) = ''YOUR_CLIENT_ID_HERE'' \<and>
   authenticate (sample_env (\<lambda>h. sample_remote)) (sample_service\<lparr>clientId := ''YOUR_CLIENT_ID_HERE''\<rparr>) =
     (Inl (Error ''Client ID not configured. Please update config/sharepointConfig.ts with your Azure AD Client ID.''),
      sample_service\<lparr>clientId := ''YOUR_CLIENT_ID_HERE''\<rparr>) \<and>
   authenticate (sample_env (\<lambda>h. sample_remote)) (sample_service\<lparr>tenantId := []\<rparr>) =
     (Inl (Error ''Tenant ID not configured. Please update config/sharepointConfig.ts with your Azure AD Tenant ID.''),
      sample_service\<lparr>tenantId := []\<rparr>) \<and>
   trace (snd (authenticate (sample_env (\<lambda>h. sample_remote)) (sample_service\<lparr>tenantId := []\<rparr>))) = []"
proof -
  let ?e = "sample_env (\<lambda>h. sample_remote)"
  let ?s = "sample_service\<lparr>clientId := ''YOUR_CLIENT_ID_HERE''\<rparr>"
  let ?t = "sample_service\<lparr>tenantId := []\<rparr>"
  have c: "clientId ?s = ''YOUR_CLIENT_ID_HERE''" by simp
  have t: "tenantId ?t = []" "clientId ?t \<noteq> []" "clientId ?t \<noteq> ''YOUR_CLIENT_ID_HERE''"
    by (simp_all add: sample_service_def)
  have tr: "trace ?t = []" by (simp add: sample_service_def)
  from authenticate_unconfigured[of ?s ?e] c authenticate_unconfigured[of ?t ?e] t tr
  show ?thesis by simp
qed

lemma makeGraphRequest_logged_out:
  "accessToken s = Some [] \<Longrightarrow> makeGraphRequest e ep opts s = (Inl not_authenticated, s)"
  by (simp add: makeGraphRequest_def not_authenticated_def)

lemma getSiteId_logged_out:
  assumes "accessToken s = Some []"
    "parseURL e (siteUrl s) \<noteq> None \<or> (siteId s \<noteq> None \<and> siteId s \<noteq> Some [])"
  shows "getSiteId e s = (Inl not_authenticated, s) \<or> (\<exists>sid. getSiteId e s = (Inr sid, s))"
  using assms
  by (auto simp: getSiteId_def Let_def makeGraphRequest_logged_out split: option.splits)

lemma getListId_logged_out:
  assumes "accessToken s = Some []"
    "parseURL e (siteUrl s) \<noteq> None \<or> (siteId s \<noteq> None \<and> siteId s \<noteq> Some [])"
  shows "getListId e n s = (Inl not_authenticated, s) \<or> (\<exists>i. getListId e n s = (Inr i, s))"
  using assms getSiteId_logged_out[OF assms]
  by (auto simp: getListId_def makeGraphRequest_logged_out split: option.splits)

lemma site_operations_logged_out:
  assumes "accessToken s = Some []"
    "parseURL e (siteUrl s) \<noteq> None \<or> (siteId s \<noteq> None \<and> siteId s \<noteq> Some [])"
  shows "getLists e s = (Inl not_authenticated, s)"
    and "getList e n s = (Inl not_authenticated, s)"
    and "getRecords e n c s = (Inl not_authenticated, s)"
    and "insertRecord e n f s = (Inl not_authenticated, s)"
    and "updateRecord e n i f s = (Inl not_authenticated, s)"
    and "deleteRecord e n i s = (Inl not_authenticated, s)"
  using getListId_logged_out[OF assms, of n] getSiteId_logged_out[OF assms]
  by (auto simp: getLists_def getList_def getRecords_def insertRecord_def updateRecord_def
        deleteRecord_def Let_def makeGraphRequest_logged_out[OF assms(1)])

lemma getCurrentUser_logged_out:
  "accessToken s = Some [] \<Longrightarrow> getCurrentUser e s = (Inl not_authenticated, s)"
  by (simp add: getCurrentUser_def makeGraphRequest_logged_out)

lemma isCurrentUserAdmin_logged_out:
  "accessToken s = Some [] \<Longrightarrow> isCurrentUserAdmin e s = ((False, []), s)"
  by (simp add: isCurrentUserAdmin_def makeGraphRequest_logged_out)

lemma getAdminUsers_logged_out:
  "accessToken s = Some [] \<Longrightarrow> getAdminUsers e s = ([], s)"
  by (simp add: getAdminUsers_def makeGraphRequest_logged_out)

lemma getAllUsers_logged_out:
  "accessToken s = Some [] \<Longrightarrow> getAllUsers e s = ([], s)"
  by (simp add: getAllUsers_def users_loop.simps[of e JNull] makeGraphRequest_logged_out)

lemma getCurrentUserWithAdminStatus_logged_out:
  "accessToken s = Some [] \<Longrightarrow> getCurrentUserWithAdminStatus e s = (Inl not_authenticated, s)"
  by (simp add: getCurrentUserWithAdminStatus_def getCurrentUser_logged_out isCurrentUserAdmin_logged_out)

lemma getSiteId_no_site:
  assumes "parseURL e (siteUrl s) = None" "siteId s = None \<or> siteId s = Some []"
  shows "getSiteId e s = (Inl TypeError, s)"
  using assms by (auto simp: getSiteId_def)

lemma getListId_no_site:
  assumes "parseURL e (siteUrl s) = None" "siteId s = None \<or> siteId s = Some []"
  shows "getListId e n s = (Inl TypeError, s) \<or> (\<exists>i. getListId e n s = (Inr i, s))"
  using getSiteId_no_site[OF assms]
  by (auto simp: getListId_def split: option.splits)

lemma site_operations_no_site:
  assumes "parseURL e (siteUrl s) = None" "siteId s = None \<or> siteId s = Some []"
  shows "getLists e s = (Inl TypeError, s)"
    and "getList e n s = (Inl TypeError, s)"
    and "getRecords e n c s = (Inl TypeError, s)"
    and "insertRecord e n f s = (Inl TypeError, s)"
    and "updateRecord e n i f s = (Inl TypeError, s)"
    and "deleteRecord e n i s = (Inl TypeError, s)"
  using getSiteId_no_site[OF assms] getListId_no_site[OF assms, of n]
  by (auto simp: getLists_def getList_def getRecords_def insertRecord_def updateRecord_def
        deleteRecord_def Let_def)

text \<open>
  C9 (amended). After \<^verbatim>\<open>setAccessToken('')\<close> no operation adds an event to the trace
  or changes the service, and:

  \<^item> every request to the remote interface, whatever the endpoint and the options, fails
    with the error whose message starts with \<^verbatim>\<open>Not authenticated\<close>, and so do
    \<^verbatim>\<open>getCurrentUser\<close> and \<^verbatim>\<open>getCurrentUserWithAdminStatus\<close>;

  \<^item> \<^verbatim>\<open>isCurrentUserAdmin\<close>, \<^verbatim>\<open>getAllUsers\<close> and \<^verbatim>\<open>getAdminUsers\<close> do not fail: they catch
    that error and return \<^verbatim>\<open>{isAdmin: false, roles: []}\<close> and the empty array;

  \<^item> the operations on the lists of the site (\<^verbatim>\<open>getLists\<close>, \<^verbatim>\<open>getList\<close>, and reading,
    inserting, updating and deleting records) fail with that error when the site is
    known, that is, when the site address is a valid URL or the site identifier has
    been resolved before;

  \<^item> when the site is not known they fail with the type error of \<^verbatim>\<open>new URL\<close> instead.
\<close>

theorem logout_blocks_requests:
  "makeGraphRequest e endpoint options (setAccessToken [] s) =
     (Inl (Error ''Not authenticated. Call authenticate() first.''), setAccessToken [] s) \<and>
   trace (setAccessToken [] s) = trace s \<and>
   startsWith ''Not authenticated. Call authenticate() first.'' ''Not authenticated'' \<and>
   getCurrentUser e (setAccessToken [] s) =
     (Inl (Error ''Not authenticated. Call authenticate() first.''), setAccessToken [] s) \<and>
   getCurrentUserWithAdminStatus e (setAccessToken [] s) =
     (Inl (Error ''Not authenticated. Call authenticate() first.''), setAccessToken [] s) \<and>
   isCurrentUserAdmin e (setAccessToken [] s) = ((False, []), setAccessToken [] s) \<and>
   getAllUsers e (setAccessToken [] s) = ([], setAccessToken [] s) \<and>
   getAdminUsers e (setAccessToken [] s) = ([], setAccessToken [] s) \<and>
   (parseURL e (siteUrl s) \<noteq> None \<or> (siteId s \<noteq> None \<and> siteId s \<noteq> Some []) \<longrightarrow>
      getLists e (setAccessToken [] s) =
     (Inl (Error ''Not authenticated. Call authenticate() first.''), setAccessToken [] s) \<and>
      getList e listName (setAccessToken [] s) =
     (Inl (Error ''Not authenticated. Call authenticate() first.''), setAccessToken [] s) \<and>
      getRecords e listName cachedEmployees (setAccessToken [] s) =
     (Inl (Error ''Not authenticated. Call authenticate() first.''), setAccessToken [] s) \<and>
      insertRecord e listName flds (setAccessToken [] s) =
     (Inl (Error ''Not authenticated. Call authenticate() first.''), setAccessToken [] s) \<and>
      updateRecord e listName itemId flds (setAccessToken [] s) =
     (Inl (Error ''Not authenticated. Call authenticate() first.''), setAccessToken [] s) \<and>
      deleteRecord e listName itemId (setAccessToken [] s) =
     (Inl (Error ''Not authenticated. Call authenticate() first.''), setAccessToken [] s)) \<and>
   (parseURL e (siteUrl s) = None \<and> (siteId s = None \<or> siteId s = Some []) \<longrightarrow>
      getLists e (setAccessToken [] s) =
     (Inl TypeError, setAccessToken [] s) \<and>
      getList e listName (setAccessToken [] s) =
     (Inl TypeError, setAccessToken [] s) \<and>
      getRecords e listName cachedEmployees (setAccessToken [] s) =
     (Inl TypeError, setAccessToken [] s) \<and>
      insertRecord e listName flds (setAccessToken [] s) =
     (Inl TypeError, setAccessToken [] s) \<and>
      updateRecord e listName itemId flds (setAccessToken [] s) =
     (Inl TypeError, setAccessToken [] s) \<and>
      deleteRecord e listName itemId (setAccessToken [] s) =
     (Inl TypeError, setAccessToken [] s))"
proof -
  have a: "accessToken (setAccessToken [] s) = Some []" by (simp add: setAccessToken_def)
  have t: "trace (setAccessToken [] s) = trace s" "siteUrl (setAccessToken [] s) = siteUrl s"
    "siteId (setAccessToken [] s) = siteId s"
    by (simp_all add: setAccessToken_def)
  have sw: "startsWith ''Not authenticated. Call authenticate() first.'' ''Not authenticated''"
    by simp
  note out = makeGraphRequest_logged_out[OF a, of e endpoint options]
    getCurrentUser_logged_out[OF a, of e] getCurrentUserWithAdminStatus_logged_out[OF a, of e]
    isCurrentUserAdmin_logged_out[OF a, of e] getAllUsers_logged_out[OF a, of e]
    getAdminUsers_logged_out[OF a, of e]
  note known = site_operations_logged_out[OF a, unfolded t]
  note unknown = site_operations_no_site[of e "setAccessToken [] s", unfolded t]
  show ?thesis
    using out t(1) sw unfolding not_authenticated_def
    by (simp add: known unknown not_authenticated_def del: startsWith.simps)
qed

text \<open>
  Witness for C9 (amended): the sample service after logout, whose site address is a valid URL,
  and the same service with a site address that is not one.
\<close>

theorem logout_blocks_requests_witness:
  "parseURL (sample_env (\<lambda>h. sample_remote)) (siteUrl sample_service) \<noteq> None \<and>
   updateRecord (sample_env (\<lambda>h. sample_remote)) ''Assets'' (JNum 7) [(''Status'', JStr ''Active'')]
       (setAccessToken [] sample_service) =
     (Inl (Error ''Not authenticated. Call authenticate() first.''), setAccessToken [] sample_service) \<and>
   getRecords (sample_env (\<lambda>h. sample_remote)) ''Assets'' None (setAccessToken [] sample_service) =
     (Inl (Error ''Not authenticated. Call authenticate() first.''), setAccessToken [] sample_service) \<and>
   getAllUsers (sample_env (\<lambda>h. sample_remote)) (setAccessToken [] sample_service) =
     ([], setAccessToken [] sample_service) \<and>
   trace (setAccessToken [] sample_service) = [] \<and>
   parseURL (sample_env (\<lambda>h. sample_remote)) (siteUrl (sample_service\<lparr>siteUrl := ''contoso''\<rparr>)) = None \<and>
   siteId (sample_service\<lparr>siteUrl := ''contoso''\<rparr>) = None \<and>
   getRecords (sample_env (\<lambda>h. sample_remote)) ''Assets'' None
       (setAccessToken [] (sample_service\<lparr>siteUrl := ''contoso''\<rparr>)) =
     (Inl TypeError, setAccessToken [] (sample_service\<lparr>siteUrl := ''contoso''\<rparr>))"
proof -
  have p: "parseURL (sample_env (\<lambda>h. sample_remote)) (siteUrl sample_service) \<noteq> None"
    by (simp add: sample_env_def sample_service_def)
  have t: "trace sample_service = []" by (simp add: sample_service_def)
  have q: "parseURL (sample_env (\<lambda>h. sample_remote)) (siteUrl (sample_service\<lparr>siteUrl := ''contoso''\<rparr>)) = None"
    "siteId (sample_service\<lparr>siteUrl := ''contoso''\<rparr>) = None"
    by (simp_all add: sample_env_def sample_service_def)
  from logout_blocks_requests[of "sample_env (\<lambda>h. sample_remote)" _ _ sample_service
      "''Assets''" None "[(''Status'', JStr ''Active'')]" "JNum 7"] p t
    logout_blocks_requests[of "sample_env (\<lambda>h. sample_remote)" _ _ "sample_service\<lparr>siteUrl := ''contoso''\<rparr>"
      "''Assets''" None "[(''Status'', JStr ''Active'')]" "JNum 7"] q
  show ?thesis by simp
qed

text \<open>
  Counterexample to C9 as stated: after logout on the sample service the listing of the
  users, the test for administrator roles and the listing of the administrators do not
  fail: they return empty results (and send nothing). And on a service whose site
  address is not a URL, reading records fails with a type error, not with the
  authentication error.
\<close>

theorem logout_blocks_requests_counterexample:
  "fst (getAllUsers (sample_env (\<lambda>h. sample_remote)) (setAccessToken [] sample_service)) = [] \<and>
   fst (isCurrentUserAdmin (sample_env (\<lambda>h. sample_remote)) (setAccessToken [] sample_service)) = (False, []) \<and>
   fst (getAdminUsers (sample_env (\<lambda>h. sample_remote)) (setAccessToken [] sample_service)) = [] \<and>
   trace (snd (getAllUsers (sample_env (\<lambda>h. sample_remote)) (setAccessToken [] sample_service))) = [] \<and>
   fst (getRecords (sample_env (\<lambda>h. sample_remote)) ''Assets'' None
          (setAccessToken [] (sample_service\<lparr>siteUrl := ''contoso''\<rparr>))) = Inl TypeError \<and>
   Inl TypeError \<noteq> (Inl (Error ''Not authenticated. Call authenticate() first.'') :: error + obj list)"
  by code_simp

section \<open>The body of an update\<close>

lemma plain_get_graph_request [simp]: "plain_get (Fetch (graph_request token ep no_options))"
  by (simp add: plain_get_def graph_request_def no_options_def)

lemma makeGraphRequest_trace:
  "makeGraphRequest e ep opts s = (r, s') \<Longrightarrow>
     trace s' = trace s \<or> trace s' = trace s @ [Fetch (graph_request (the (accessToken s)) ep opts)]"
  by (auto dest!: makeGraphRequest_cases)

lemma getSiteId_trace:
  assumes "getSiteId e s = (r, s')"
  shows "\<exists>evs. trace s' = trace s @ evs \<and> list_all plain_get evs"
proof (cases "siteId s \<noteq> None \<and> siteId s \<noteq> Some []")
  case True
  with assms show ?thesis by (auto simp: getSiteId_def)
next
  case False
  show ?thesis
  proof (cases "parseURL e (siteUrl s)")
    case None
    with False assms show ?thesis by (auto simp: getSiteId_def)
  next
    case (Some hp)
    obtain hostname pathname where hp: "hp = (hostname, pathname)" by (cases hp)
    define ep where "ep = ''sites/'' @ encodeURIComponent e
        (let pathParts = filter (\<lambda>p. p \<noteq> []) (split pathname CHR ''/'')
         in if 0 < length pathParts then hostname @ '':/'' @ join pathParts ''/'' else hostname)"
    obtain r1 s1 where m: "makeGraphRequest e ep no_options s = (r1, s1)"
      by (cases "makeGraphRequest e ep no_options s")
    from makeGraphRequest_trace[OF m]
    have t1: "\<exists>evs. trace s1 = trace s @ evs \<and> list_all plain_get evs"
    proof (elim disjE)
      assume "trace s1 = trace s"
      then show ?thesis by (intro exI[of _ "[]"]) simp
    next
      assume "trace s1 = trace s @ [Fetch (graph_request (the (accessToken s)) ep no_options)]"
      then show ?thesis
        by (intro exI[of _ "[Fetch (graph_request (the (accessToken s)) ep no_options)]"]) simp
    qed
    from assms False Some hp m have "trace s' = trace s1"
      by (auto simp: getSiteId_def ep_def Let_def split: sum.splits if_splits)
    with t1 show ?thesis by simp
  qed
qed

lemma getListId_trace:
  assumes "getListId e n s = (r, s')"
  shows "\<exists>evs. trace s' = trace s @ evs \<and> list_all plain_get evs"
proof (cases "listIdCache s n")
  case (Some i)
  with assms show ?thesis by (auto simp: getListId_def)
next
  case None
  obtain r0 s0 where g: "getSiteId e s = (r0, s0)" by (cases "getSiteId e s")
  from getSiteId_trace[OF g] obtain evs0 where
    t0: "trace s0 = trace s @ evs0" "list_all plain_get evs0" by blast
  show ?thesis
  proof (cases r0)
    case (Inl err)
    with assms None g t0 show ?thesis by (auto simp: getListId_def)
  next
    case (Inr sid)
    obtain r1 s1 where m: "makeGraphRequest e (''sites/'' @ sid @ ''/lists'') no_options s0 = (r1, s1)"
      by (cases "makeGraphRequest e (''sites/'' @ sid @ ''/lists'') no_options s0")
    from makeGraphRequest_trace[OF m] t0
    have t1: "\<exists>evs. trace s1 = trace s @ evs \<and> list_all plain_get evs"
    proof (elim disjE)
      assume "trace s1 = trace s0"
      with t0 show ?thesis by (intro exI[of _ evs0]) simp
    next
      assume "trace s1 = trace s0 @
        [Fetch (graph_request (the (accessToken s0)) (''sites/'' @ sid @ ''/lists'') no_options)]"
      with t0 show ?thesis
        by (intro exI[of _ "evs0 @
          [Fetch (graph_request (the (accessToken s0)) (''sites/'' @ sid @ ''/lists'') no_options)]"]) simp
    qed
    from assms None g Inr m have "trace s' = trace s1"
      by (auto simp: getListId_def split: sum.splits json.splits if_splits)
    with t1 show ?thesis by simp
  qed
qed

text \<open>
  C8. The events \<^verbatim>\<open>updateRecord\<close> adds to the trace are lookups without method and
  body, followed by at most one request. The method of that request is PATCH, it carries
  the bearer token of the service, and its body is the serialization of exactly the
  mapping the caller supplied. It goes to the address of the fields of the item, in the
  list the name resolves to, of the site of the service (the identifiers of the item and
  of the list being printed as they are when their numbers are safe integers). When the
  call returns a value, that request has been sent.
\<close>

theorem updateRecord_patch_body:
  assumes "updateRecord e listName itemId flds s = (res, s')"
  shows "\<exists>lookups patch.
           trace s' = trace s @ lookups @ patch \<and> list_all plain_get lookups \<and>
           (patch = [] \<or>
            (\<exists>r. patch = [Fetch r] \<and>
                 req_method r = Some PATCH \<and>
                 req_body r = Some (JObj flds) \<and>
                 req_authorization r = ''Bearer '' @ the (accessToken s) \<and>
                 (safe_integers itemId \<and> safe_integers (the (listIdCache s' listName)) \<longrightarrow>
                    req_url r = ''https://graph.microsoft.com/v1.0/sites/'' @ the (siteId s') @
                                ''/lists/'' @ js_string (the (listIdCache s' listName)) @
                                ''/items/'' @ js_string itemId @ ''/fields''))) \<and>
           (\<forall>v. res = Inr v \<longrightarrow> patch \<noteq> [])"
proof -
  obtain r1 s1 where l: "getListId e listName s = (r1, s1)" by (cases "getListId e listName s")
  from getListId_trace[OF l] obtain evs1 where
    t1: "trace s1 = trace s @ evs1" "list_all plain_get evs1" by blast
  show ?thesis
  proof (cases r1)
    case (Inl err)
    with assms l t1 show ?thesis
      by (intro exI[of _ evs1] exI[of _ "[]"]) (auto simp: updateRecord_def)
  next
    case r1: (Inr listId)
    obtain r2 s2 where g: "getSiteId e s1 = (r2, s2)" by (cases "getSiteId e s1")
    from getSiteId_trace[OF g] obtain evs2 where
      t2: "trace s2 = trace s1 @ evs2" "list_all plain_get evs2" by blast
    show ?thesis
    proof (cases r2)
      case (Inl err)
      with assms l r1 g t1 t2 show ?thesis
        by (intro exI[of _ "evs1 @ evs2"] exI[of _ "[]"]) (auto simp: updateRecord_def)
    next
      case r2: (Inr sid)
      let ?ep = "''sites/'' @ sid @ ''/lists/'' @ js_string listId @ ''/items/'' @ js_string itemId @ ''/fields''"
      let ?opts = "\<lparr>init_method = Some PATCH, init_body = Some (JObj flds)\<rparr>"
      from assms l r1 g r2 have m: "makeGraphRequest e ?ep ?opts s2 = (res, s')"
        by (simp add: updateRecord_def)
      from l r1 have c1: "listIdCache s1 listName = Some listId" by (simp add: getListId_ok_cached)
      from g r2 have c2: "listIdCache s2 = listIdCache s1" "siteId s2 = Some sid" "accessToken s2 = accessToken s1"
        using getSiteId_frame getSiteId_ok by blast+
      from l have c3: "accessToken s1 = accessToken s"
        by (auto simp: getListId_def split: option.splits prod.splits sum.splits json.splits if_splits
                 dest!: getSiteId_frame makeGraphRequest_frame)
      from makeGraphRequest_frame[OF m] c1 c2 c3
      have fin: "the (siteId s') = sid" "the (listIdCache s' listName) = listId" "accessToken s2 = accessToken s"
        by simp_all
      from makeGraphRequest_cases[OF m]
      have "(trace s' = trace s2 \<and> (\<forall>v. res \<noteq> Inr v)) \<or>
            trace s' = trace s2 @ [Fetch (graph_request (the (accessToken s2)) ?ep ?opts)]"
        by auto
      then show ?thesis
      proof (elim disjE conjE)
        assume "trace s' = trace s2" "\<forall>v. res \<noteq> Inr v"
        with t1 t2 show ?thesis
          by (intro exI[of _ "evs1 @ evs2"] exI[of _ "[]"]) simp
      next
        assume "trace s' = trace s2 @ [Fetch (graph_request (the (accessToken s2)) ?ep ?opts)]"
        with t1 t2 fin show ?thesis
          by (intro exI[of _ "evs1 @ evs2"]
                exI[of _ "[Fetch (graph_request (the (accessToken s2)) ?ep ?opts)]"])
             (simp add: graph_request_def)
      qed
    qed
  qed
qed

text \<open>
  Witness for C8 on the sample site: an update with the single key \<open>Status\<close> sends two
  lookups and then a PATCH whose body holds that key and nothing else.
\<close>

theorem updateRecord_patch_body_witness:
  "fst (updateRecord (sample_env (\<lambda>h. sample_remote_update)) ''Assets'' (JNum 7) [(''Status'', JStr ''Active'')] sample_service) =
     Inr (JObj [(''Status'', JStr ''Active'')]) \<and>
   trace (snd (updateRecord (sample_env (\<lambda>h. sample_remote_update)) ''Assets'' (JNum 7) [(''Status'', JStr ''Active'')] sample_service)) =
     [Fetch \<lparr>req_url = ''https://graph.microsoft.com/v1.0/sites/contoso.sharepoint.com:/sites/assets'',
              req_method = None, req_authorization = ''Bearer token'', req_body = None\<rparr>,
      Fetch \<lparr>req_url = ''https://graph.microsoft.com/v1.0/sites/site-1/lists'',
              req_method = None, req_authorization = ''Bearer token'', req_body = None\<rparr>,
      Fetch \<lparr>req_url = ''https://graph.microsoft.com/v1.0/sites/site-1/lists/list-assets/items/7/fields'',
              req_method = Some PATCH, req_authorization = ''Bearer token'',
              req_body = Some (JObj [(''Status'', JStr ''Active'')])\<rparr>] \<and>
   safe_integers (JNum 7) \<and>
   (\<exists>lookups patch.
      trace (snd (updateRecord (sample_env (\<lambda>h. sample_remote_update)) ''Assets'' (JNum 7) [(''Status'', JStr ''Active'')] sample_service)) =
        trace sample_service @ lookups @ patch \<and> list_all plain_get lookups \<and> patch \<noteq> [])"
proof -
  let ?e = "sample_env (\<lambda>h. sample_remote_update)"
  let ?u = "updateRecord ?e ''Assets'' (JNum 7) [(''Status'', JStr ''Active'')] sample_service"
  have f: "fst ?u = Inr (JObj [(''Status'', JStr ''Active'')])"
    by code_simp
  then have h: "?u = (Inr (JObj [(''Status'', JStr ''Active'')]), snd ?u)"
    by (simp add: prod_eq_iff)
  have t: "trace (snd ?u) =
     [Fetch \<lparr>req_url = ''https://graph.microsoft.com/v1.0/sites/contoso.sharepoint.com:/sites/assets'',
              req_method = None, req_authorization = ''Bearer token'', req_body = None\<rparr>,
      Fetch \<lparr>req_url = ''https://graph.microsoft.com/v1.0/sites/site-1/lists'',
              req_method = None, req_authorization = ''Bearer token'', req_body = None\<rparr>,
      Fetch \<lparr>req_url = ''https://graph.microsoft.com/v1.0/sites/site-1/lists/list-assets/items/7/fields'',
              req_method = Some PATCH, req_authorization = ''Bearer token'',
              req_body = Some (JObj [(''Status'', JStr ''Active'')])\<rparr>]"
    by code_simp
  have safe: "safe_integers (JNum 7)" by code_simp
  from updateRecord_patch_body[OF h] f t safe show ?thesis
    by blast
qed

section \<open>Pagination of the user listing\<close>

lemma startsWith_append [simp]: "startsWith (p @ s) p"
  by (induction p) auto

lemma replace_prefix: "p \<noteq> [] \<Longrightarrow> replace (p @ s) p r = r @ s"
  by (cases p) auto

lemma traverse_total:
  "\<forall>x\<in>set xs. \<exists>y. f x = Inr y \<Longrightarrow> traverse f xs = Inr (map (\<lambda>x. projr (f x)) xs)"
  by (induction xs) auto

lemma user_view_total: "not_nullish u \<Longrightarrow> \<exists>y. user_view u = Inr y"
  by (cases u) (auto simp: user_view_def)

lemma page_users_page:
  assumes "\<forall>u\<in>set us. not_nullish u"
  shows "page_users (JObj ((''value'', JArr us) # rest)) = Inr (map (\<lambda>u. projr (user_view u)) us)"
proof -
  from assms have "traverse user_view us = Inr (map (\<lambda>u. projr (user_view u)) us)"
    by (intro traverse_total) (auto dest: user_view_total)
  then show ?thesis
    by (cases us) (auto simp: page_users_def field_def)
qed

lemma page_index_endpoint: "page_index (''https://graph.microsoft.com/v1.0/'' @ page_endpoint i) = Some i"
proof (cases i)
  case 0
  then show ?thesis by (simp add: page_index_def page_endpoint_def)
next
  case (Suc k)
  have "''https://graph.microsoft.com/v1.0/'' @ ''users?$skiptoken='' @ replicate (Suc k) CHR ''p''
        \<noteq> ''https://graph.microsoft.com/v1.0/'' @ users_endpoint"
    by (simp add: users_endpoint_def)
  with Suc show ?thesis
    by (simp add: page_index_def page_endpoint_def)
qed

lemma paged_remote_page:
  "i < length pages \<Longrightarrow>
   paged_remote pages (graph_request token (page_endpoint i) no_options) =
     HttpSuccess (JObj ((''value'', JArr (pages ! i)) #
                        (if Suc i < length pages
                         then [(''@odata.nextLink'',
                                JStr (''https://graph.microsoft.com/v1.0/'' @ page_endpoint (Suc i)))]
                         else [])))"
  using page_index_endpoint[of i] by (simp add: paged_remote_def graph_request_def)

lemma users_loop_step:
  assumes tok: "accessToken s = Some token" "token \<noteq> []"
    and fetch: "fetch e = (\<lambda>h. paged_remote pages)"
    and users: "\<forall>p\<in>set pages. \<forall>u\<in>set p. not_nullish u"
    and i: "i < length pages"
  shows "users_loop e (link_of i) i acc s =
     (let s1 = s\<lparr>trace := trace s @ [Fetch (graph_request token (page_endpoint i) no_options)]\<rparr>;
          acc1 = acc @ map (\<lambda>u. projr (user_view u)) (pages ! i)
      in if maxPages \<le> i + 1 then (Inr acc1, s1)
         else if Suc i < length pages then users_loop e (link_of (Suc i)) (i + 1) acc1 s1
         else (Inr acc1, s1))"
proof -
  have ep: "(if truthy (link_of i)
            then (case link_of i of
                    JStr l \<Rightarrow> Inr (replace l ''https://graph.microsoft.com/v1.0/'' [])
                  | _ \<Rightarrow> Inl TypeError)
            else Inr users_endpoint) = Inr (page_endpoint i)"
  proof (cases "i = 0")
    case True
    then show ?thesis by (simp add: link_of_def page_endpoint_def)
  next
    case False
    have "replace (''https://graph.microsoft.com/v1.0/'' @ page_endpoint i) ''https://graph.microsoft.com/v1.0/'' []
          = page_endpoint i"
      by (subst replace_prefix) simp_all
    with False show ?thesis by (simp add: link_of_def)
  qed
  have m: "makeGraphRequest e (page_endpoint i) no_options s =
        (Inr (JObj ((''value'', JArr (pages ! i)) #
                        (if Suc i < length pages
                         then [(''@odata.nextLink'',
                                JStr (''https://graph.microsoft.com/v1.0/'' @ page_endpoint (Suc i)))]
                         else []))),
         s\<lparr>trace := trace s @ [Fetch (graph_request token (page_endpoint i) no_options)]\<rparr>)"
    using tok fetch paged_remote_page[OF i] by (simp add: makeGraphRequest_def)
  from users i have u: "\<forall>u\<in>set (pages ! i). not_nullish u"
    using nth_mem by blast
  have nl: "js_or (prop_of (JObj ((''value'', JArr (pages ! i)) #
                        (if Suc i < length pages
                         then [(''@odata.nextLink'',
                                JStr (''https://graph.microsoft.com/v1.0/'' @ page_endpoint (Suc i)))]
                         else []))) ''@odata.nextLink'') JNull =
            (if Suc i < length pages then link_of (Suc i) else JNull)"
    by (simp add: js_or_def field_def link_of_def)
  show ?thesis
    apply (subst users_loop.simps)
    apply (simp only: ep sum.case m prod.case page_users_page[OF u] nl Let_def)
    apply (simp add: link_of_def)
    done
qed

lemma users_loop_pages:
  assumes tok: "token \<noteq> []"
    and fetch: "fetch e = (\<lambda>h. paged_remote pages)"
    and users: "\<forall>p\<in>set pages. \<forall>u\<in>set p. not_nullish u"
  shows "i < length pages \<Longrightarrow> i < maxPages \<Longrightarrow> accessToken s = Some token \<Longrightarrow>
     users_loop e (link_of i) i acc s =
       (Inr (acc @ concat (map (map (\<lambda>u. projr (user_view u))) (take (maxPages - i) (drop i pages)))),
        s\<lparr>trace := trace s @ map (\<lambda>k. Fetch (graph_request token (page_endpoint k) no_options))
                                [i..<min maxPages (length pages)]\<rparr>)"
proof (induction "min maxPages (length pages) - i" arbitrary: i acc s)
  case 0
  then show ?case by simp
next
  case (Suc d)
  note step = users_loop_step[OF Suc.prems(3) tok fetch users Suc.prems(1), of acc]
  let ?s1 = "s\<lparr>trace := trace s @ [Fetch (graph_request token (page_endpoint i) no_options)]\<rparr>"
  let ?acc1 = "acc @ map (\<lambda>u. projr (user_view u)) (pages ! i)"
  have dr: "drop i pages = pages ! i # drop (Suc i) pages"
    using Suc.prems(1) by (simp add: Cons_nth_drop_Suc)
  have up: "[i..<min maxPages (length pages)] = i # [Suc i..<min maxPages (length pages)]"
    using Suc.prems(1,2) by (simp add: upt_conv_Cons)
  show ?case
  proof (cases "maxPages \<le> i + 1")
    case True
    with Suc.prems(2) have "maxPages - i = 1" "min maxPages (length pages) = Suc i"
      using Suc.prems(1) by auto
    with step True dr show ?thesis by (simp add: Let_def)
  next
    case False
    show ?thesis
    proof (cases "Suc i < length pages")
      case True
      have d: "d = min maxPages (length pages) - Suc i" using Suc.hyps(2) by simp
      have a: "accessToken ?s1 = Some token" using Suc.prems(3) by simp
      from False have lt: "Suc i < maxPages" by simp
      have tk: "take (maxPages - i) (drop i pages) = pages ! i # take (maxPages - Suc i) (drop (Suc i) pages)"
        using dr lt by (simp add: take_Cons')
      from Suc.hyps(1)[OF d True lt a, of ?acc1] step False True tk up
      show ?thesis by (simp add: Let_def)
    next
      case F2: False
      with Suc.prems(1) have "length pages = Suc i" by simp
      with step False F2 dr Suc.prems(2) show ?thesis
        by (simp add: Let_def min_def)
    qed
  qed
qed

text \<open>
  C4. On the simulated listing with at least one page, none of whose users is
  \<^verbatim>\<open>null\<close>, \<^verbatim>\<open>getAllUsers\<close> returns the users of the first fifty pages, in order, and
  sends one request per page it reads, following the continuation links: as many
  requests as there are pages, and fifty when there are more. The loop is a total
  function, so the call returns.
\<close>

theorem getAllUsers_follows_links:
  assumes "accessToken s = Some token" "token \<noteq> []"
    and "fetch e = (\<lambda>h. paged_remote pages)"
    and "pages \<noteq> []"
    and "\<forall>p\<in>set pages. \<forall>u\<in>set p. not_nullish u"
  shows "getAllUsers e s =
           (concat (map (map (\<lambda>u. projr (user_view u))) (take maxPages pages)),
            s\<lparr>trace := trace s @ map (\<lambda>k. Fetch (graph_request token (page_endpoint k) no_options))
                                    [0..<min maxPages (length pages)]\<rparr>)"
proof -
  from assms(4) have "0 < length pages" by simp
  from users_loop_pages[OF assms(2,3,5) this _ assms(1), of "[]"]
  show ?thesis by (simp add: getAllUsers_def link_of_def maxPages_def)
qed

text \<open>
  Witness for C4: three pages of 999 users give 2997 users with three requests; 51 pages
  give the users of fifty pages with fifty requests.
\<close>

theorem getAllUsers_follows_links_witness:
  "length (fst (getAllUsers (sample_env (\<lambda>h. paged_remote (replicate 3 (replicate 999 sample_user)))) sample_service)) = 2997 \<and>
   length (trace (snd (getAllUsers (sample_env (\<lambda>h. paged_remote (replicate 3 (replicate 999 sample_user)))) sample_service))) = 3 \<and>
   length (fst (getAllUsers (sample_env (\<lambda>h. paged_remote (replicate 51 (replicate 999 sample_user)))) sample_service)) = 49950 \<and>
   length (trace (snd (getAllUsers (sample_env (\<lambda>h. paged_remote (replicate 51 (replicate 999 sample_user)))) sample_service))) = 50"
proof -
  have tok: "accessToken sample_service = Some ''token''" "''token'' \<noteq> []"
    by (simp_all add: sample_service_def)
  have tr: "trace sample_service = []"
    by (simp add: sample_service_def)
  have f: "\<And>pages. fetch (sample_env (\<lambda>h. paged_remote pages)) = (\<lambda>h. paged_remote pages)"
    by (simp add: sample_env_def)
  have u: "\<And>n. \<forall>p\<in>set (replicate n (replicate 999 sample_user)). \<forall>u\<in>set p. not_nullish u"
    by (simp add: sample_user_def)
  have ne: "replicate 3 (replicate 999 sample_user) \<noteq> []" "replicate 51 (replicate 999 sample_user) \<noteq> []"
    by simp_all
  note three = getAllUsers_follows_links[OF tok f ne(1) u]
  note many = getAllUsers_follows_links[OF tok f ne(2) u]
  show ?thesis
    unfolding three many
    by (simp add: maxPages_def tr length_concat sum_list_replicate)
qed

section \<open>Resolution of lookup references\<close>

lemma map_of_insert_index:
  "map_of r k = None \<Longrightarrow> map_of (insert_index k v r) = (map_of r)(k \<mapsto> v)"
proof (induction r)
  case Nil
  show ?case by simp
next
  case (Cons p rest)
  obtain k' v' where p: "p = (k', v')" by (cases p)
  from Cons.prems have ne: "k' \<noteq> k" and rest: "map_of rest k = None"
    by (auto simp: p split: if_splits)
  show ?case
    using Cons.IH[OF rest] ne by (auto simp: p fun_upd_twist)
qed

lemma field_set_field_same [simp]: "field (set_field r k v) k = v"
  by (simp add: field_def set_field_def update_conv' map_of_insert_index)

lemma field_set_field_other [simp]: "k' \<noteq> k \<Longrightarrow> field (set_field r k v) k' = field r k'"
  by (simp add: field_def set_field_def update_conv' map_of_insert_index)



text \<open>The identifiers collected from the records.\<close>

lemma collectEmployeeIds_set_aux:
  "set (foldl (\<lambda>ids (k, record).
              (case employeeId k record of
                 Some empId \<Rightarrow> if empId \<in> set ids then ids else ids @ [empId]
               | None \<Rightarrow> ids)) acc ps) =
   set acc \<union> {n. \<exists>(k, r)\<in>set ps. employeeId k r = Some n}"
proof (induction ps arbitrary: acc)
  case Nil
  show ?case by simp
next
  case (Cons p ps)
  obtain k r where p: "p = (k, r)" by (cases p)
  show ?case
    unfolding p foldl_Cons prod.case Cons.IH
    by (cases "employeeId k r") auto
qed

lemma indexed_nth [simp]: "i < length xs \<Longrightarrow> indexed xs ! i = (i, xs ! i)"
  by (simp add: indexed_def)

lemma length_indexed [simp]: "length (indexed xs) = length xs"
  by (simp add: indexed_def)

lemma collectEmployeeIds_mem:
  "i < length records \<Longrightarrow> employeeId i (records ! i) = Some n \<Longrightarrow> n \<in> set (collectEmployeeIds records)"
proof -
  assume i: "i < length records" and e: "employeeId i (records ! i) = Some n"
  from i have "indexed records ! i \<in> set (indexed records)"
    by (intro nth_mem) simp
  with i have "(i, records ! i) \<in> set (indexed records)" by simp
  with e show ?thesis
    unfolding collectEmployeeIds_def collectEmployeeIds_set_aux by auto
qed

lemma populateEmployees_nth:
  "i < length records \<Longrightarrow> populateEmployees cache records ! i = populateEmployee cache i (records ! i)"
  by (simp add: populateEmployees_def)

lemma length_populateEmployees [simp]: "length (populateEmployees cache records) = length records"
  by (simp add: populateEmployees_def)

lemma collectUserIds_set_aux:
  "set (foldl (\<lambda>ids record.
              (let v = field record ''field_2LookupId''
               in if not_nullish v
                  then (if js_string v \<in> set ids then ids else ids @ [js_string v])
                  else ids)) acc records) =
   set acc \<union> {js_string (field r ''field_2LookupId'') | r.
                 r \<in> set records \<and> not_nullish (field r ''field_2LookupId'')}"
  by (induction records arbitrary: acc) (auto simp: Let_def)

lemma collectUserIds_set:
  "set (collectUserIds records) =
     {js_string (field r ''field_2LookupId'') | r.
        r \<in> set records \<and> not_nullish (field r ''field_2LookupId'')}"
  by (simp add: collectUserIds_def collectUserIds_set_aux)

text \<open>What the two callbacks write.\<close>

lemma populateEmployee_cases:
  assumes "employeeId k r = Some n"
  shows "(\<exists>name. cache n = Some name \<and> truthy name \<and>
            populateEmployee cache k r =
              set_field (set_field r ''Employee'' name) ''EmployeeName'' name) \<or>
         ((cache n = None \<or> (\<exists>v. cache n = Some v \<and> \<not> truthy v)) \<and>
            populateEmployee cache k r = set_field r ''Employee'' (JStr (''[ID: '' @ key_string n @ '']'')))"
  using assms by (auto simp: populateEmployee_def Let_def split: option.splits)

lemma populateEmployee_none: "employeeId k r = None \<Longrightarrow> populateEmployee cache k r = r"
  by (simp add: populateEmployee_def)

lemma populateAssignee_cases:
  assumes "not_nullish (field r ''field_2LookupId'')"
  shows "populateAssignee cache r =
     (let userId = js_string (field r ''field_2LookupId'');
          userName = (case cache userId of Some n \<Rightarrow> n | None \<Rightarrow> JUndefined)
      in if truthy (inlineAssignee r)
         then set_field (set_field r ''Assignee'' (inlineAssignee r)) ''AssigneeName'' (inlineAssignee r)
         else if truthy userName
         then set_field (set_field r ''Assignee'' userName) ''AssigneeName'' userName
         else set_field r ''Assignee'' (JStr (''[ID: '' @ userId @ '']'')))"
  using assms by (simp add: populateAssignee_def inlineAssignee_def Let_def)


lemma resolveEmployeeNames_populated:
  assumes rec: "records = firstRecord # others"
    and gate: "\<not> (truthy (field firstRecord ''Employee'') \<and> is_object (field firstRecord ''Employee''))"
    and ok: "resolveEmployeeNames e records sid cachedEmployees s = (Inr records', s')"
    and i: "i < length records" "employeeId i (records ! i) = Some n"
  shows "\<exists>cache. records' = populateEmployees cache records"
proof -
  from i have "n \<in> set (collectEmployeeIds records)"
    by (rule collectEmployeeIds_mem)
  then have ne: "length (collectEmployeeIds records) \<noteq> 0" by auto
  from ok rec gate ne show ?thesis
    by (auto simp: resolveEmployeeNames_def Let_def split: sum.splits prod.splits if_splits option.splits)
qed

lemma resolveAssigneeNames_populated:
  assumes i: "i < length records" "not_nullish (field (records ! i) ''field_2LookupId'')"
  shows "\<exists>cache. fst (resolveAssigneeNames e records cachedEmployees s) = map (populateAssignee cache) records"
proof -
  from i have "js_string (field (records ! i) ''field_2LookupId'') \<in> set (collectUserIds records)"
    by (auto simp: collectUserIds_set)
  then have ne: "length (collectUserIds records) \<noteq> 0" by auto
  then show ?thesis
    by (auto simp: resolveAssigneeNames_def Let_def split: prod.splits)
qed

lemma makeGraphRequest_fails:
  assumes "\<forall>h tok v. fetch e h (graph_request tok ep opts) \<noteq> HttpSuccess v"
  shows "\<exists>err. fst (makeGraphRequest e ep opts s) = Inl err"
  using assms
  by (auto simp: makeGraphRequest_def Let_def split: option.splits response.splits)

lemma cacheExtracted_other: "k \<noteq> m \<Longrightarrow> cacheExtracted item m c k = c k"
  by (simp add: cacheExtracted_def split: sum.splits)

lemma fetchEmployeeName_other:
  assumes "fetchEmployeeName e sid lid m c s = (c', s')" "k \<noteq> m"
  shows "c' k = c k"
  using assms
  by (auto simp: fetchEmployeeName_def cacheExtracted_other
           split: prod.splits sum.splits if_splits option.splits)

lemma fetchEmployeeName_unresolved:
  assumes remote: "\<forall>h tok lid v. fetch e h (graph_request tok (item_endpoint sid lid n) no_options) \<noteq> HttpSuccess v"
    and f: "fetchEmployeeName e sid employeesListId n c s = (c', s')"
  shows "c' = c"
proof -
  have fail: "\<And>lid t. \<exists>err. fst (makeGraphRequest e (item_endpoint sid lid n) no_options t) = Inl err"
    using remote by (intro makeGraphRequest_fails) blast
  have first: "(if truthy employeesListId then
              (case makeGraphRequest e (item_endpoint sid employeesListId n) no_options s of
                 (Inl err, s') \<Rightarrow> (JNull, s')
               | (Inr item, s') \<Rightarrow> (item, s'))
            else (JNull, s)) =
        (JNull, if truthy employeesListId
                then snd (makeGraphRequest e (item_endpoint sid employeesListId n) no_options s) else s)"
    using fail[of employeesListId s]
    by (cases "makeGraphRequest e (item_endpoint sid employeesListId n) no_options s") auto
  define s1 where "s1 = (if truthy employeesListId
                then snd (makeGraphRequest e (item_endpoint sid employeesListId n) no_options s) else s)"
  obtain r2 s2 where l: "getListId e ''Access Cards'' s1 = (r2, s2)"
    by (cases "getListId e ''Access Cards'' s1")
  show ?thesis
  proof (cases r2)
    case (Inl err)
    with f l show ?thesis
      unfolding fetchEmployeeName_def first s1_def[symmetric] by simp
  next
    case (Inr accessCardsListId)
    obtain r3 s3 where m: "makeGraphRequest e (item_endpoint sid accessCardsListId n) no_options s2 = (r3, s3)"
      by (cases "makeGraphRequest e (item_endpoint sid accessCardsListId n) no_options s2")
    with fail[of accessCardsListId s2] obtain err where "r3 = Inl err" by auto
    with f l Inr m show ?thesis
      unfolding fetchEmployeeName_def first s1_def[symmetric] by simp
  qed
qed

lemma fetchEmployeeNames_unresolved:
  assumes remote: "\<forall>h tok lid v. fetch e h (graph_request tok (item_endpoint sid lid n) no_options) \<noteq> HttpSuccess v"
  shows "c n = None \<Longrightarrow> fetchEmployeeNames e sid employeesListId ids c s = (c', s') \<Longrightarrow> c' n = None"
proof (induction ids arbitrary: c s)
  case Nil
  then show ?case by simp
next
  case (Cons m ids)
  obtain c1 s1 where f: "fetchEmployeeName e sid employeesListId m c s = (c1, s1)"
    by (cases "fetchEmployeeName e sid employeesListId m c s")
  have "c1 n = None"
  proof (cases "m = n")
    case True
    with f fetchEmployeeName_unresolved[OF remote] Cons.prems(1) show ?thesis by metis
  next
    case False
    with fetchEmployeeName_other[OF f, of n] Cons.prems(1) show ?thesis by simp
  qed
  with Cons.IH[of c1 s1] Cons.prems(2) f show ?case by simp
qed

lemma findCachedEmployee_found:
  "findCachedEmployee cached m = Inr emp \<Longrightarrow> truthy emp \<Longrightarrow>
     emp \<in> set cached \<and> same_key (prop_of emp ''Id'') m"
proof (induction cached)
  case Nil
  then show ?case by simp
next
  case (Cons a cached)
  then show ?case
    by (auto split: sum.splits if_splits dest!: get_Inr)
qed

lemma useCachedEmployees_unresolved:
  assumes none: "\<forall>emp\<in>set cached. \<not> same_key (prop_of emp ''Id'') n"
  shows "c n = None \<Longrightarrow> useCachedEmployees cached ids c remaining = Inr (c', remaining') \<Longrightarrow> c' n = None"
proof (induction ids arbitrary: c remaining)
  case Nil
  then show ?case by simp
next
  case (Cons m ids)
  from Cons.prems(2) obtain emp where fc: "findCachedEmployee cached m = Inr emp"
    by (cases "findCachedEmployee cached m") auto
  show ?case
  proof (cases "truthy emp")
    case False
    with Cons.prems(2) fc have "useCachedEmployees cached ids c remaining = Inr (c', remaining')"
      by simp
    with Cons.IH[of c remaining] Cons.prems(1) show ?thesis by blast
  next
    case True
    from findCachedEmployee_found[OF fc True] none have mn: "m \<noteq> n" by blast
    from Cons.prems(2) fc True obtain name where
      ex: "extractEmployeeName (JObj [(''fields'', emp)]) = Inr name"
      by (cases "extractEmployeeName (JObj [(''fields'', emp)])") auto
    show ?thesis
    proof (cases "truthy name")
      case False
      with Cons.prems(2) fc True ex
      have "useCachedEmployees cached ids c remaining = Inr (c', remaining')" by simp
      with Cons.IH[of c remaining] Cons.prems(1) show ?thesis by blast
    next
      case T2: True
      with Cons.prems(2) fc True ex
      have r: "useCachedEmployees cached ids (c(m \<mapsto> name)) (removeAll m remaining) = Inr (c', remaining')"
        by simp
      from mn Cons.prems(1) have "(c(m \<mapsto> name)) n = None" by simp
      from Cons.IH[of "c(m \<mapsto> name)" "removeAll m remaining"] this r show ?thesis by blast
    qed
  qed
qed

lemma resolveEmployeeNames_not_expanded:
  assumes "records = firstRecord # others"
    and "\<not> (truthy (field firstRecord ''Employee'') \<and> is_object (field firstRecord ''Employee''))"
  shows "resolveEmployeeNames e records sid cachedEmployees s =
            (let employeeIdsToFetch = collectEmployeeIds records
             in if length employeeIdsToFetch = 0 then (Inr records, s)
                else
                  (case (case cachedEmployees of
                           Some cached \<Rightarrow>
                             if 0 < length cached
                             then useCachedEmployees cached employeeIdsToFetch Map.empty employeeIdsToFetch
                             else Inr (Map.empty, employeeIdsToFetch)
                         | None \<Rightarrow> Inr (Map.empty, employeeIdsToFetch)) of
                     Inl err \<Rightarrow> (Inl err, s)
                   | Inr (cache, remaining) \<Rightarrow>
                       if length remaining = 0 then (Inr (populateEmployees cache records), s)
                       else
                         (case (case getListId e ''Employees'' s of
                                  (Inl err, s') \<Rightarrow> (JNull, s')
                                | (Inr i, s') \<Rightarrow> (i, s')) of
                            (employeesListId, s1) \<Rightarrow>
                              (case fetchEmployeeNames e sid employeesListId remaining cache s1 of
                                 (cache', s2) \<Rightarrow> (Inr (populateEmployees cache' records), s2)))))"
proof -
  from assms(2)
  have g: "(truthy (field firstRecord ''Employee'') \<and> is_object (field firstRecord ''Employee'')) = False"
    by simp
  show ?thesis
    unfolding resolveEmployeeNames_def assms(1) by (simp only: list.case g if_False)
qed

text \<open>The name cache that fills the records has no entry for an identifier no tier resolves.\<close>

lemma resolveEmployeeNames_unresolved:
  assumes rec: "records = firstRecord # others"
    and gate: "\<not> (truthy (field firstRecord ''Employee'') \<and> is_object (field firstRecord ''Employee''))"
    and i: "i < length records" "employeeId i (records ! i) = Some n"
    and cached: "\<forall>cached. cachedEmployees = Some cached \<longrightarrow>
                   (\<forall>emp\<in>set cached. \<not> same_key (prop_of emp ''Id'') n)"
    and remote: "\<forall>h tok lid v. fetch e h (graph_request tok (item_endpoint sid lid n) no_options) \<noteq> HttpSuccess v"
    and ok: "resolveEmployeeNames e records sid cachedEmployees s = (Inr records', s')"
  shows "\<exists>cache. cache n = None \<and> records' = populateEmployees cache records"
proof -
  let ?ids = "collectEmployeeIds records"
  from i have "n \<in> set ?ids" by (rule collectEmployeeIds_mem)
  then have ne: "length ?ids \<noteq> 0" by auto
  define tier where "tier =
     (case cachedEmployees of
        Some cached \<Rightarrow>
          if 0 < length cached
          then useCachedEmployees cached ?ids Map.empty ?ids
          else Inr (Map.empty, ?ids)
      | None \<Rightarrow> Inr (Map.empty, ?ids))"
  note unf = resolveEmployeeNames_not_expanded[OF rec gate, of e sid cachedEmployees s,
      unfolded Let_def, folded tier_def]
  from ok ne obtain cache remaining where t: "tier = Inr (cache, remaining)"
    unfolding unf by (cases tier) auto
  have cn: "cache n = None"
  proof (cases cachedEmployees)
    case None
    with t show ?thesis by (auto simp: tier_def)
  next
    case (Some cached)
    with cached have "\<forall>emp\<in>set cached. \<not> same_key (prop_of emp ''Id'') n" by simp
    from useCachedEmployees_unresolved[OF this, of Map.empty ?ids ?ids cache remaining] t Some
    show ?thesis by (auto simp: tier_def split: if_splits)
  qed
  show ?thesis
  proof (cases "length remaining = 0")
    case True
    with ok ne t have "records' = populateEmployees cache records"
      unfolding unf by simp
    with cn show ?thesis by blast
  next
    case False
    define ls where "ls = (case getListId e ''Employees'' s of
                                  (Inl err, s') \<Rightarrow> (JNull, s')
                                | (Inr i, s') \<Rightarrow> (i, s'))"
    obtain lid s1 where l: "ls = (lid, s1)" by (cases ls)
    obtain cache' s2 where f: "fetchEmployeeNames e sid lid remaining cache s1 = (cache', s2)"
      by (cases "fetchEmployeeNames e sid lid remaining cache s1")
    from ok ne t False l f have "records' = populateEmployees cache' records"
      unfolding unf ls_def[symmetric] by simp
    moreover from fetchEmployeeNames_unresolved[OF remote cn f] have "cache' n = None" .
    ultimately show ?thesis by blast
  qed
qed

lemma fetchUserName_other:
  "fetchUserName e u c s = (c', s') \<Longrightarrow> k \<noteq> u \<Longrightarrow> c' k = c k"
  by (auto simp: fetchUserName_def Let_def split: if_splits prod.splits sum.splits)

lemma resolveUserName_other:
  "resolveUserName e records cachedEmployees u c s = (c', s') \<Longrightarrow> k \<noteq> u \<Longrightarrow> c' k = c k"
  by (auto simp: resolveUserName_def split: if_splits sum.splits dest: fetchUserName_other)

lemma fetchUserName_unresolved:
  assumes "\<forall>h tok v. fetch e h (graph_request tok (''users/'' @ u) no_options) \<noteq> HttpSuccess v"
    and "fetchUserName e u c s = (c', s')"
  shows "c' = c"
proof (cases "isGuidFormat u")
  case False
  with assms(2) show ?thesis by (simp add: fetchUserName_def)
next
  case True
  obtain r1 s1 where m: "makeGraphRequest e (''users/'' @ u) no_options s = (r1, s1)"
    by (cases "makeGraphRequest e (''users/'' @ u) no_options s")
  with makeGraphRequest_fails[OF assms(1), of s] obtain err where "r1 = Inl err" by auto
  with assms(2) True m show ?thesis by (simp add: fetchUserName_def)
qed

lemma inlineUserName_none:
  assumes "\<forall>r\<in>set records. field r ''field_2LookupId'' = JStr u \<longrightarrow>
             \<not> (truthy (field r ''field_2'') \<and> is_object (field r ''field_2''))"
  shows "inlineUserName records u = JUndefined"
proof (cases "find (\<lambda>r. field r ''field_2LookupId'' = JStr u) records")
  case None
  then show ?thesis by (simp add: inlineUserName_def)
next
  case (Some r)
  then have "r \<in> set records" "field r ''field_2LookupId'' = JStr u"
    by (auto simp: find_Some_iff)
  with assms have "\<not> (truthy (field r ''field_2'') \<and> is_object (field r ''field_2''))" by blast
  with Some show ?thesis by (auto simp: inlineUserName_def Let_def)
qed

lemma cachedUserName_none:
  assumes "\<forall>cached m. cachedEmployees = Some cached \<and> parseInt u = Some m \<longrightarrow>
             (\<forall>emp\<in>set cached. lookup_number (prop_of emp ''Id'') \<noteq> Some m)"
    and "cachedUserName cachedEmployees u = Inr name"
  shows "\<not> truthy name"
proof (rule ccontr)
  assume "\<not> \<not> truthy name"
  then have t: "truthy name" by simp
  with assms(2) obtain cached m emp where
    c: "cachedEmployees = Some cached" "parseInt u = Some m"
    and f: "findCachedEmployee cached (NumberKey m) = Inr emp" "truthy emp"
    by (auto simp: cachedUserName_def split: option.splits if_splits sum.splits)
  from findCachedEmployee_found[OF f] assms(1) c show False by auto
qed

lemma resolveUserName_unresolved:
  assumes inl: "\<forall>r\<in>set records. field r ''field_2LookupId'' = JStr u \<longrightarrow>
                  \<not> (truthy (field r ''field_2'') \<and> is_object (field r ''field_2''))"
    and cached: "\<forall>cached m. cachedEmployees = Some cached \<and> parseInt u = Some m \<longrightarrow>
             (\<forall>emp\<in>set cached. lookup_number (prop_of emp ''Id'') \<noteq> Some m)"
    and remote: "\<forall>h tok v. fetch e h (graph_request tok (''users/'' @ u) no_options) \<noteq> HttpSuccess v"
    and r: "resolveUserName e records cachedEmployees u c s = (c', s')"
  shows "c' = c"
proof (cases "cachedUserName cachedEmployees u")
  case (Inl err)
  with r inlineUserName_none[OF inl] show ?thesis
    by (simp add: resolveUserName_def)
next
  case (Inr name)
  from cachedUserName_none[OF cached Inr] r Inr inlineUserName_none[OF inl]
  have "fetchUserName e u c s = (c', s')" by (simp add: resolveUserName_def)
  from fetchUserName_unresolved[OF remote this] show ?thesis .
qed

lemma resolveUserNames_unresolved:
  assumes inl: "\<forall>r\<in>set records. field r ''field_2LookupId'' = JStr u \<longrightarrow>
                  \<not> (truthy (field r ''field_2'') \<and> is_object (field r ''field_2''))"
    and cached: "\<forall>cached m. cachedEmployees = Some cached \<and> parseInt u = Some m \<longrightarrow>
             (\<forall>emp\<in>set cached. lookup_number (prop_of emp ''Id'') \<noteq> Some m)"
    and remote: "\<forall>h tok v. fetch e h (graph_request tok (''users/'' @ u) no_options) \<noteq> HttpSuccess v"
  shows "c u = None \<Longrightarrow> resolveUserNames e records cachedEmployees ids c s = (c', s') \<Longrightarrow> c' u = None"
proof (induction ids arbitrary: c s)
  case Nil
  then show ?case by simp
next
  case (Cons m ids)
  obtain c1 s1 where f: "resolveUserName e records cachedEmployees m c s = (c1, s1)"
    by (cases "resolveUserName e records cachedEmployees m c s")
  have "c1 u = None"
  proof (cases "m = u")
    case True
    with f resolveUserName_unresolved[OF inl cached remote] Cons.prems(1) show ?thesis by metis
  next
    case False
    with resolveUserName_other[OF f, of u] Cons.prems(1) show ?thesis by simp
  qed
  with Cons.IH[of c1 s1] Cons.prems(2) f show ?case by simp
qed

lemma resolveAssigneeNames_unresolved:
  assumes i: "i < length records" "not_nullish (field (records ! i) ''field_2LookupId'')"
    and inl: "\<forall>r\<in>set records.
                field r ''field_2LookupId'' = JStr (js_string (field (records ! i) ''field_2LookupId'')) \<longrightarrow>
                \<not> (truthy (field r ''field_2'') \<and> is_object (field r ''field_2''))"
    and cached: "\<forall>cached m. cachedEmployees = Some cached \<and>
                   parseInt (js_string (field (records ! i) ''field_2LookupId'')) = Some m \<longrightarrow>
                   (\<forall>emp\<in>set cached. lookup_number (prop_of emp ''Id'') \<noteq> Some m)"
    and remote: "\<forall>h tok v. fetch e h (graph_request tok
                   (''users/'' @ js_string (field (records ! i) ''field_2LookupId'')) no_options) \<noteq> HttpSuccess v"
  shows "\<exists>cache. cache (js_string (field (records ! i) ''field_2LookupId'')) = None \<and>
           fst (resolveAssigneeNames e records cachedEmployees s) = map (populateAssignee cache) records"
proof -
  let ?u = "js_string (field (records ! i) ''field_2LookupId'')"
  from i have "?u \<in> set (collectUserIds records)"
    by (auto simp: collectUserIds_set)
  then have ne: "length (collectUserIds records) \<noteq> 0" by auto
  obtain cache s' where r: "resolveUserNames e records cachedEmployees (collectUserIds records) Map.empty s = (cache, s')"
    by (cases "resolveUserNames e records cachedEmployees (collectUserIds records) Map.empty s")
  from resolveUserNames_unresolved[OF inl cached remote _ r] have "cache ?u = None" by simp
  moreover from ne r have "fst (resolveAssigneeNames e records cachedEmployees s) = map (populateAssignee cache) records"
    by (simp add: resolveAssigneeNames_def Let_def)
  ultimately show ?thesis by blast
qed



text \<open>
  C2 (amended). When the \<^verbatim>\<open>Employee\<close> field of the first record is not an expanded
  mapping, a record whose \<^verbatim>\<open>EmployeeLookupId\<close> passes the test of the code (a number
  greater than zero, a string that parses to one, \<^verbatim>\<open>true\<close>, or an array that converts to
  one), with numbers within the safe integers, and that no tier resolves (no cached
  employee has this identifier and no request for the item succeeds) gets \<^verbatim>\<open>Employee\<close>
  set to \<^verbatim>\<open>[ID: id]\<close> for its identifier printed as a string. An asset whose
  \<^verbatim>\<open>field_2LookupId\<close> is present, with numbers within the safe integers, and that no
  tier resolves gets \<^verbatim>\<open>Assignee\<close> set to \<^verbatim>\<open>[ID: id]\<close> for the identifier printed as a
  string. No tier resolves it when its own \<^verbatim>\<open>field_2\<close> is not an expanded mapping, no
  record whose \<^verbatim>\<open>field_2LookupId\<close> is that string has an expanded \<^verbatim>\<open>field_2\<close>, no cached
  employee has the number the string parses to, and no request for the user succeeds.
\<close>

theorem unresolved_placeholder:
  "(records = firstRecord # others \<and>
    \<not> (truthy (field firstRecord ''Employee'') \<and> is_object (field firstRecord ''Employee'')) \<and>
    i < length records \<and> employeeId i (records ! i) = Some n \<and> safe_key n \<and>
    (\<forall>cached. cachedEmployees = Some cached \<longrightarrow>
       (\<forall>emp\<in>set cached. \<not> same_key (prop_of emp ''Id'') n)) \<and>
    (\<forall>h tok lid v. fetch e h (graph_request tok (item_endpoint sid lid n) no_options) \<noteq> HttpSuccess v) \<and>
    resolveEmployeeNames e records sid cachedEmployees s = (Inr records', s') \<longrightarrow>
      field (records' ! i) ''Employee'' = JStr (''[ID: '' @ key_string n @ '']'')) \<and>
   (j < length assets \<and> not_nullish (field (assets ! j) ''field_2LookupId'') \<and>
    safe_integers (field (assets ! j) ''field_2LookupId'') \<and>
    safe_parse (js_string (field (assets ! j) ''field_2LookupId'')) \<and>
    \<not> (truthy (field (assets ! j) ''field_2'') \<and> is_object (field (assets ! j) ''field_2'')) \<and>
    (\<forall>r\<in>set assets.
       field r ''field_2LookupId'' = JStr (js_string (field (assets ! j) ''field_2LookupId'')) \<longrightarrow>
       \<not> (truthy (field r ''field_2'') \<and> is_object (field r ''field_2''))) \<and>
    (\<forall>cached m. cachedEmployees = Some cached \<and>
         parseInt (js_string (field (assets ! j) ''field_2LookupId'')) = Some m \<longrightarrow>
         (\<forall>emp\<in>set cached. lookup_number (prop_of emp ''Id'') \<noteq> Some m)) \<and>
    (\<forall>h tok v. fetch e h (graph_request tok
         (''users/'' @ js_string (field (assets ! j) ''field_2LookupId'')) no_options) \<noteq> HttpSuccess v) \<longrightarrow>
      field (fst (resolveAssigneeNames e assets cachedEmployees s) ! j) ''Assignee'' =
        JStr (''[ID: '' @ js_string (field (assets ! j) ''field_2LookupId'') @ '']''))"
proof (intro conjI impI)
  assume a: "records = firstRecord # others \<and>
    \<not> (truthy (field firstRecord ''Employee'') \<and> is_object (field firstRecord ''Employee'')) \<and>
    i < length records \<and> employeeId i (records ! i) = Some n \<and> safe_key n \<and>
    (\<forall>cached. cachedEmployees = Some cached \<longrightarrow>
       (\<forall>emp\<in>set cached. \<not> same_key (prop_of emp ''Id'') n)) \<and>
    (\<forall>h tok lid v. fetch e h (graph_request tok (item_endpoint sid lid n) no_options) \<noteq> HttpSuccess v) \<and>
    resolveEmployeeNames e records sid cachedEmployees s = (Inr records', s')"
  then obtain cache where c: "cache n = None" "records' = populateEmployees cache records"
    using resolveEmployeeNames_unresolved[of records firstRecord others i n cachedEmployees e sid s records' s']
    by blast
  from a have il: "i < length records" and eid: "employeeId i (records ! i) = Some n" by blast+
  from populateEmployee_cases[OF eid, of cache] c(1)
  have "populateEmployee cache i (records ! i) =
          set_field (records ! i) ''Employee'' (JStr (''[ID: '' @ key_string n @ '']''))"
    by auto
  moreover from c(2) il have "records' ! i = populateEmployee cache i (records ! i)"
    by (simp only: populateEmployees_nth)
  ultimately show "field (records' ! i) ''Employee'' = JStr (''[ID: '' @ key_string n @ '']'')"
    by simp
next
  let ?u = "js_string (field (assets ! j) ''field_2LookupId'')"
  assume a: "j < length assets \<and> not_nullish (field (assets ! j) ''field_2LookupId'') \<and>
    safe_integers (field (assets ! j) ''field_2LookupId'') \<and>
    safe_parse ?u \<and>
    \<not> (truthy (field (assets ! j) ''field_2'') \<and> is_object (field (assets ! j) ''field_2'')) \<and>
    (\<forall>r\<in>set assets. field r ''field_2LookupId'' = JStr ?u \<longrightarrow>
       \<not> (truthy (field r ''field_2'') \<and> is_object (field r ''field_2''))) \<and>
    (\<forall>cached m. cachedEmployees = Some cached \<and> parseInt ?u = Some m \<longrightarrow>
         (\<forall>emp\<in>set cached. lookup_number (prop_of emp ''Id'') \<noteq> Some m)) \<and>
    (\<forall>h tok v. fetch e h (graph_request tok (''users/'' @ ?u) no_options) \<noteq> HttpSuccess v)"
  then obtain cache where c: "cache ?u = None"
      "fst (resolveAssigneeNames e assets cachedEmployees s) = map (populateAssignee cache) assets"
    using resolveAssigneeNames_unresolved[of j assets cachedEmployees e s] by blast
  from a have "\<not> (truthy (field (assets ! j) ''field_2'') \<and> is_object (field (assets ! j) ''field_2''))"
    by blast
  then have "inlineAssignee (assets ! j) = JUndefined" by (auto simp: inlineAssignee_def Let_def)
  with a c(1) have "populateAssignee cache (assets ! j) =
      set_field (assets ! j) ''Assignee'' (JStr (''[ID: '' @ ?u @ '']''))"
    by (simp add: populateAssignee_cases)
  with a c(2) show "field (fst (resolveAssigneeNames e assets cachedEmployees s) ! j) ''Assignee'' =
        JStr (''[ID: '' @ ?u @ '']'')"
    by simp
qed

text \<open>
  C3 (amended). When the \<^verbatim>\<open>Employee\<close> field of the first record is not an expanded
  mapping, every record whose \<^verbatim>\<open>EmployeeLookupId\<close> passes the test of the code (a number
  greater than zero, a string that parses to one, \<^verbatim>\<open>true\<close>, or an array that converts to
  one), with numbers within the safe integers, ends with \<^verbatim>\<open>Employee\<close> and
  \<^verbatim>\<open>EmployeeName\<close> both equal to the resolved name, or with \<^verbatim>\<open>Employee\<close> equal to the
  placeholder \<^verbatim>\<open>[ID: id]\<close> and \<^verbatim>\<open>EmployeeName\<close> as it was. Every asset with a
  \<^verbatim>\<open>field_2LookupId\<close> whose numbers are within the safe integers ends with \<^verbatim>\<open>Assignee\<close>
  and \<^verbatim>\<open>AssigneeName\<close> both equal to the resolved name, or with \<^verbatim>\<open>Assignee\<close> equal to
  the placeholder and \<^verbatim>\<open>AssigneeName\<close> as it was.
\<close>

theorem resolved_or_placeholder:
  "(records = firstRecord # others \<and>
    \<not> (truthy (field firstRecord ''Employee'') \<and> is_object (field firstRecord ''Employee'')) \<and>
    i < length records \<and> employeeId i (records ! i) = Some n \<and> safe_key n \<and>
    resolveEmployeeNames e records sid cachedEmployees s = (Inr records', s') \<longrightarrow>
      (\<exists>name. truthy name \<and> field (records' ! i) ''Employee'' = name \<and>
               field (records' ! i) ''EmployeeName'' = name) \<or>
      (field (records' ! i) ''Employee'' = JStr (''[ID: '' @ key_string n @ '']'') \<and>
       field (records' ! i) ''EmployeeName'' = field (records ! i) ''EmployeeName'')) \<and>
   (j < length assets \<and> not_nullish (field (assets ! j) ''field_2LookupId'') \<and>
    safe_integers (field (assets ! j) ''field_2LookupId'') \<longrightarrow>
      (\<exists>name. truthy name \<and>
         field (fst (resolveAssigneeNames e assets cachedEmployees s) ! j) ''Assignee'' = name \<and>
         field (fst (resolveAssigneeNames e assets cachedEmployees s) ! j) ''AssigneeName'' = name) \<or>
      (field (fst (resolveAssigneeNames e assets cachedEmployees s) ! j) ''Assignee'' =
         JStr (''[ID: '' @ js_string (field (assets ! j) ''field_2LookupId'') @ '']'') \<and>
       field (fst (resolveAssigneeNames e assets cachedEmployees s) ! j) ''AssigneeName'' =
         field (assets ! j) ''AssigneeName''))"
proof (intro conjI impI)
  assume a: "records = firstRecord # others \<and>
    \<not> (truthy (field firstRecord ''Employee'') \<and> is_object (field firstRecord ''Employee'')) \<and>
    i < length records \<and> employeeId i (records ! i) = Some n \<and> safe_key n \<and>
    resolveEmployeeNames e records sid cachedEmployees s = (Inr records', s')"
  then obtain cache where c: "records' = populateEmployees cache records"
    using resolveEmployeeNames_populated[of records firstRecord others e sid cachedEmployees s records' s' i n]
    by blast
  from a have il: "i < length records" and eid: "employeeId i (records ! i) = Some n" by blast+
  from c il have r: "records' ! i = populateEmployee cache i (records ! i)"
    by (simp only: populateEmployees_nth)
  from populateEmployee_cases[OF eid, of cache]
  show "(\<exists>name. truthy name \<and> field (records' ! i) ''Employee'' = name \<and>
               field (records' ! i) ''EmployeeName'' = name) \<or>
      (field (records' ! i) ''Employee'' = JStr (''[ID: '' @ key_string n @ '']'') \<and>
       field (records' ! i) ''EmployeeName'' = field (records ! i) ''EmployeeName'')"
    unfolding r by (elim conjE disjE exE) simp_all
next
  let ?r = "fst (resolveAssigneeNames e assets cachedEmployees s) ! j"
  let ?u = "js_string (field (assets ! j) ''field_2LookupId'')"
  assume a: "j < length assets \<and> not_nullish (field (assets ! j) ''field_2LookupId'') \<and>
    safe_integers (field (assets ! j) ''field_2LookupId'')"
  then obtain cache where
    c: "fst (resolveAssigneeNames e assets cachedEmployees s) = map (populateAssignee cache) assets"
    using resolveAssigneeNames_populated[of j assets e cachedEmployees s] by blast
  with a have r: "?r = populateAssignee cache (assets ! j)" by simp
  from a have p: "populateAssignee cache (assets ! j) =
     (let userName = (case cache ?u of Some n \<Rightarrow> n | None \<Rightarrow> JUndefined)
      in if truthy (inlineAssignee (assets ! j))
         then set_field (set_field (assets ! j) ''Assignee'' (inlineAssignee (assets ! j)))
                ''AssigneeName'' (inlineAssignee (assets ! j))
         else if truthy userName
         then set_field (set_field (assets ! j) ''Assignee'' userName) ''AssigneeName'' userName
         else set_field (assets ! j) ''Assignee'' (JStr (''[ID: '' @ ?u @ '']'')))"
    by (simp add: populateAssignee_cases Let_def)
  show "(\<exists>name. truthy name \<and> field ?r ''Assignee'' = name \<and> field ?r ''AssigneeName'' = name) \<or>
      (field ?r ''Assignee'' = JStr (''[ID: '' @ ?u @ '']'') \<and>
       field ?r ''AssigneeName'' = field (assets ! j) ''AssigneeName'')"
    unfolding r p by (simp add: Let_def)
qed



lemma sample_item_fails:
  "\<forall>h tok lid v. fetch (sample_env (\<lambda>h. sample_remote)) h
      (graph_request tok (item_endpoint ''site-1'' lid (NumberKey 42)) no_options) \<noteq> HttpSuccess v"
  by (simp add: sample_env_def sample_remote_def graph_request_def item_endpoint_def)

lemma sample_user_fails:
  "\<forall>h tok v. fetch (sample_env (\<lambda>h. sample_remote)) h
      (graph_request tok (''users/'' @ ''42'') no_options) \<noteq> HttpSuccess v"
  by (simp add: sample_env_def sample_remote_def graph_request_def)

text \<open>
  Witness for C2 (amended): the identifier 42 on the sample site, where no item and no
  user can be fetched, for an access card and for an asset. The asset stands beside an
  asset with another identifier and an expanded \<^verbatim>\<open>field_2\<close>, which gets its name. An
  access card whose identifier is \<^verbatim>\<open>true\<close> gets \<^verbatim>\<open>[ID: true]\<close>.
\<close>

theorem unresolved_placeholder_witness:
  "employeeId 0 [(''Id'', JStr ''1''), (''EmployeeLookupId'', JNum 42)] = Some (NumberKey 42) \<and>
   key_string (NumberKey 42) = ''42'' \<and>
   fst (resolveEmployeeNames (sample_env (\<lambda>h. sample_remote))
          [[(''Id'', JStr ''1''), (''EmployeeLookupId'', JBool True)]] ''site-1'' None sample_service) =
     Inr [[(''Id'', JStr ''1''), (''EmployeeLookupId'', JBool True), (''Employee'', JStr ''[ID: true]'')]] \<and>
   fst (resolveEmployeeNames (sample_env (\<lambda>h. sample_remote))
          [[(''Id'', JStr ''1''), (''EmployeeLookupId'', JNum 42)]] ''site-1'' None sample_service) =
     Inr [[(''Id'', JStr ''1''), (''EmployeeLookupId'', JNum 42), (''Employee'', JStr ''[ID: 42]'')]] \<and>
   fst (resolveAssigneeNames (sample_env (\<lambda>h. sample_remote))
          [[(''Id'', JStr ''1''), (''field_2LookupId'', JNum 42)],
           [(''Id'', JStr ''2''), (''field_2LookupId'', JNum 7),
            (''field_2'', JObj [(''displayName'', JStr ''Ann Lee'')])]] None sample_service) =
     [[(''Id'', JStr ''1''), (''field_2LookupId'', JNum 42), (''Assignee'', JStr ''[ID: 42]'')],
      [(''Id'', JStr ''2''), (''field_2LookupId'', JNum 7),
       (''field_2'', JObj [(''displayName'', JStr ''Ann Lee'')]),
       (''Assignee'', JStr ''Ann Lee''), (''AssigneeName'', JStr ''Ann Lee'')]] \<and>
   field (fst (resolveAssigneeNames (sample_env (\<lambda>h. sample_remote))
                 [[(''Id'', JStr ''1''), (''field_2LookupId'', JNum 42)],
                  [(''Id'', JStr ''2''), (''field_2LookupId'', JNum 7),
                   (''field_2'', JObj [(''displayName'', JStr ''Ann Lee'')])]] None sample_service) ! 0)
     ''Assignee'' = JStr ''[ID: 42]''"
proof -
  let ?e = "sample_env (\<lambda>h. sample_remote)"
  let ?r = "[(''Id'', JStr ''1''), (''EmployeeLookupId'', JNum 42)]"
  let ?a = "[(''Id'', JStr ''1''), (''field_2LookupId'', JNum 42)]"
  let ?b = "[(''Id'', JStr ''2''), (''field_2LookupId'', JNum 7),
             (''field_2'', JObj [(''displayName'', JStr ''Ann Lee'')])]"
  let ?res = "resolveEmployeeNames ?e [?r] ''site-1'' None sample_service"
  have f: "fst ?res = Inr [[(''Id'', JStr ''1''), (''EmployeeLookupId'', JNum 42), (''Employee'', JStr ''[ID: 42]'')]]"
    by code_simp
  then have h: "?res = (Inr [[(''Id'', JStr ''1''), (''EmployeeLookupId'', JNum 42), (''Employee'', JStr ''[ID: 42]'')]], snd ?res)"
    by (simp add: prod_eq_iff)
  have g: "fst (resolveAssigneeNames ?e [?a, ?b] None sample_service) =
     [[(''Id'', JStr ''1''), (''field_2LookupId'', JNum 42), (''Assignee'', JStr ''[ID: 42]'')],
      [(''Id'', JStr ''2''), (''field_2LookupId'', JNum 7),
       (''field_2'', JObj [(''displayName'', JStr ''Ann Lee'')]),
       (''Assignee'', JStr ''Ann Lee''), (''AssigneeName'', JStr ''Ann Lee'')]]"
    by code_simp
  have eid: "employeeId 0 ?r = Some (NumberKey 42)" by code_simp
  have tr: "fst (resolveEmployeeNames ?e
          [[(''Id'', JStr ''1''), (''EmployeeLookupId'', JBool True)]] ''site-1'' None sample_service) =
     Inr [[(''Id'', JStr ''1''), (''EmployeeLookupId'', JBool True), (''Employee'', JStr ''[ID: true]'')]]"
    by code_simp
  have gate: "\<not> (truthy (field ?r ''Employee'') \<and> is_object (field ?r ''Employee''))"
    by (simp add: field_def)
  have s42: "key_string (NumberKey 42) = ''42''" by code_simp
  have js: "js_string (field ?a ''field_2LookupId'') = ''42''" by code_simp
  have nn: "not_nullish (field ?a ''field_2LookupId'')" by (simp add: field_def)
  have no: "\<not> (truthy (field ?a ''field_2'') \<and> is_object (field ?a ''field_2''))"
    "\<forall>r\<in>set [?a, ?b]. field r ''field_2LookupId'' = JStr ''42'' \<longrightarrow>
       \<not> (truthy (field r ''field_2'') \<and> is_object (field r ''field_2''))"
    by (simp_all add: field_def)
  have safe: "safe_key (NumberKey 42)" "safe_integers (field ?a ''field_2LookupId'')" "safe_parse ''42''"
    by code_simp+
  note inst = unresolved_placeholder[of "[?r]" ?r "[]" 0 "NumberKey 42" None ?e "''site-1''" sample_service
      "[[(''Id'', JStr ''1''), (''EmployeeLookupId'', JNum 42), (''Employee'', JStr ''[ID: 42]'')]]"
      "snd ?res" 0 "[?a, ?b]"]
  from inst[THEN conjunct1] h eid gate sample_item_fails safe(1)
  have 1: "field ([[(''Id'', JStr ''1''), (''EmployeeLookupId'', JNum 42), (''Employee'', JStr ''[ID: 42]'')]] ! 0)
             ''Employee'' = JStr (''[ID: '' @ key_string (NumberKey 42) @ '']'')"
    by simp
  from inst[THEN conjunct2] nn no sample_user_fails js safe(2,3)
  have 2: "field (fst (resolveAssigneeNames ?e [?a, ?b] None sample_service) ! 0) ''Assignee'' =
             JStr (''[ID: '' @ ''42'' @ '']'')"
    by simp
  from f g eid s42 tr 1 2 show ?thesis by simp
qed

text \<open>
  Counterexample to C2 as stated. The first record is expanded, so the second record,
  whose identifier 42 no tier resolves, is returned without an \<^verbatim>\<open>Employee\<close> field. And
  the identifier 0 is skipped by the test \<^verbatim>\<open>empId > 0\<close>: the record is returned as it was.
\<close>

theorem unresolved_placeholder_counterexample:
  "fst (resolveEmployeeNames (sample_env (\<lambda>h. sample_remote))
          [[(''Id'', JStr ''1''), (''Employee'', JObj [(''displayName'', JStr ''Jane Doe'')])],
           [(''Id'', JStr ''2''), (''EmployeeLookupId'', JNum 42)]]
          ''site-1'' None sample_service) =
     Inr [[(''Id'', JStr ''1''), (''Employee'', JStr ''Jane Doe''), (''EmployeeName'', JStr ''Jane Doe'')],
          [(''Id'', JStr ''2''), (''EmployeeLookupId'', JNum 42)]] \<and>
   field [(''Id'', JStr ''2''), (''EmployeeLookupId'', JNum 42)] ''Employee'' \<noteq> JStr ''[ID: 42]'' \<and>
   fst (resolveEmployeeNames (sample_env (\<lambda>h. sample_remote))
          [[(''Id'', JStr ''1''), (''EmployeeLookupId'', JNum 0)]]
          ''site-1'' None sample_service) =
     Inr [[(''Id'', JStr ''1''), (''EmployeeLookupId'', JNum 0)]] \<and>
   field [(''Id'', JStr ''1''), (''EmployeeLookupId'', JNum 0)] ''Employee'' \<noteq> JStr ''[ID: 0]''"
  by code_simp

text \<open>
  Witness for C3 (amended): an access card resolved from the cached employees, and an
  asset that gets the placeholder and keeps its \<^verbatim>\<open>AssigneeName\<close>.
\<close>

theorem resolved_or_placeholder_witness:
  "fst (resolveEmployeeNames (sample_env (\<lambda>h. sample_remote))
          [[(''Id'', JStr ''1''), (''EmployeeLookupId'', JStr ''42'')]] ''site-1''
          (Some [JObj [(''Id'', JNum 42), (''Title'', JStr ''John Smith'')]]) sample_service) =
     Inr [[(''Id'', JStr ''1''), (''EmployeeLookupId'', JStr ''42''),
           (''Employee'', JStr ''John Smith''), (''EmployeeName'', JStr ''John Smith'')]] \<and>
   fst (resolveAssigneeNames (sample_env (\<lambda>h. sample_remote))
          [[(''Id'', JStr ''1''), (''field_2LookupId'', JNum 42), (''AssigneeName'', JStr ''old'')]]
          None sample_service) =
     [[(''Id'', JStr ''1''), (''field_2LookupId'', JNum 42), (''AssigneeName'', JStr ''old''),
       (''Assignee'', JStr ''[ID: 42]'')]] \<and>
   ((\<exists>name. truthy name \<and>
       field (fst (resolveAssigneeNames (sample_env (\<lambda>h. sample_remote))
          [[(''Id'', JStr ''1''), (''field_2LookupId'', JNum 42), (''AssigneeName'', JStr ''old'')]]
          None sample_service) ! 0) ''Assignee'' = name \<and>
       field (fst (resolveAssigneeNames (sample_env (\<lambda>h. sample_remote))
          [[(''Id'', JStr ''1''), (''field_2LookupId'', JNum 42), (''AssigneeName'', JStr ''old'')]]
          None sample_service) ! 0) ''AssigneeName'' = name) \<or>
    field (fst (resolveAssigneeNames (sample_env (\<lambda>h. sample_remote))
          [[(''Id'', JStr ''1''), (''field_2LookupId'', JNum 42), (''AssigneeName'', JStr ''old'')]]
          None sample_service) ! 0) ''AssigneeName'' = JStr ''old'')"
proof -
  let ?e = "sample_env (\<lambda>h. sample_remote)"
  let ?r = "[(''Id'', JStr ''1''), (''EmployeeLookupId'', JStr ''42'')]"
  let ?c = "Some [JObj [(''Id'', JNum 42), (''Title'', JStr ''John Smith'')]]"
  let ?a = "[(''Id'', JStr ''1''), (''field_2LookupId'', JNum 42), (''AssigneeName'', JStr ''old'')]"
  let ?res = "resolveEmployeeNames ?e [?r] ''site-1'' ?c sample_service"
  let ?out = "[[(''Id'', JStr ''1''), (''EmployeeLookupId'', JStr ''42''),
           (''Employee'', JStr ''John Smith''), (''EmployeeName'', JStr ''John Smith'')]]"
  have f: "fst ?res = Inr ?out" by code_simp
  then have h: "?res = (Inr ?out, snd ?res)" by (simp add: prod_eq_iff)
  have eid: "employeeId 0 ?r = Some (NumberKey 42)" by code_simp
  have gate: "\<not> (truthy (field ?r ''Employee'') \<and> is_object (field ?r ''Employee''))"
    by (simp add: field_def)
  have nn: "not_nullish (field ?a ''field_2LookupId'')" by (simp add: field_def)
  have old: "field ?a ''AssigneeName'' = JStr ''old''" by (simp add: field_def)
  have safe: "safe_key (NumberKey 42)" "safe_integers (field ?a ''field_2LookupId'')"
    by code_simp+
  have g: "fst (resolveAssigneeNames ?e [?a] None sample_service) =
     [[(''Id'', JStr ''1''), (''field_2LookupId'', JNum 42), (''AssigneeName'', JStr ''old''),
       (''Assignee'', JStr ''[ID: 42]'')]]"
    by code_simp
  from resolved_or_placeholder[where j = 0 and assets = "[?a]" and e = ?e and cachedEmployees = None
      and s = sample_service, THEN conjunct2] nn old safe(2)
  have "(\<exists>name. truthy name \<and>
       field (fst (resolveAssigneeNames ?e [?a] None sample_service) ! 0) ''Assignee'' = name \<and>
       field (fst (resolveAssigneeNames ?e [?a] None sample_service) ! 0) ''AssigneeName'' = name) \<or>
    field (fst (resolveAssigneeNames ?e [?a] None sample_service) ! 0) ''AssigneeName'' = JStr ''old''"
    by auto
  moreover
  from resolved_or_placeholder[where records = "[?r]" and firstRecord = ?r and others = "[]" and i = 0
      and n = "NumberKey 42" and e = ?e and sid = "''site-1''" and cachedEmployees = ?c and s = sample_service
      and records' = ?out and s' = "snd ?res", THEN conjunct1] h eid gate safe(1)
  have "(\<exists>name. truthy name \<and> field (?out ! 0) ''Employee'' = name \<and>
               field (?out ! 0) ''EmployeeName'' = name) \<or>
      (field (?out ! 0) ''Employee'' = JStr (''[ID: '' @ key_string (NumberKey 42) @ '']'') \<and>
       field (?out ! 0) ''EmployeeName'' = field ([?r] ! 0) ''EmployeeName'')"
    by simp
  ultimately show ?thesis using f g by blast
qed

text \<open>
  Counterexample to C3 as stated. A record with a lookup identifier and an expanded mapping
  whose display name matches \<^verbatim>\<open>/^HPH\s?\d+/\<close> is returned as it was: \<^verbatim>\<open>Employee\<close> is still
  the mapping and there is no \<^verbatim>\<open>EmployeeName\<close>. And a record that gets the placeholder
  gets it in \<^verbatim>\<open>Employee\<close> only.
\<close>

theorem resolved_or_placeholder_counterexample:
  "fst (resolveEmployeeNames (sample_env (\<lambda>h. sample_remote))
          [[(''Id'', JStr ''1''), (''EmployeeLookupId'', JNum 5),
            (''Employee'', JObj [(''displayName'', JStr ''HPH 123'')])]]
          ''site-1'' None sample_service) =
     Inr [[(''Id'', JStr ''1''), (''EmployeeLookupId'', JNum 5),
           (''Employee'', JObj [(''displayName'', JStr ''HPH 123'')])]] \<and>
   field [(''Id'', JStr ''1''), (''EmployeeLookupId'', JNum 5),
          (''Employee'', JObj [(''displayName'', JStr ''HPH 123'')])] ''EmployeeName'' = JUndefined \<and>
   fst (resolveEmployeeNames (sample_env (\<lambda>h. sample_remote))
          [[(''Id'', JStr ''1''), (''EmployeeLookupId'', JNum 42)]] ''site-1'' None sample_service) =
     Inr [[(''Id'', JStr ''1''), (''EmployeeLookupId'', JNum 42), (''Employee'', JStr ''[ID: 42]'')]] \<and>
   field [(''Id'', JStr ''1''), (''EmployeeLookupId'', JNum 42), (''Employee'', JStr ''[ID: 42]'')]
     ''EmployeeName'' = JUndefined"
  by code_simp

end
